theory Spec2Isabelle
  imports Main
begin

section \<open>Expression test runner: data model\<close>

text \<open>
  The development follows \<^verbatim>\<open>src/webgpu/shader/execution/expression/expression.ts\<close>.
  JavaScript numbers that count cases, bytes or lanes are natural numbers; binding
  limits and buffer sizes stay far below \<open>2^53\<close>, and for \<open>a + b \<le> 2^53\<close> the double
  \<^verbatim>\<open>Math.floor(a / b)\<close> is \<open>a div b\<close>; \<^verbatim>\<open>Math.min\<close> is \<open>min\<close>.
  A thrown exception is a value \<open>Inl e\<close> of a sum type; a loop that may spin forever is
  a partial function into \<open>option\<close>, where \<open>None\<close> is "never returns".
\<close>

text \<open>
  The four ways a function of the file can throw. In JavaScript the first three are all
  \<^verbatim>\<open>Error\<close> objects; they are kept apart by the statement that raises them.
  \<^item> \<open>Error msg\<close>: an explicit \<^verbatim>\<open>throw new Error(msg)\<close>;
  \<^item> \<open>Unreachable\<close>: the call \<^verbatim>\<open>unreachable(...)\<close> in \<^verbatim>\<open>valueStride\<close>;
  \<^item> \<open>AssertionFailed\<close>: a failed \<^verbatim>\<open>assert(...)\<close>;
  \<^item> \<open>TypeError\<close>: the runtime's own TypeError (reduce of an empty array, a method
    call on a value that does not have the method).
\<close>

datatype error = Error string | Unreachable | AssertionFailed | TypeError

text \<open>
  Modelled from the spec: the type declarations of \<^verbatim>\<open>util/conversion.js\<close> are not part of
  the sources. Section 3 of the specification gives the element kinds and the three shapes
  of a value type; a vector and a matrix carry their dimensions and their element kind.
\<close>

datatype ScalarKind = Bool | I32 | U32 | F32 | F16 | AbstractFloat

datatype Type =
    ScalarType (kind: ScalarKind)
  | VectorType (width: nat) (elementType: ScalarKind)
  | MatrixType (cols: nat) (rows: nat) (elementType: ScalarKind)

datatype InputSource = Const | Uniform | StorageR | StorageRW

text \<open>The two entries of \<^verbatim>\<open>t.device.limits\<close> that \<^verbatim>\<open>run\<close> reads.\<close>

record Limits =
  maxUniformBufferBindingSize :: nat
  maxStorageBufferBindingSize :: nat

section \<open>Layout calculator\<close>

text \<open>
  \<^verbatim>\<open>valueStride\<close>: the nested switch on \<^verbatim>\<open>ty.cols\<close> and \<^verbatim>\<open>ty.rows\<close>; a matrix shape outside
  the table falls out of the switches into \<^verbatim>\<open>unreachable\<close>. Scalars and vectors are 16.
\<close>

fun valueStride :: "Type \<Rightarrow> error + nat" where
  "valueStride (MatrixType c r k) =
     (if c = 2 then
        (if r = 2 then Inr 16 else if r = 3 then Inr 32 else if r = 4 then Inr 32
         else Inl Unreachable)
      else if c = 3 then
        (if r = 2 then Inr 32 else if r = 3 then Inr 64 else if r = 4 then Inr 64
         else Inl Unreachable)
      else if c = 4 then
        (if r = 2 then Inr 32 else if r = 3 then Inr 64 else if r = 4 then Inr 64
         else Inl Unreachable)
      else Inl Unreachable)"
| "valueStride (ScalarType k) = Inr 16"
| "valueStride (VectorType w k) = Inr 16"

text \<open>\<^verbatim>\<open>Array.prototype.map\<close> with a callback that may throw: the first throw wins.\<close>

fun mapE :: "('a \<Rightarrow> error + 'b) \<Rightarrow> 'a list \<Rightarrow> error + 'b list" where
  "mapE f [] = Inr []"
| "mapE f (x # xs) =
     (case f x of
        Inl e \<Rightarrow> Inl e
      | Inr y \<Rightarrow> (case mapE f xs of Inl e \<Rightarrow> Inl e | Inr ys \<Rightarrow> Inr (y # ys)))"

text \<open>
  \<^verbatim>\<open>valueStrides\<close>: \<^verbatim>\<open>tys.map(valueStride).reduce((sum, c) => sum + c)\<close>. The reduce has no
  initial value, so it starts from the first stride and throws a TypeError on \<open>[]\<close>.
\<close>

definition valueStrides :: "Type list \<Rightarrow> error + nat" where
  "valueStrides tys =
     (case mapE valueStride tys of
        Inl e \<Rightarrow> Inl e
      | Inr [] \<Rightarrow> Inl TypeError
      | Inr (s # ss) \<Rightarrow> Inr (foldl (\<lambda>sum c. sum + c) s ss))"

section \<open>Batch partitioning in run\<close>

text \<open>
  The immediately invoked function that computes \<^verbatim>\<open>casesPerBatch\<close>. The const branch does
  not call \<^verbatim>\<open>valueStrides\<close>. \<open>applicableLimit\<close> names the dividend of each buffer branch.
\<close>

definition applicableLimit :: "Limits \<Rightarrow> InputSource \<Rightarrow> nat" where
  "applicableLimit lim src =
     (case src of
        Const \<Rightarrow> 0
      | Uniform \<Rightarrow> min (1024 * 2) (maxUniformBufferBindingSize lim)
      | StorageR \<Rightarrow> maxStorageBufferBindingSize lim
      | StorageRW \<Rightarrow> maxStorageBufferBindingSize lim)"

definition casesPerBatch :: "Limits \<Rightarrow> InputSource \<Rightarrow> Type list \<Rightarrow> error + nat" where
  "casesPerBatch lim src parameterTypes =
     (case src of
        Const \<Rightarrow> Inr 32
      | Uniform \<Rightarrow>
          (case valueStrides parameterTypes of
             Inl e \<Rightarrow> Inl e
           | Inr s \<Rightarrow> Inr (min (1024 * 2) (maxUniformBufferBindingSize lim) div s))
      | StorageR \<Rightarrow>
          (case valueStrides parameterTypes of
             Inl e \<Rightarrow> Inl e
           | Inr s \<Rightarrow> Inr (maxStorageBufferBindingSize lim div s))
      | StorageRW \<Rightarrow>
          (case valueStrides parameterTypes of
             Inl e \<Rightarrow> Inl e
           | Inr s \<Rightarrow> Inr (maxStorageBufferBindingSize lim div s)))"

text \<open>\<^verbatim>\<open>cases.slice(b, e)\<close> for \<open>0 \<le> b\<close>: the elements at \<open>b, ..., e - 1\<close> that exist.\<close>

definition slice :: "'c list \<Rightarrow> nat \<Rightarrow> nat \<Rightarrow> 'c list" where
  "slice xs b e = take (e - b) (drop b xs)"

text \<open>
  The submission loop \<^verbatim>\<open>for (let i = 0; i < cases.length; i += casesPerBatch)\<close>. One
  iteration cuts \<^verbatim>\<open>batchCases\<close> and hands it to \<open>submit\<close>, which stands for the rest of the
  body (\<^verbatim>\<open>submitBatch\<close>, \<^verbatim>\<open>checkBatch()\<close> and the completion hook) acting on a run state
  \<open>'s\<close>; an exception leaves the loop. \<open>done\<close> records the batches handed over so far, in
  submission order. The admission wait of the flight controller delays an iteration
  but does not change what it does; it is modelled apart, in \<open>flightStep\<close>.
\<close>

partial_function (option) submitLoop ::
  "('c list \<Rightarrow> 's \<Rightarrow> error + 's) \<Rightarrow> nat \<Rightarrow> 'c list \<Rightarrow> nat \<Rightarrow> 's \<Rightarrow> 'c list list
     \<Rightarrow> (error + 's \<times> 'c list list) option"
where
  "submitLoop submit cpb cases i st done =
     (if i < length cases then
        (let batchCases = slice cases i (min (i + cpb) (length cases)) in
         case submit batchCases st of
           Inl e \<Rightarrow> Some (Inl e)
         | Inr st' \<Rightarrow> submitLoop submit cpb cases (i + cpb) st' (done @ [batchCases]))
      else Some (Inr (st, done)))"

text \<open>
  \<^verbatim>\<open>run\<close> after the optional packing step: compute \<^verbatim>\<open>casesPerBatch\<close>, then loop from
  \<open>i = 0\<close>.
\<close>

definition runBatches ::
  "Limits \<Rightarrow> ('c list \<Rightarrow> 's \<Rightarrow> error + 's) \<Rightarrow> Type list \<Rightarrow> InputSource \<Rightarrow> 'c list \<Rightarrow> 's
     \<Rightarrow> (error + 's \<times> 'c list list) option"
where
  "runBatches lim submit parameterTypes src cases st =
     (case casesPerBatch lim src parameterTypes of
        Inl e \<Rightarrow> Some (Inl e)
      | Inr cpb \<Rightarrow> submitLoop submit cpb cases 0 st [])"

text \<open>Bytes of the input and of the output buffer of a batch of \<open>n\<close> cases.\<close>

definition inputBytes :: "Type list \<Rightarrow> nat \<Rightarrow> error + nat" where
  "inputBytes parameterTypes n =
     (case valueStrides parameterTypes of Inl e \<Rightarrow> Inl e | Inr s \<Rightarrow> Inr (n * s))"

definition outputBytes :: "Type \<Rightarrow> nat \<Rightarrow> error + nat" where
  "outputBytes resultType n =
     (case valueStride resultType of Inl e \<Rightarrow> Inl e | Inr s \<Rightarrow> Inr (n * s))"

text \<open>
  A \<open>submit\<close> step that accepts every batch and leaves the run state alone: the loop
  body on a device where nothing throws. It is used to exhibit concrete runs.
\<close>

definition acceptBatch :: "'c list \<Rightarrow> 's \<Rightarrow> error + 's" where
  "acceptBatch batchCases st = Inr st"


section \<open>Flight control in run\<close>

text \<open>
  The rate limiter of \<^verbatim>\<open>run\<close> on the JavaScript event loop. The submitter is the body of
  \<^verbatim>\<open>run\<close>; it is at the head of the loop, suspended in the \<^verbatim>\<open>await\<close>, resumed (its promise
  is resolved and the continuation is queued), finished, stopped by an exception of
  \<^verbatim>\<open>submitBatch\<close> or \<^verbatim>\<open>checkBatch\<close>, or stopped by the \<^verbatim>\<open>assert\<close> in the promise executor.
\<close>

datatype control = AtLoopHead | Awaiting | Resumed | Finished | Thrown | AssertFailed

text \<open>
  \<open>loopIdx\<close> is the loop variable \<^verbatim>\<open>i\<close>, \<open>resolveSet\<close> says that \<^verbatim>\<open>resolvePromiseBlockingBatch\<close> is
  not \<^verbatim>\<open>undefined\<close>, and \<open>pending\<close> counts the \<^verbatim>\<open>onSubmittedWorkDone()\<close> promises whose
  \<^verbatim>\<open>finally\<close> callback has not run yet.
\<close>

record flight =
  loopIdx :: nat
  batchesInFlight :: int
  resolveSet :: bool
  ctl :: control
  pending :: nat

definition maxBatchesInFlight :: int where
  "maxBatchesInFlight = 5"

definition flightInit :: flight where
  "flightInit =
     \<lparr>loopIdx = 0, batchesInFlight = 0, resolveSet = False, ctl = AtLoopHead, pending = 0\<rparr>"

text \<open>
  What the event loop can run next: the submitter up to the end of one iteration or
  to its \<^verbatim>\<open>await\<close> (\<open>Proceed\<close>; \<open>ProceedThrows\<close> when \<^verbatim>\<open>submitBatch\<close> or \<^verbatim>\<open>checkBatch\<close> throws
  in that iteration), or the \<^verbatim>\<open>finally\<close> callback of one finished submission
  (\<open>WorkDone\<close>). Every order of events is allowed, which includes the orders the
  event loop can produce.
\<close>

datatype event = Proceed | ProceedThrows | WorkDone

text \<open>
  The loop body from \<^verbatim>\<open>batchesInFlight += 1\<close> on: the counter goes up, the batch is
  submitted and its completion hook registered, and \<^verbatim>\<open>i += casesPerBatch\<close>. When the
  submission throws, the counter has gone up already and nothing else happens.
\<close>

definition admit :: "nat \<Rightarrow> bool \<Rightarrow> flight \<Rightarrow> flight" where
  "admit cpb throws st =
     (if throws then st\<lparr>batchesInFlight := batchesInFlight st + 1, ctl := Thrown\<rparr>
      else st\<lparr>batchesInFlight := batchesInFlight st + 1, pending := pending st + 1,
              loopIdx := loopIdx st + cpb, ctl := AtLoopHead\<rparr>)"

text \<open>
  One turn of the submitter. At the head of the loop with \<^verbatim>\<open>i < cases.length\<close>: if
  \<^verbatim>\<open>batchesInFlight > maxBatchesInFlight\<close> the promise executor asserts that no resolver
  is stored, stores one, and the submitter suspends; otherwise the batch is admitted.
  A resumed submitter continues after the \<^verbatim>\<open>await\<close> and admits its batch without
  testing the counter again.
\<close>

definition submitterStep :: "nat \<Rightarrow> nat \<Rightarrow> bool \<Rightarrow> flight \<Rightarrow> flight" where
  "submitterStep cpb len throws st =
     (case ctl st of
        AtLoopHead \<Rightarrow>
          (if loopIdx st < len then
             (if batchesInFlight st > maxBatchesInFlight then
                (if resolveSet st then st\<lparr>ctl := AssertFailed\<rparr>
                 else st\<lparr>resolveSet := True, ctl := Awaiting\<rparr>)
              else admit cpb throws st)
           else st\<lparr>ctl := Finished\<rparr>)
      | Resumed \<Rightarrow> admit cpb throws st
      | _ \<Rightarrow> st)"

text \<open>
  \<^verbatim>\<open>batchFinishedCallback\<close>: the counter goes down; a stored resolver is called and
  cleared, which makes a suspended submitter runnable again.
\<close>

definition batchFinishedCallback :: "flight \<Rightarrow> flight" where
  "batchFinishedCallback st =
     (let st1 = st\<lparr>batchesInFlight := batchesInFlight st - 1\<rparr> in
      if resolveSet st1 then
        st1\<lparr>resolveSet := False, ctl := (if ctl st1 = Awaiting then Resumed else ctl st1)\<rparr>
      else st1)"

definition flightStep :: "nat \<Rightarrow> nat \<Rightarrow> event \<Rightarrow> flight \<Rightarrow> flight" where
  "flightStep cpb len ev st =
     (case ev of
        Proceed \<Rightarrow> submitterStep cpb len False st
      | ProceedThrows \<Rightarrow> submitterStep cpb len True st
      | WorkDone \<Rightarrow>
          (if 0 < pending st then batchFinishedCallback (st\<lparr>pending := pending st - 1\<rparr>)
           else st))"

definition flightRun :: "nat \<Rightarrow> nat \<Rightarrow> event list \<Rightarrow> flight" where
  "flightRun cpb len evs = foldl (\<lambda>st ev. flightStep cpb len ev st) flightInit evs"

text \<open>
  The invariant of the rate limiter: the counter is at most one above the ceiling, a
  resumed submitter has room for its batch, a resolver is stored exactly while the
  submitter is suspended, and the assertion has not failed.
\<close>

definition flightInv :: "flight \<Rightarrow> bool" where
  "flightInv st \<longleftrightarrow>
     batchesInFlight st \<le> maxBatchesInFlight + 1 \<and>
     (ctl st = Resumed \<longrightarrow> batchesInFlight st \<le> maxBatchesInFlight) \<and>
     (resolveSet st \<longleftrightarrow> ctl st = Awaiting) \<and>
     ctl st \<noteq> AssertFailed"


section \<open>Values, expectations and cases\<close>

text \<open>
  Modelled from the spec: the value classes of \<^verbatim>\<open>util/conversion.js\<close> are not part of the
  sources. A value is a scalar of some kind with its payload \<open>'a\<close> (the number it holds,
  never inspected here), a vector of element values, or a matrix of columns. A
  JavaScript array is not checked on construction, so the elements are values again.

  The casts of the program are not checked when it runs, so a function that takes a
  value can be handed two things that are none of the three: \<^verbatim>\<open>undefined\<close>, and a bare
  array of values (a column of a matrix). They are the last two constructors.
\<close>

datatype 'a Value =
    Scalar ScalarKind 'a
  | Vector "'a Value list"
  | Matrix "'a Value list list"
  | JSUndefined
  | JSArray "'a Value list"

text \<open>
  Modelled from the spec: \<^verbatim>\<open>Comparison\<close> and \<^verbatim>\<open>Comparator\<close> of \<^verbatim>\<open>util/compare.js\<close>
  (a capability \<^verbatim>\<open>compare(actual) -> {matched, got, expected}\<close> with a \<^verbatim>\<open>kind\<close>). The two
  strings are named \<open>gotText\<close> and \<open>expectedText\<close>. A comparator is a JavaScript function
  and may throw: it returns \<open>Inl\<close> then.
\<close>

record Comparison =
  matched :: bool
  gotText :: string
  expectedText :: string

record 'a Comparator =
  compare :: "'a Value \<Rightarrow> error + Comparison"
  kind :: string

text \<open>
  \<^verbatim>\<open>Expectation = Value | FPInterval | FPInterval[] | FPInterval[][] | Comparator\<close>; the
  interval type \<open>'i\<close> belongs to the floating point library and stays abstract.
\<close>

datatype ('a, 'i) Expectation =
    ExpValue "'a Value"
  | ExpInterval 'i
  | ExpIntervals "'i list"
  | ExpIntervalGrid "'i list list"
  | ExpComparator "'a Comparator"

text \<open>\<^verbatim>\<open>input: Value | Array<Value>\<close>.\<close>

datatype 'a Input = Single "'a Value" | Many "'a Value list"

record ('a, 'i) Case =
  input :: "'a Input"
  expected :: "('a, 'i) Expectation"

text \<open>\<^verbatim>\<open>isComparator\<close>: not an interval, a scalar, a vector, a matrix or an array.\<close>

fun isComparator :: "('a, 'i) Expectation \<Rightarrow> bool" where
  "isComparator (ExpComparator c) = True"
| "isComparator e = False"

text \<open>
  \<^verbatim>\<open>toComparator\<close>. The function \<^verbatim>\<open>compare(got, expected)\<close> of \<^verbatim>\<open>util/compare.js\<close> is the
  parameter \<open>compareFn\<close>.
\<close>

definition toComparator ::
  "('a Value \<Rightarrow> ('a, 'i) Expectation \<Rightarrow> error + Comparison) \<Rightarrow> ('a, 'i) Expectation
     \<Rightarrow> 'a Comparator"
where
  "toComparator compareFn e =
     (case e of
        ExpComparator c \<Rightarrow> c
      | _ \<Rightarrow> \<lparr>compare = (\<lambda>g. compareFn g e), kind = ''value''\<rparr>)"

section \<open>Text helpers\<close>

text \<open>\<^verbatim>\<open>Array.prototype.join\<close>.\<close>

fun join :: "string \<Rightarrow> string list \<Rightarrow> string" where
  "join sep [] = []"
| "join sep [x] = x"
| "join sep (x # y # ys) = x @ sep @ join sep (y # ys)"

text \<open>The line break of a template literal.\<close>

definition newline :: string where
  "newline = [CHR 0x0A]"

text \<open>A natural number in a template literal: its decimal digits.\<close>

definition digit :: "nat \<Rightarrow> char" where
  "digit d = ''0123456789'' ! d"

function showNat :: "nat \<Rightarrow> string" where
  "showNat n = (if n < 10 then [digit n] else showNat (n div 10) @ [digit (n mod 10)])"
  by pat_completeness auto
termination
  by (relation "measure (\<lambda>n. n)") auto

declare showNat.simps [simp del]

section \<open>Result verifier\<close>

text \<open>
  The function \<^verbatim>\<open>checkExpectation\<close> inside the closure that \<^verbatim>\<open>submitBatch\<close> returns.
  \<^verbatim>\<open>resultType.read\<close> is the parameter \<open>readValue\<close>, the output bytes have an abstract type,
  and \<open>valueText\<close> is \<^verbatim>\<open>Value.toString\<close>, used by the template literal.

  First loop: \<^verbatim>\<open>outputs[i] = resultType.read(outputData, i * valueStride(resultType))\<close>.
\<close>

definition readOutputs ::
  "(Type \<Rightarrow> 'b \<Rightarrow> nat \<Rightarrow> 'a Value) \<Rightarrow> Type \<Rightarrow> 'b \<Rightarrow> nat \<Rightarrow> error + 'a Value list"
where
  "readOutputs readValue resultType outputData n =
     mapE (\<lambda>i. case valueStride resultType of
                  Inl e \<Rightarrow> Inl e
                | Inr s \<Rightarrow> Inr (readValue resultType outputData (i * s)))
       [0..<n]"

text \<open>The failure record pushed for a case that did not match.\<close>

definition failureRecord :: "('a Value \<Rightarrow> string) \<Rightarrow> ('a, 'i) Case \<Rightarrow> Comparison \<Rightarrow> string" where
  "failureRecord valueText c cmp =
     ''('' @ (case input c of
                Many vs \<Rightarrow> join '', '' (map valueText vs)
              | Single v \<Rightarrow> valueText v) @ '')'' @ newline @
     ''    returned: '' @ gotText cmp @ newline @
     ''    expected: '' @ expectedText cmp"

text \<open>
  Second loop, \<^verbatim>\<open>for (let caseIdx = 0; caseIdx < cases.length; caseIdx++)\<close>, with the list
  \<^verbatim>\<open>errs\<close> as accumulator. A comparator that throws ends the loop with its exception.
\<close>

function checkCases ::
  "('a Value \<Rightarrow> ('a, 'i) Expectation \<Rightarrow> error + Comparison) \<Rightarrow> ('a Value \<Rightarrow> string)
     \<Rightarrow> ('a, 'i) Case list \<Rightarrow> 'a Value list \<Rightarrow> nat \<Rightarrow> string list \<Rightarrow> error + string list"
where
  "checkCases compareFn valueText cases outputs caseIdx errs =
     (if caseIdx < length cases then
        (let c = cases ! caseIdx; g = outputs ! caseIdx in
         case compare (toComparator compareFn (expected c)) g of
           Inl e \<Rightarrow> Inl e
         | Inr cmp \<Rightarrow>
             checkCases compareFn valueText cases outputs (caseIdx + 1)
               (if \<not> matched cmp then errs @ [failureRecord valueText c cmp] else errs))
      else Inr errs)"
  by pat_completeness auto
termination
  by (relation "measure (\<lambda>(compareFn, valueText, cases, outputs, caseIdx, errs).
                           length cases - caseIdx)") auto

declare checkCases.simps [simp del]

text \<open>
  \<^verbatim>\<open>checkExpectation\<close> returns \<^verbatim>\<open>new Error(errs.join('\n\n'))\<close> when \<^verbatim>\<open>errs\<close> is not empty,
  and \<^verbatim>\<open>undefined\<close> (here \<open>None\<close>) otherwise.
\<close>

definition checkExpectation ::
  "('a Value \<Rightarrow> ('a, 'i) Expectation \<Rightarrow> error + Comparison) \<Rightarrow> ('a Value \<Rightarrow> string)
     \<Rightarrow> (Type \<Rightarrow> 'b \<Rightarrow> nat \<Rightarrow> 'a Value) \<Rightarrow> Type \<Rightarrow> ('a, 'i) Case list \<Rightarrow> 'b
     \<Rightarrow> error + error option"
where
  "checkExpectation compareFn valueText readValue resultType cases outputData =
     (case readOutputs readValue resultType outputData (length cases) of
        Inl e \<Rightarrow> Inl e
      | Inr outputs \<Rightarrow>
          (case checkCases compareFn valueText cases outputs 0 [] of
             Inl e \<Rightarrow> Inl e
           | Inr errs \<Rightarrow>
               Inr (if length errs > 0 then Some (Error (join (newline @ newline) errs))
                    else None)))"


section \<open>Program synthesizer\<close>

text \<open>Sequencing of computations that may throw.\<close>

definition bindE :: "error + 'a \<Rightarrow> ('a \<Rightarrow> error + 'b) \<Rightarrow> error + 'b" where
  "bindE m f = (case m of Inl e \<Rightarrow> Inl e | Inr x \<Rightarrow> f x)"

text \<open>
  Modelled from the spec: \<^verbatim>\<open>scalarTypeOf\<close> of \<^verbatim>\<open>util/conversion.js\<close> is not part of the sources.
  It gives the scalar type a type is built from; the callers read its \<^verbatim>\<open>kind\<close> at once, so
  the model returns the kind.
\<close>

fun scalarTypeOf :: "Type \<Rightarrow> ScalarKind" where
  "scalarTypeOf (ScalarType k) = k"
| "scalarTypeOf (VectorType w k) = k"
| "scalarTypeOf (MatrixType c r k) = k"

text \<open>\<^verbatim>\<open>storageType\<close>: bool is stored as u32, a vector element-wise; anything else as it is.\<close>

function storageType :: "Type \<Rightarrow> Type" where
  "storageType (ScalarType k) = (if k = Bool then ScalarType U32 else ScalarType k)"
| "storageType (VectorType w k) = VectorType w (Type.kind (storageType (ScalarType k)))"
| "storageType (MatrixType c r k) = MatrixType c r k"
  by pat_completeness auto
termination
  by (relation "measure (\<lambda>ty. case ty of VectorType w k \<Rightarrow> 1 | _ \<Rightarrow> 0)") auto

text \<open>\<^verbatim>\<open>fromStorage\<close> and \<^verbatim>\<open>toStorage\<close>; each \<^verbatim>\<open>assert\<close> is a branch.\<close>

fun fromStorage :: "Type \<Rightarrow> string \<Rightarrow> error + string" where
  "fromStorage (ScalarType k) expr =
     (if k = AbstractFloat then Inl AssertionFailed
      else if k = Bool then Inr (expr @ '' != 0u'')
      else Inr expr)"
| "fromStorage (VectorType w k) expr =
     (if k = AbstractFloat then Inl AssertionFailed
      else if k = Bool then Inr (expr @ '' != vec'' @ showNat w @ ''<u32>(0u)'')
      else Inr expr)"
| "fromStorage (MatrixType c r k) expr = Inr expr"

fun toStorage :: "Type \<Rightarrow> string \<Rightarrow> error + string" where
  "toStorage (ScalarType k) expr =
     (if k = AbstractFloat then Inl AssertionFailed
      else if k = Bool then Inr (''select(0u, 1u, '' @ expr @ '')'')
      else Inr expr)"
| "toStorage (VectorType w k) expr =
     (if k = AbstractFloat then Inl AssertionFailed
      else if k = Bool then
        Inr (''select(vec'' @ showNat w @ ''<u32>(0u), vec'' @ showNat w @ ''<u32>(1u), ''
             @ expr @ '')'')
      else Inr expr)"
| "toStorage (MatrixType c r k) expr = Inr expr"

text \<open>
  The helper \<^verbatim>\<open>map(v, fn)\<close> of the file: over the array, or over the single value.
\<close>

fun mapInput :: "'a Input \<Rightarrow> ('a Value \<Rightarrow> 'b) \<Rightarrow> 'b list" where
  "mapInput (Many vs) fn = map fn vs"
| "mapInput (Single v) fn = [fn v]"

text \<open>\<^verbatim>\<open>wgslOutputs\<close>. \<open>typeText\<close> is \<^verbatim>\<open>Type.toString\<close>.\<close>

definition wgslOutputs :: "(Type \<Rightarrow> string) \<Rightarrow> Type \<Rightarrow> nat \<Rightarrow> error + string" where
  "wgslOutputs typeText resultType count =
     bindE (valueStride resultType) (\<lambda>s.
       Inr (newline @ ''struct Output {'' @ newline @
            ''  @size('' @ showNat s @ '') value : '' @ typeText (storageType resultType) @ newline @
            ''};'' @ newline @
            ''@group(0) @binding(0) var<storage, read_write> outputs : array<Output, ''
            @ showNat count @ ''>;''))"

text \<open>
  \<^verbatim>\<open>wgslValuesArray\<close>. \<open>wgsl\<close> is \<^verbatim>\<open>Value.wgsl\<close>, and \<open>expressionBuilder\<close> the function of
  type \<^verbatim>\<open>ExpressionBuilder\<close>.
\<close>

definition wgslValuesArray ::
  "('a Value \<Rightarrow> string) \<Rightarrow> Type list \<Rightarrow> Type \<Rightarrow> ('a, 'i) Case list \<Rightarrow> (string list \<Rightarrow> string)
     \<Rightarrow> string"
where
  "wgslValuesArray wgsl parameterTypes resultType cases expressionBuilder =
     (if \<exists>ty \<in> set parameterTypes. scalarTypeOf ty = AbstractFloat then []
      else newline @ ''const values = array('' @ newline @ ''  '' @
           join ('','' @ newline @ ''  '')
             (map (\<lambda>c. expressionBuilder (mapInput (input c) wgsl)) cases) @
           newline @ '');'')"

text \<open>\<^verbatim>\<open>wgslInputVar\<close>; the const source falls out of the switch into the throw.\<close>

definition wgslInputVar :: "InputSource \<Rightarrow> nat \<Rightarrow> error + string" where
  "wgslInputVar inputSource count =
     (case inputSource of
        StorageR \<Rightarrow>
          Inr (''@group(0) @binding(1) var<storage, read> inputs : array<Input, ''
               @ showNat count @ ''>;'')
      | StorageRW \<Rightarrow>
          Inr (''@group(0) @binding(1) var<storage, read_write> inputs : array<Input, ''
               @ showNat count @ ''>;'')
      | Uniform \<Rightarrow>
          Inr (''@group(0) @binding(1) var<uniform> inputs : array<Input, ''
               @ showNat count @ ''>;'')
      | Const \<Rightarrow> Inl (Error ''InputSource const does not use an input var''))"

text \<open>\<^verbatim>\<open>wgslHeader\<close>.\<close>

definition wgslHeader :: "Type list \<Rightarrow> Type \<Rightarrow> string" where
  "wgslHeader parameterTypes resultType =
     (if scalarTypeOf resultType = F16 \<or> (\<exists>ty \<in> set parameterTypes. scalarTypeOf ty = F16)
      then ''enable f16;'' @ newline else [])"

text \<open>
  \<^verbatim>\<open>basicExpressionBuilder\<close>. \<open>unrollConstEvalLoops\<close> is the flag of \<^verbatim>\<open>globalTestConfig\<close>.
  The three bodies of the const branch come first, then the two templates.
\<close>

definition directBody ::
  "('a Value \<Rightarrow> string) \<Rightarrow> (string list \<Rightarrow> string) \<Rightarrow> ('a, 'i) Case list \<Rightarrow> string"
where
  "directBody wgsl expressionBuilder cases =
     join (newline @ ''  '')
       (map (\<lambda>(i, c). ''  outputs['' @ showNat i @ ''].value = ''
                        @ expressionBuilder (mapInput (input c) wgsl) @ '';'')
          (enumerate 0 cases))"

definition unrolledBody :: "Type \<Rightarrow> ('a, 'i) Case list \<Rightarrow> error + string" where
  "unrolledBody resultType cases =
     bindE (mapE (\<lambda>(i, c).
                    bindE (toStorage resultType (''values['' @ showNat i @ '']'')) (\<lambda>v.
                      Inr (''  outputs['' @ showNat i @ ''].value = '' @ v @ '';'')))
              (enumerate 0 cases))
       (\<lambda>ls. Inr (join (newline @ ''  '') ls))"

definition loopBody :: "Type \<Rightarrow> nat \<Rightarrow> error + string" where
  "loopBody resultType n =
     bindE (toStorage resultType ''values[i]'') (\<lambda>v.
       Inr (newline @ ''  for (var i = 0u; i < '' @ showNat n @ ''; i++) {'' @ newline @
            ''    outputs[i].value = '' @ v @ '';'' @ newline @ ''  }''))"

definition basicExpressionBuilder ::
  "(Type \<Rightarrow> string) \<Rightarrow> ('a Value \<Rightarrow> string) \<Rightarrow> bool \<Rightarrow> (string list \<Rightarrow> string)
     \<Rightarrow> Type list \<Rightarrow> Type \<Rightarrow> ('a, 'i) Case list \<Rightarrow> InputSource \<Rightarrow> error + string"
where
  "basicExpressionBuilder typeText wgsl unrollConstEvalLoops expressionBuilder
       parameterTypes resultType cases inputSource =
     (if inputSource = Const then
        bindE (if \<exists>ty \<in> set parameterTypes. scalarTypeOf ty = AbstractFloat then
                 Inr (directBody wgsl expressionBuilder cases)
               else if unrollConstEvalLoops then unrolledBody resultType cases
               else loopBody resultType (length cases)) (\<lambda>body.
        bindE (wgslOutputs typeText resultType (length cases)) (\<lambda>outputs.
          Inr (newline @ wgslHeader parameterTypes resultType @ newline @ newline @
               outputs @ newline @ newline @
               wgslValuesArray wgsl parameterTypes resultType cases expressionBuilder @
               newline @ newline @
               ''@compute @workgroup_size(1)'' @ newline @
               ''fn main() {'' @ newline @ body @ newline @ ''}'')))
      else
        bindE (mapE (\<lambda>(i, ty). fromStorage ty (''inputs[i].param'' @ showNat i))
                 (enumerate 0 parameterTypes)) (\<lambda>paramExprs.
        bindE (toStorage resultType (expressionBuilder paramExprs)) (\<lambda>expr.
        bindE (mapE (\<lambda>(i, ty).
                       bindE (valueStride ty) (\<lambda>s.
                         Inr (''  @size('' @ showNat s @ '') param'' @ showNat i @ '' : ''
                              @ typeText (storageType ty) @ '','')))
                 (enumerate 0 parameterTypes)) (\<lambda>fields.
        bindE (wgslOutputs typeText resultType (length cases)) (\<lambda>outputs.
        bindE (wgslInputVar inputSource (length cases)) (\<lambda>inputVar.
          Inr (newline @ wgslHeader parameterTypes resultType @ newline @ newline @
               ''struct Input {'' @ newline @ join newline fields @ newline @ ''};'' @
               newline @ newline @ outputs @ newline @ newline @ inputVar @
               newline @ newline @
               ''@compute @workgroup_size(1)'' @ newline @
               ''fn main() {'' @ newline @
               ''  for (var i = 0; i < '' @ showNat (length cases) @ ''; i++) {'' @ newline @
               ''    outputs[i].value = '' @ expr @ '';'' @ newline @
               ''  }'' @ newline @ ''}'' @ newline)))))))"

text \<open>
  \<^verbatim>\<open>compoundAssignmentBuilder\<close>. The two validation throws come before everything else.
  \<^verbatim>\<open>(c.input as Value[]).map(...)\<close> is a TypeError on an input that is no array, and
  \<^verbatim>\<open>c[0]\<close>, \<^verbatim>\<open>c[1]\<close> past the end of the array print as \<^verbatim>\<open>undefined\<close>.
\<close>

definition textAt :: "string list \<Rightarrow> nat \<Rightarrow> string" where
  "textAt c i = (if i < length c then c ! i else ''undefined'')"

fun inputTexts :: "('a Value \<Rightarrow> string) \<Rightarrow> 'a Input \<Rightarrow> error + string list" where
  "inputTexts wgsl (Many vs) = Inr (map wgsl vs)"
| "inputTexts wgsl (Single v) = Inl TypeError"

definition compoundBody :: "(Type \<Rightarrow> string) \<Rightarrow> bool \<Rightarrow> string \<Rightarrow> Type \<Rightarrow> nat \<Rightarrow> string" where
  "compoundBody typeText unrollConstEvalLoops op resultType n =
     (if unrollConstEvalLoops then
        join (newline @ ''  '')
          (map (\<lambda>i. newline @ ''  var ret_'' @ showNat i @ '' = lhs['' @ showNat i @ ''];'' @
                     newline @ ''  ret_'' @ showNat i @ '' '' @ op @ '' rhs['' @ showNat i @ ''];'' @
                     newline @ ''  outputs['' @ showNat i @ ''].value = ''
                     @ typeText (storageType resultType) @ ''(ret_'' @ showNat i @ '');'')
             [0..<n])
      else
        newline @ ''  for (var i = 0u; i < '' @ showNat n @ ''; i++) {'' @ newline @
        ''    var ret = lhs[i];'' @ newline @
        ''    ret '' @ op @ '' rhs[i];'' @ newline @
        ''    outputs[i].value = '' @ typeText (storageType resultType) @ ''(ret);'' @ newline @
        ''  }'')"

definition compoundAssignmentBuilder ::
  "(Type \<Rightarrow> string) \<Rightarrow> ('a Value \<Rightarrow> string) \<Rightarrow> bool \<Rightarrow> string
     \<Rightarrow> Type list \<Rightarrow> Type \<Rightarrow> ('a, 'i) Case list \<Rightarrow> InputSource \<Rightarrow> error + string"
where
  "compoundAssignmentBuilder typeText wgsl unrollConstEvalLoops op
       parameterTypes resultType cases inputSource =
     (if length parameterTypes \<noteq> 2 then
        Inl (Error ''compoundBinaryOp() requires exactly two parameters values per case'')
      else
        (let lhsType = parameterTypes ! 0; rhsType = parameterTypes ! 1 in
         if lhsType \<noteq> resultType then
           Inl (Error (''compoundBinaryOp() requires result type ('' @ typeText resultType
                       @ '') to be equal to the LHS type ('' @ typeText lhsType @ '')''))
         else if inputSource = Const then
           (let body = compoundBody typeText unrollConstEvalLoops op resultType (length cases) in
            bindE (mapE (\<lambda>c. inputTexts wgsl (input c)) cases) (\<lambda>vals.
            bindE (wgslOutputs typeText resultType (length cases)) (\<lambda>outputs.
              Inr (newline @ wgslHeader parameterTypes resultType @ newline @ outputs @
                   newline @ newline @
                   ''const lhs = array('' @ newline @
                   join ('','' @ newline @ ''  '') (map (\<lambda>c. textAt c 0) vals) @ newline @
                   ''      );'' @ newline @
                   ''const rhs = array('' @ newline @
                   join ('','' @ newline @ ''  '') (map (\<lambda>c. textAt c 1) vals) @ newline @
                   '');'' @ newline @ newline @
                   ''@compute @workgroup_size(1)'' @ newline @
                   ''fn main() {'' @ newline @ body @ newline @ ''}''))))
         else
           bindE (wgslOutputs typeText resultType (length cases)) (\<lambda>outputs.
           bindE (valueStride lhsType) (\<lambda>ls.
           bindE (valueStride rhsType) (\<lambda>rs.
           bindE (wgslInputVar inputSource (length cases)) (\<lambda>inputVar.
             Inr (newline @ wgslHeader parameterTypes resultType @ newline @ outputs @
                  newline @ newline @
                  ''struct Input {'' @ newline @
                  ''  @size('' @ showNat ls @ '') lhs : '' @ typeText (storageType lhsType) @ '','' @
                  newline @
                  ''  @size('' @ showNat rs @ '') rhs : '' @ typeText (storageType rhsType) @ '','' @
                  newline @ ''}'' @ newline @ newline @ inputVar @ newline @ newline @
                  ''@compute @workgroup_size(1)'' @ newline @
                  ''fn main() {'' @ newline @
                  ''  for (var i = 0; i < '' @ showNat (length cases) @ ''; i++) {'' @ newline @
                  ''    var ret = '' @ typeText lhsType @ ''(inputs[i].lhs);'' @ newline @
                  ''    ret '' @ op @ '' '' @ typeText rhsType @ ''(inputs[i].rhs);'' @ newline @
                  ''    outputs[i].value = '' @ typeText (storageType resultType) @ ''(ret);'' @
                  newline @ ''  }'' @ newline @ ''}'' @ newline)))))))"


section \<open>Meaning of the storage conversions\<close>

text \<open>
  Modelled from the spec: the shading language is not part of the sources. The storage
  conversions emit two of its operators, \<^verbatim>\<open>select(f, t, cond)\<close> and \<^verbatim>\<open>a != b\<close>, over u32
  literals and u32 splat vectors; section 4.3 of the specification gives the encoding
  (a boolean is stored as the unsigned 0 or 1 and loaded by comparing with 0, a boolean
  vector element-wise). \<open>wexpr\<close> is the fragment they emit around an opaque expression
  text, \<open>render\<close> prints it, and \<open>evalW\<close> gives its value once the opaque texts have one.
\<close>

datatype wexpr =
    Opaque string
  | ULit nat
  | USplat nat nat
  | Select wexpr wexpr wexpr
  | NotEqual wexpr wexpr

fun render :: "wexpr \<Rightarrow> string" where
  "render (Opaque e) = e"
| "render (ULit n) = showNat n @ ''u''"
| "render (USplat w n) = ''vec'' @ showNat w @ ''<u32>('' @ showNat n @ ''u)''"
| "render (Select f t c) = ''select('' @ render f @ '', '' @ render t @ '', '' @ render c @ '')''"
| "render (NotEqual a b) = render a @ '' != '' @ render b"

datatype wval = BoolV bool | U32V nat | BoolVec "bool list" | U32Vec "nat list" | Invalid

fun selectW :: "wval \<Rightarrow> wval \<Rightarrow> wval \<Rightarrow> wval" where
  "selectW (U32V f) (U32V t) (BoolV c) = U32V (if c then t else f)"
| "selectW (U32Vec fs) (U32Vec ts) (BoolVec cs) =
     (if length fs = length cs \<and> length ts = length cs then
        U32Vec (map (\<lambda>(c, f, t). if c then t else f) (zip cs (zip fs ts)))
      else Invalid)"
| "selectW f t c = Invalid"

fun notEqualW :: "wval \<Rightarrow> wval \<Rightarrow> wval" where
  "notEqualW (U32V a) (U32V b) = BoolV (a \<noteq> b)"
| "notEqualW (U32Vec as) (U32Vec bs) =
     (if length as = length bs then BoolVec (map (\<lambda>(a, b). a \<noteq> b) (zip as bs)) else Invalid)"
| "notEqualW a b = Invalid"

fun evalW :: "(string \<Rightarrow> wval) \<Rightarrow> wexpr \<Rightarrow> wval" where
  "evalW env (Opaque e) = env e"
| "evalW env (ULit n) = U32V n"
| "evalW env (USplat w n) = U32Vec (replicate w n)"
| "evalW env (Select f t c) = selectW (evalW env f) (evalW env t) (evalW env c)"
| "evalW env (NotEqual a b) = notEqualW (evalW env a) (evalW env b)"

text \<open>The fragments that storing and loading a boolean build around an expression.\<close>

fun storedExpr :: "Type \<Rightarrow> wexpr \<Rightarrow> wexpr" where
  "storedExpr (ScalarType k) x = Select (ULit 0) (ULit 1) x"
| "storedExpr (VectorType w k) x = Select (USplat w 0) (USplat w 1) x"
| "storedExpr (MatrixType c r k) x = x"

fun loadedExpr :: "Type \<Rightarrow> wexpr \<Rightarrow> wexpr" where
  "loadedExpr (ScalarType k) x = NotEqual x (ULit 0)"
| "loadedExpr (VectorType w k) x = NotEqual x (USplat w 0)"
| "loadedExpr (MatrixType c r k) x = x"

text \<open>A boolean type, and a value that fits it.\<close>

fun isBoolType :: "Type \<Rightarrow> bool" where
  "isBoolType (ScalarType k) = (k = Bool)"
| "isBoolType (VectorType w k) = (k = Bool)"
| "isBoolType (MatrixType c r k) = False"

fun fitsType :: "Type \<Rightarrow> wval \<Rightarrow> bool" where
  "fitsType (ScalarType k) (BoolV b) = True"
| "fitsType (VectorType w k) (BoolVec bs) = (length bs = w)"
| "fitsType ty v = False"


section \<open>Case packer\<close>

text \<open>\<^verbatim>\<open>clampCaseIdx\<close> for a list of \<open>len\<close> cases; it is only called when \<open>len > 0\<close>.\<close>

definition clampCaseIdx :: "nat \<Rightarrow> nat \<Rightarrow> nat" where
  "clampCaseIdx len idx = min idx (len - 1)"

text \<open>
  \<^verbatim>\<open>input instanceof Array ? input[paramIdx] : input\<close>. Reading an array past its end
  gives \<^verbatim>\<open>undefined\<close>, which is no vector element: the model raises a TypeError there.
\<close>

fun inputAt :: "'a Input \<Rightarrow> nat \<Rightarrow> error + 'a Value" where
  "inputAt (Single v) paramIdx = Inr v"
| "inputAt (Many vs) paramIdx =
     (if paramIdx < length vs then Inr (vs ! paramIdx) else Inl TypeError)"

text \<open>The inner loop over \<open>i\<close>: the \<open>vectorWidth\<close> lanes of one parameter of one group.\<close>

definition inputElements ::
  "('a, 'i) Case list \<Rightarrow> nat \<Rightarrow> nat \<Rightarrow> nat \<Rightarrow> error + 'a Value list"
where
  "inputElements cases vectorWidth caseIdx paramIdx =
     mapE (\<lambda>i. inputAt (input (cases ! clampCaseIdx (length cases) (caseIdx + i))) paramIdx)
       [0..<vectorWidth]"

text \<open>The loop over \<open>paramIdx\<close>: one \<^verbatim>\<open>new Vector(inputElements)\<close> for each parameter.\<close>

definition packedInputs ::
  "('a, 'i) Case list \<Rightarrow> nat \<Rightarrow> nat \<Rightarrow> nat \<Rightarrow> error + 'a Value list"
where
  "packedInputs cases nparams vectorWidth caseIdx =
     mapE (\<lambda>paramIdx.
             case inputElements cases vectorWidth caseIdx paramIdx of
               Inl e \<Rightarrow> Inl e
             | Inr es \<Rightarrow> Inr (Vector es))
       [0..<nparams]"

text \<open>The comparators gathered for one group: \<^verbatim>\<open>cmp_impls\<close>.\<close>

definition cmp_impls ::
  "('a Value \<Rightarrow> ('a, 'i) Expectation \<Rightarrow> error + Comparison) \<Rightarrow> ('a, 'i) Case list \<Rightarrow> nat \<Rightarrow> nat
     \<Rightarrow> ('a Value \<Rightarrow> error + Comparison) list"
where
  "cmp_impls compareFn cases vectorWidth caseIdx =
     map (\<lambda>i. compare (toComparator compareFn
                          (expected (cases ! clampCaseIdx (length cases) (caseIdx + i)))))
       [0..<vectorWidth]"

text \<open>
  \<^verbatim>\<open>(got as Vector).elements[i]\<close>. The cast is not checked and neither is the index. A
  vector gives its element \<open>i\<close>, and \<^verbatim>\<open>undefined\<close> past its end. The elements of a matrix
  are its columns: it gives column \<open>i\<close>, a bare array, and \<^verbatim>\<open>undefined\<close> past the last
  column. A scalar, \<^verbatim>\<open>undefined\<close> and a bare array have no property \<^verbatim>\<open>elements\<close>, and
  reading an index of \<^verbatim>\<open>undefined\<close> throws a TypeError.
\<close>

fun gotElement :: "'a Value \<Rightarrow> nat \<Rightarrow> error + 'a Value" where
  "gotElement (Vector es) i = Inr (if i < length es then es ! i else JSUndefined)"
| "gotElement (Matrix cs) i = Inr (if i < length cs then JSArray (cs ! i) else JSUndefined)"
| "gotElement (Scalar k x) i = Inl TypeError"
| "gotElement JSUndefined i = Inl TypeError"
| "gotElement (JSArray vs) i = Inl TypeError"

text \<open>
  The \<^verbatim>\<open>compare\<close> function of the composite comparator. The lanes are visited in order
  \<open>0, ..., vectorWidth - 1\<close>: lane \<open>i\<close> reads element \<open>i\<close> of the result and calls the lane's
  comparator on it, whatever was read; the first read or comparator that throws ends
  the call. \<^verbatim>\<open>matched\<close> starts as \<^verbatim>\<open>true\<close> and is conjoined with every lane's verdict.
\<close>

definition packedCompare ::
  "string \<Rightarrow> nat \<Rightarrow> ('a Value \<Rightarrow> error + Comparison) list \<Rightarrow> 'a Value \<Rightarrow> error + Comparison"
where
  "packedCompare packedResultTypeText vectorWidth impls g =
     (case mapE (\<lambda>i. case gotElement g i of
                       Inl e \<Rightarrow> Inl e
                     | Inr v \<Rightarrow> (impls ! i) v)
             [0..<vectorWidth] of
        Inl e \<Rightarrow> Inl e
      | Inr ds \<Rightarrow>
          Inr \<lparr>matched = foldl (\<lambda>m d. m \<and> matched d) True ds,
               gotText = packedResultTypeText @ ''('' @ join '', '' (map gotText ds) @ '')'',
               expectedText =
                 packedResultTypeText @ ''('' @ join '', '' (map expectedText ds) @ '')''\<rparr>)"

text \<open>The composite comparator of the group that starts at \<open>caseIdx\<close>.\<close>

definition comparators ::
  "('a Value \<Rightarrow> ('a, 'i) Expectation \<Rightarrow> error + Comparison) \<Rightarrow> string
     \<Rightarrow> ('a, 'i) Case list \<Rightarrow> nat \<Rightarrow> nat \<Rightarrow> 'a Comparator"
where
  "comparators compareFn packedResultTypeText cases vectorWidth caseIdx =
     \<lparr>compare = packedCompare packedResultTypeText vectorWidth
                  (cmp_impls compareFn cases vectorWidth caseIdx),
      kind = ''packed''\<rparr>"

text \<open>The result of \<^verbatim>\<open>packScalarsToVector\<close>.\<close>

record ('a, 'i) Packed =
  packedCases :: "('a, 'i) Case list"
  packedParameterTypes :: "Type list"
  packedResultType :: Type

text \<open>
  The \<^verbatim>\<open>while (caseIdx < cases.length)\<close> loop. \<open>typeText\<close> is \<^verbatim>\<open>Type.toString\<close>, which
  the template literals call; it is not part of the sources and is a parameter.
\<close>

partial_function (option) packLoop ::
  "('a Value \<Rightarrow> ('a, 'i) Expectation \<Rightarrow> error + Comparison) \<Rightarrow> string \<Rightarrow> nat
     \<Rightarrow> ('a, 'i) Case list \<Rightarrow> nat \<Rightarrow> nat \<Rightarrow> ('a, 'i) Case list
     \<Rightarrow> (error + ('a, 'i) Case list) option"
where
  "packLoop compareFn packedResultTypeText nparams cases vectorWidth caseIdx acc =
     (if caseIdx < length cases then
        (case packedInputs cases nparams vectorWidth caseIdx of
           Inl e \<Rightarrow> Some (Inl e)
         | Inr vs \<Rightarrow>
             packLoop compareFn packedResultTypeText nparams cases vectorWidth
               (caseIdx + vectorWidth)
               (acc @ [\<lparr>input = Many vs,
                         expected = ExpComparator
                           (comparators compareFn packedResultTypeText cases vectorWidth
                              caseIdx)\<rparr>]))
      else Some (Inr acc))"

text \<open>The validation loop over the parameter types: the first non-scalar one throws.\<close>

fun isScalarType :: "Type \<Rightarrow> bool" where
  "isScalarType (ScalarType k) = True"
| "isScalarType ty = False"

fun validateParams :: "(Type \<Rightarrow> string) \<Rightarrow> nat \<Rightarrow> Type list \<Rightarrow> error option" where
  "validateParams typeText i [] = None"
| "validateParams typeText i (ty # tys) =
     (if \<not> isScalarType ty then
        Some (Error (''packScalarsToVector() can only be used on scalar parameter types, but the ''
                      @ showNat i @ [CHR 0x27] @ ''th parameter type is a '' @ typeText ty
                      @ [CHR 0x27]))
      else validateParams typeText (i + 1) tys)"

definition packScalarsToVector ::
  "('a Value \<Rightarrow> ('a, 'i) Expectation \<Rightarrow> error + Comparison) \<Rightarrow> (Type \<Rightarrow> string)
     \<Rightarrow> Type list \<Rightarrow> Type \<Rightarrow> ('a, 'i) Case list \<Rightarrow> nat \<Rightarrow> (error + ('a, 'i) Packed) option"
where
  "packScalarsToVector compareFn typeText parameterTypes resultType cases vectorWidth =
     (case validateParams typeText 0 parameterTypes of
        Some e \<Rightarrow> Some (Inl e)
      | None \<Rightarrow>
          if \<not> isScalarType resultType then
            Some (Inl (Error (''packScalarsToVector() can only be used with a scalar return type, but the return type is a ''
                               @ typeText resultType @ [CHR 0x27])))
          else
            (case packLoop compareFn (typeText (VectorType vectorWidth (Type.kind resultType)))
                    (length parameterTypes) cases vectorWidth 0 [] of
               None \<Rightarrow> None
             | Some (Inl e) \<Rightarrow> Some (Inl e)
             | Some (Inr pcs) \<Rightarrow>
                 Some (Inr \<lparr>packedCases = pcs,
                            packedParameterTypes =
                              map (\<lambda>p. VectorType vectorWidth (Type.kind p)) parameterTypes,
                            packedResultType = VectorType vectorWidth (Type.kind resultType)\<rparr>)))"

text \<open>
  Two observations used to state what the packer builds: a case input has a value for
  each of \<open>n\<close> parameters, and lane \<open>i\<close> of parameter \<open>paramIdx\<close> of a packed input.
\<close>

fun inputArityOk :: "nat \<Rightarrow> 'a Input \<Rightarrow> bool" where
  "inputArityOk n (Single v) = True"
| "inputArityOk n (Many vs) = (n \<le> length vs)"

fun lane :: "'a Input \<Rightarrow> nat \<Rightarrow> nat \<Rightarrow> 'a Value option" where
  "lane (Many vs) paramIdx i =
     (if paramIdx < length vs then
        (case vs ! paramIdx of
           Vector es \<Rightarrow> (if i < length es then Some (es ! i) else None)
         | _ \<Rightarrow> None)
      else None)"
| "lane (Single v) paramIdx i = None"

section \<open>Batch executor\<close>

text \<open>
  The device is an external collaborator: the model keeps the calls made to it, in
  order, and hands out fresh handles. A handle is a number; every call that creates an
  object logs the handle it returns. Calls to the device do not throw (a validation
  error of the device is reported later, not raised).
\<close>

datatype 'a devop =
    CreateBuffer nat nat
  | MakeBufferWithContents nat "(nat \<times> 'a Value) list" nat bool
  | CreateShaderModule nat string
  | CreateComputePipeline nat nat
  | CreateBindGroup nat nat "nat list"
  | CreateCommandEncoder
  | BeginComputePass
  | SetPipeline nat
  | SetBindGroup nat nat
  | DispatchWorkgroups nat
  | EndPass
  | Finish
  | QueueSubmit
  | Heartbeat
  | ExpectGPUBufferValuesPassCheck nat nat
  | OnSubmittedWorkDone

text \<open>
  The state a run acts on: the next free handle, the log of device calls, and the
  pipeline cache of the run, a map from shader source to pipeline handle.
\<close>

record 'a world =
  nextId :: nat
  ops :: "'a devop list"
  pipelineCache :: "string \<Rightarrow> nat option"

definition emit :: "'a devop \<Rightarrow> 'a world \<Rightarrow> 'a world" where
  "emit opn w = w\<lparr>ops := ops w @ [opn]\<rparr>"

definition alloc :: "(nat \<Rightarrow> 'a devop) \<Rightarrow> 'a world \<Rightarrow> nat \<times> 'a world" where
  "alloc mk w = (nextId w, w\<lparr>nextId := nextId w + 1, ops := ops w @ [mk (nextId w)]\<rparr>)"

text \<open>
  \<^verbatim>\<open>getOrCreate\<close>: the value stored under the key if there is one, else the value that
  \<open>create\<close> builds, stored under the key. \<open>create\<close> acts on the state \<open>'s\<close>.
\<close>

definition getOrCreate ::
  "('k \<Rightarrow> 'v option) \<Rightarrow> 'k \<Rightarrow> ('s \<Rightarrow> 'v \<times> 's) \<Rightarrow> 's \<Rightarrow> 'v \<times> ('k \<Rightarrow> 'v option) \<times> 's"
where
  "getOrCreate m key create st =
     (case m key of
        Some existing \<Rightarrow> (existing, m, st)
      | None \<Rightarrow> (case create st of (v, st') \<Rightarrow> (v, m(key \<mapsto> v), st')))"

text \<open>
  The check at the head of \<^verbatim>\<open>buildPipeline\<close>: the types of the inputs of every case are
  the parameter types. \<open>typeOf\<close> is the field \<^verbatim>\<open>type\<close> of a value.
\<close>

fun checkInputTypes ::
  "(Type \<Rightarrow> string) \<Rightarrow> ('a Value \<Rightarrow> Type) \<Rightarrow> Type list \<Rightarrow> ('a, 'i) Case list \<Rightarrow> error option"
where
  "checkInputTypes typeText typeOf parameterTypes [] = None"
| "checkInputTypes typeText typeOf parameterTypes (c # cs) =
     (let inputTypes = mapInput (input c) typeOf in
      if inputTypes \<noteq> parameterTypes then
        Some (Error (''case input types ['' @ join '','' (map typeText inputTypes) @
                     ''] do not match provided runner parameter types ['' @
                     join '','' (map typeText parameterTypes) @ '']''))
      else checkInputTypes typeText typeOf parameterTypes cs)"

text \<open>
  Packing the inputs: the writes \<^verbatim>\<open>copyTo(inputData, offset)\<close> of one case, parameter by
  parameter, and of all cases, case \<open>caseIdx\<close> starting at \<open>caseIdx * caseStride\<close>.
\<close>

fun packParams ::
  "'a Input \<Rightarrow> nat \<Rightarrow> nat \<Rightarrow> Type list \<Rightarrow> error + (nat \<times> 'a Value) list"
where
  "packParams params paramIdx offset [] = Inr []"
| "packParams params paramIdx offset (ty # tys) =
     bindE (inputAt params paramIdx) (\<lambda>v.
     bindE (valueStride ty) (\<lambda>s.
     bindE (packParams params (paramIdx + 1) (offset + s) tys) (\<lambda>rest.
       Inr ((offset, v) # rest))))"

definition packInputData ::
  "Type list \<Rightarrow> nat \<Rightarrow> ('a, 'i) Case list \<Rightarrow> error + (nat \<times> 'a Value) list"
where
  "packInputData parameterTypes caseStride cases =
     bindE (mapE (\<lambda>(caseIdx, c). packParams (input c) 0 (caseIdx * caseStride) parameterTypes)
              (enumerate 0 cases))
       (\<lambda>ws. Inr (concat ws))"

text \<open>The function passed to \<^verbatim>\<open>getOrCreate\<close>: a shader module, then a pipeline.\<close>

definition createPipeline :: "string \<Rightarrow> 'a world \<Rightarrow> nat \<times> 'a world" where
  "createPipeline source w =
     (case alloc (\<lambda>h. CreateShaderModule h source) w of
        (shaderModule, w1) \<Rightarrow> alloc (\<lambda>h. CreateComputePipeline h shaderModule) w1)"

text \<open>
  \<^verbatim>\<open>buildPipeline\<close>. The result is the pipeline and the bind group, or the exception,
  together with the state reached. Only the buffer sources go through the cache.
\<close>

definition buildPipeline ::
  "(Type \<Rightarrow> string) \<Rightarrow> ('a Value \<Rightarrow> Type)
     \<Rightarrow> (Type list \<Rightarrow> Type \<Rightarrow> ('a, 'i) Case list \<Rightarrow> InputSource \<Rightarrow> error + string)
     \<Rightarrow> Type list \<Rightarrow> Type \<Rightarrow> ('a, 'i) Case list \<Rightarrow> InputSource \<Rightarrow> nat \<Rightarrow> 'a world
     \<Rightarrow> (error + nat \<times> nat) \<times> 'a world"
where
  "buildPipeline typeText typeOf shaderBuilder parameterTypes resultType cases inputSource
       outputBuffer w =
     (case checkInputTypes typeText typeOf parameterTypes cases of
        Some e \<Rightarrow> (Inl e, w)
      | None \<Rightarrow>
          (case shaderBuilder parameterTypes resultType cases inputSource of
             Inl e \<Rightarrow> (Inl e, w)
           | Inr source \<Rightarrow>
               if inputSource = Const then
                 (case createPipeline source w of
                    (pipeline, w1) \<Rightarrow>
                      (case alloc (\<lambda>h. CreateBindGroup h pipeline [outputBuffer]) w1 of
                         (bindGroup, w2) \<Rightarrow> (Inr (pipeline, bindGroup), w2)))
               else
                 (case valueStrides parameterTypes of
                    Inl e \<Rightarrow> (Inl e, w)
                  | Inr caseStride \<Rightarrow>
                      (case packInputData parameterTypes caseStride cases of
                         Inl e \<Rightarrow> (Inl e, w)
                       | Inr inputData \<Rightarrow>
                           (case getOrCreate (pipelineCache w) source (createPipeline source) w of
                              (pipeline, cache, w1) \<Rightarrow>
                                (case alloc (\<lambda>h. MakeBufferWithContents h inputData
                                                    (length cases * caseStride)
                                                    (inputSource = Uniform))
                                        (w1\<lparr>pipelineCache := cache\<rparr>) of
                                   (inputBuffer, w2) \<Rightarrow>
                                     (case alloc (\<lambda>h. CreateBindGroup h pipeline
                                                         [outputBuffer, inputBuffer]) w2 of
                                        (bindGroup, w3) \<Rightarrow> (Inr (pipeline, bindGroup), w3))))))))"

text \<open>
  \<^verbatim>\<open>submitBatch\<close> up to the \<^verbatim>\<open>return\<close>: the output buffer, the pipeline, one compute pass
  with one dispatch of one workgroup, the heartbeat and the submission. The closure it
  returns is represented by the output buffer and its size.
\<close>

definition submitBatch ::
  "(Type \<Rightarrow> string) \<Rightarrow> ('a Value \<Rightarrow> Type)
     \<Rightarrow> (Type list \<Rightarrow> Type \<Rightarrow> ('a, 'i) Case list \<Rightarrow> InputSource \<Rightarrow> error + string)
     \<Rightarrow> Type list \<Rightarrow> Type \<Rightarrow> ('a, 'i) Case list \<Rightarrow> InputSource \<Rightarrow> 'a world
     \<Rightarrow> (error + nat \<times> nat) \<times> 'a world"
where
  "submitBatch typeText typeOf shaderBuilder parameterTypes resultType cases inputSource w =
     (case valueStride resultType of
        Inl e \<Rightarrow> (Inl e, w)
      | Inr s \<Rightarrow>
          (let outputBufferSize = length cases * s in
           case alloc (\<lambda>h. CreateBuffer h outputBufferSize) w of
             (outputBuffer, w1) \<Rightarrow>
               (case buildPipeline typeText typeOf shaderBuilder parameterTypes resultType cases
                       inputSource outputBuffer w1 of
                  (Inl e, w2) \<Rightarrow> (Inl e, w2)
                | (Inr (pipeline, bindGroup), w2) \<Rightarrow>
                    (Inr (outputBuffer, outputBufferSize),
                     foldl (\<lambda>st opn. emit opn st) w2
                       [CreateCommandEncoder, BeginComputePass, SetPipeline pipeline,
                        SetBindGroup 0 bindGroup, DispatchWorkgroups 1, EndPass, Heartbeat,
                        Finish, QueueSubmit]))))"

text \<open>
  The closure \<^verbatim>\<open>checkBatch\<close>: a heartbeat, then the request that the device read the
  output buffer back and pass its bytes to \<^verbatim>\<open>checkExpectation\<close>.
\<close>

definition checkBatch :: "nat \<times> nat \<Rightarrow> 'a world \<Rightarrow> 'a world" where
  "checkBatch closure w =
     emit (ExpectGPUBufferValuesPassCheck (fst closure) (snd closure)) (emit Heartbeat w)"

text \<open>
  The body of the submission loop after the admission wait: \<^verbatim>\<open>submitBatch\<close>,
  \<^verbatim>\<open>checkBatch()\<close>, and the completion hook on \<^verbatim>\<open>onSubmittedWorkDone()\<close>.
\<close>

definition runStep ::
  "(Type \<Rightarrow> string) \<Rightarrow> ('a Value \<Rightarrow> Type)
     \<Rightarrow> (Type list \<Rightarrow> Type \<Rightarrow> ('a, 'i) Case list \<Rightarrow> InputSource \<Rightarrow> error + string)
     \<Rightarrow> Type list \<Rightarrow> Type \<Rightarrow> InputSource \<Rightarrow> ('a, 'i) Case list \<Rightarrow> 'a world \<Rightarrow> error + 'a world"
where
  "runStep typeText typeOf shaderBuilder parameterTypes resultType inputSource batchCases w =
     (case submitBatch typeText typeOf shaderBuilder parameterTypes resultType batchCases
             inputSource w of
        (Inl e, w1) \<Rightarrow> Inl e
      | (Inr closure, w1) \<Rightarrow> Inr (emit OnSubmittedWorkDone (checkBatch closure w1)))"

text \<open>
  \<^verbatim>\<open>run\<close>: the optional packing, a new pipeline cache, then the batches. \<^verbatim>\<open>Config\<close> is
  the input source and the optional vector width.
\<close>

record Config =
  inputSource :: InputSource
  vectorize :: "nat option"

definition run ::
  "Limits \<Rightarrow> ('a Value \<Rightarrow> ('a, 'i) Expectation \<Rightarrow> error + Comparison) \<Rightarrow> (Type \<Rightarrow> string)
     \<Rightarrow> ('a Value \<Rightarrow> Type)
     \<Rightarrow> (Type list \<Rightarrow> Type \<Rightarrow> ('a, 'i) Case list \<Rightarrow> InputSource \<Rightarrow> error + string)
     \<Rightarrow> Type list \<Rightarrow> Type \<Rightarrow> Config \<Rightarrow> ('a, 'i) Case list \<Rightarrow> 'a world
     \<Rightarrow> (error + 'a world \<times> ('a, 'i) Case list list) option"
where
  "run lim compareFn typeText typeOf shaderBuilder parameterTypes resultType cfg cases w =
     (case vectorize cfg of
        None \<Rightarrow>
          runBatches lim
            (runStep typeText typeOf shaderBuilder parameterTypes resultType (inputSource cfg))
            parameterTypes (inputSource cfg) cases (w\<lparr>pipelineCache := Map.empty\<rparr>)
      | Some vectorWidth \<Rightarrow>
          (case packScalarsToVector compareFn typeText parameterTypes resultType cases
                  vectorWidth of
             None \<Rightarrow> None
           | Some (Inl e) \<Rightarrow> Some (Inl e)
           | Some (Inr p) \<Rightarrow>
               runBatches lim
                 (runStep typeText typeOf shaderBuilder (packedParameterTypes p)
                    (packedResultType p) (inputSource cfg))
                 (packedParameterTypes p) (inputSource cfg) (packedCases p)
                 (w\<lparr>pipelineCache := Map.empty\<rparr>)))"

text \<open>
  Observations on the log: the pipelines set for dispatch, in order (one per batch),
  the pipelines created, and the number of dispatches.
\<close>

fun pipelinesUsed :: "'a devop list \<Rightarrow> nat list" where
  "pipelinesUsed [] = []"
| "pipelinesUsed (SetPipeline p # rest) = p # pipelinesUsed rest"
| "pipelinesUsed (opn # rest) = pipelinesUsed rest"

fun pipelinesCreated :: "'a devop list \<Rightarrow> nat list" where
  "pipelinesCreated [] = []"
| "pipelinesCreated (CreateComputePipeline p m # rest) = p # pipelinesCreated rest"
| "pipelinesCreated (opn # rest) = pipelinesCreated rest"

fun dispatches :: "'a devop list \<Rightarrow> nat" where
  "dispatches [] = 0"
| "dispatches (DispatchWorkgroups n # rest) = Suc (dispatches rest)"
| "dispatches (opn # rest) = dispatches rest"

text \<open>
  A fresh state, and the type of a value with a natural number as payload. The two
  irregular values are never the input of a case; the function is total on them.
\<close>

definition freshWorld :: "'a world" where
  "freshWorld = \<lparr>nextId = 0, ops = [], pipelineCache = Map.empty\<rparr>"

fun valueType :: "nat Value \<Rightarrow> Type" where
  "valueType (Scalar k n) = ScalarType k"
| "valueType (Vector es) = VectorType (length es) (case es of Scalar k n # rest \<Rightarrow> k | _ \<Rightarrow> Bool)"
| "valueType (Matrix cs) = MatrixType (length cs) (length (hd cs)) F32"
| "valueType JSUndefined = ScalarType Bool"
| "valueType (JSArray vs) = ScalarType Bool"


section \<open>Sample collaborators\<close>

text \<open>
  The theorems below take the functions of \<^verbatim>\<open>util/conversion.js\<close> and \<^verbatim>\<open>util/compare.js\<close>
  as parameters. To run the model on concrete inputs, here are a rendering of type
  names in the WGSL manner and a comparison that matches an expected value exactly.
\<close>

fun kindName :: "ScalarKind \<Rightarrow> string" where
  "kindName Bool = ''bool''"
| "kindName I32 = ''i32''"
| "kindName U32 = ''u32''"
| "kindName F32 = ''f32''"
| "kindName F16 = ''f16''"
| "kindName AbstractFloat = ''abstract-float''"

fun typeName :: "Type \<Rightarrow> string" where
  "typeName (ScalarType k) = kindName k"
| "typeName (VectorType w k) = ''vec'' @ showNat w @ ''<'' @ kindName k @ ''>''"
| "typeName (MatrixType c r k) =
     ''mat'' @ showNat c @ ''x'' @ showNat r @ ''<'' @ kindName k @ ''>''"

text \<open>A rendering of values with a natural number as payload, and a reader of an
  output buffer given as the list of its decoded 16-byte slots.\<close>

fun valueName :: "nat Value \<Rightarrow> string" where
  "valueName (Scalar k n) = showNat n"
| "valueName (Vector es) = ''vec('' @ join '', '' (map valueName es) @ '')''"
| "valueName (Matrix cs) = ''mat''"
| "valueName JSUndefined = ''undefined''"
| "valueName (JSArray vs) = join '','' (map valueName vs)"

definition readSlot :: "Type \<Rightarrow> 'a Value list \<Rightarrow> nat \<Rightarrow> 'a Value" where
  "readSlot ty slots offset = slots ! (offset div 16)"

text \<open>An expression builder for a unary operator, here negation.\<close>

definition negation :: "string list \<Rightarrow> string" where
  "negation args = ''-('' @ textAt args 0 @ '')''"

definition exactMatch :: "'a Value \<Rightarrow> ('a, 'i) Expectation \<Rightarrow> error + Comparison" where
  "exactMatch g e =
     Inr \<lparr>matched = (e = ExpValue g), gotText = ''got'', expectedText = ''want''\<rparr>"

text \<open>
  A comparator that a case can carry, written for scalar results: a scalar matches
  when its payload is at most \<open>n\<close>; on anything else the comparator throws.
\<close>

definition notAbove :: "nat \<Rightarrow> nat Comparator" where
  "notAbove n =
     \<lparr>compare = (\<lambda>g. case g of
                        Scalar k x \<Rightarrow>
                          Inr \<lparr>matched = (x \<le> n), gotText = ''value'', expectedText = ''bound''\<rparr>
                      | _ \<Rightarrow> Inl TypeError),
      kind = ''bound''\<rparr>"


section \<open>Properties of the layout calculator and of batch partitioning\<close>

lemma valueStride_pos: "valueStride ty = Inr s \<Longrightarrow> 16 \<le> s"
  by (cases ty) (auto split: if_splits)

lemma foldl_add_sum: "foldl (\<lambda>sum c. sum + c) (a::nat) ss = a + sum_list ss"
  by (induction ss arbitrary: a) (simp_all add: add.assoc)

lemma valueStrides_pos: "valueStrides tys = Inr s \<Longrightarrow> 16 \<le> s"
proof (cases tys)
  case Nil
  assume "valueStrides tys = Inr s"
  with Nil show ?thesis by (simp add: valueStrides_def)
next
  case (Cons t ts)
  assume h: "valueStrides tys = Inr s"
  from h Cons obtain a ss where a: "valueStride t = Inr a" and s: "s = a + sum_list ss"
    by (auto simp: valueStrides_def foldl_add_sum split: sum.splits list.splits)
  from valueStride_pos[OF a] s show ?thesis by simp
qed

lemma casesPerBatch_buffer:
  "src \<noteq> Const \<Longrightarrow> valueStrides pts = Inr s \<Longrightarrow>
     casesPerBatch lim src pts = Inr (applicableLimit lim src div s)"
  by (cases src) (simp_all add: casesPerBatch_def applicableLimit_def)

lemma casesPerBatch_buffer_inv:
  "src \<noteq> Const \<Longrightarrow> casesPerBatch lim src pts = Inr cpb \<Longrightarrow>
     \<exists>s. valueStrides pts = Inr s \<and> cpb = applicableLimit lim src div s"
  by (cases src) (auto simp add: casesPerBatch_def applicableLimit_def split: sum.splits)

lemma ceil_step:
  assumes "0 < (c::nat)" "0 < n"
  shows "(n + c - 1) div c = Suc ((n - c + c - 1) div c)"
proof -
  have step: "(a + c) div c = Suc (a div c)" for a using assms(1) by (simp add: div_add_self2)
  show ?thesis
  proof (cases "n \<le> c")
    case True
    define m where "m = n - 1"
    have e1: "n + c - 1 = m + c" and e2: "n - c + c - 1 = c - 1" and lt: "m < c"
      using True assms by (auto simp: m_def)
    have "m div c = 0" "(c - 1) div c = 0" using lt assms(1) by auto
    then show ?thesis unfolding e1 e2 step by simp
  next
    case False
    define a where "a = n - c + c - 1"
    have e: "n + c - 1 = a + c" using False assms by (auto simp: a_def)
    show ?thesis unfolding e step a_def[symmetric] ..
  qed
qed

lemma submitLoop_returns:
  "0 < cpb \<Longrightarrow> \<exists>r. submitLoop submit cpb cases i st done = Some r"
proof (induction "length cases - i" arbitrary: i st "done" rule: less_induct)
  case less
  show ?case
  proof (cases "i < length cases")
    case False
    then show ?thesis by (subst submitLoop.simps) simp
  next
    case True
    let ?b = "slice cases i (min (i + cpb) (length cases))"
    show ?thesis
    proof (cases "submit ?b st")
      case (Inl e)
      with True show ?thesis by (subst submitLoop.simps) (simp add: Let_def)
    next
      case (Inr st')
      from True less.prems have "length cases - (i + cpb) < length cases - i" by arith
      from less.hyps[OF this less.prems, of st' "done @ [?b]"]
      obtain r where "submitLoop submit cpb cases (i + cpb) st' (done @ [?b]) = Some r" by blast
      with True Inr show ?thesis by (subst submitLoop.simps) (simp add: Let_def)
    qed
  qed
qed

lemma slice_step:
  "i < length cases \<Longrightarrow> 0 < cpb \<Longrightarrow>
     slice cases i (min (i + cpb) (length cases)) = take cpb (drop i cases)"
  by (auto simp: slice_def min_def)

lemma submitLoop_result:
  "0 < cpb \<Longrightarrow> submitLoop submit cpb cases i st done = Some (Inr (st', bs)) \<Longrightarrow>
     \<exists>new. bs = done @ new \<and> concat new = drop i cases \<and>
       (\<forall>b \<in> set new. b \<noteq> [] \<and> length b \<le> cpb) \<and>
       length new = (length cases - i + cpb - 1) div cpb"
proof (induction "length cases - i" arbitrary: i st "done" rule: less_induct)
  case less
  show ?case
  proof (cases "i < length cases")
    case False
    with less.prems have "bs = done" by (subst (asm) submitLoop.simps) simp
    with False less.prems(1) show ?thesis by simp
  next
    case True
    let ?b = "slice cases i (min (i + cpb) (length cases))"
    have b: "?b = take cpb (drop i cases)" using True less.prems(1) by (rule slice_step)
    from less.prems(2) True obtain st1 where
      s1: "submit ?b st = Inr st1" and
      rec: "submitLoop submit cpb cases (i + cpb) st1 (done @ [?b]) = Some (Inr (st', bs))"
      by (subst (asm) submitLoop.simps) (auto simp: Let_def split: sum.splits)
    from True less.prems have "length cases - (i + cpb) < length cases - i" by arith
    from less.hyps[OF this less.prems(1) rec]
    obtain new where new: "bs = (done @ [?b]) @ new" "concat new = drop (i + cpb) cases"
      "\<forall>b \<in> set new. b \<noteq> [] \<and> length b \<le> cpb"
      "length new = (length cases - (i + cpb) + cpb - 1) div cpb" by blast
    have c: "concat (?b # new) = drop i cases"
    proof -
      have "take cpb (drop i cases) @ drop cpb (drop i cases) = drop i cases"
        by (rule append_take_drop_id)
      moreover have "drop cpb (drop i cases) = drop (i + cpb) cases"
        by (simp add: add.commute)
      ultimately show ?thesis using new(2) b by simp
    qed
    have nb: "?b \<noteq> [] \<and> length ?b \<le> cpb" using True less.prems(1) b by simp
    have l: "length (?b # new) = (length cases - i + cpb - 1) div cpb"
      using ceil_step[of cpb "length cases - i"] True less.prems(1) new(4) by simp
    show ?thesis
      apply (rule exI[of _ "?b # new"])
      using new(1,3) c nb l by auto
  qed
qed

lemma submitLoop_ok:
  assumes "0 < cpb" "\<forall>b s. \<exists>s'. submit b s = Inr s'"
  shows "\<exists>st' bs. submitLoop submit cpb cases i st done = Some (Inr (st', bs))"
  using assms(1)
proof (induction "length cases - i" arbitrary: i st "done" rule: less_induct)
  case less
  show ?case
  proof (cases "i < length cases")
    case False
    then show ?thesis by (subst submitLoop.simps) simp
  next
    case True
    let ?b = "slice cases i (min (i + cpb) (length cases))"
    from assms(2) obtain st1 where s1: "submit ?b st = Inr st1" by blast
    from True less.prems have "length cases - (i + cpb) < length cases - i" by arith
    from less.hyps[OF this less.prems, of st1 "done @ [?b]"]
    show ?thesis using True s1 by (subst submitLoop.simps) (simp add: Let_def)
  qed
qed

lemma submitLoop_stuck_aux:
  assumes "submitLoop sb cpb cs j s d = Some y"
  shows "\<not> ((\<forall>s. \<exists>s'. sb [] s = Inr s') \<and> cpb = 0 \<and> j < length cs)"
  apply (rule submitLoop.raw_induct[where P = "\<lambda>sb cpb cs j s d y. \<not> ((\<forall>s. \<exists>s'. sb [] s = Inr s') \<and> cpb = 0 \<and> j < length cs)", OF _ assms])
  subgoal premises prems for f sb cpb cs j s d y
  proof
    assume a: "(\<forall>s. \<exists>s'. sb [] s = Inr s') \<and> cpb = 0 \<and> j < length cs"
    then have e: "slice cs j (min (j + cpb) (length cs)) = []" by (simp add: slice_def)
    from a obtain s' where "sb [] s = Inr s'" by blast
    with prems(2) a e have "f sb cpb cs (j + cpb) s' (d @ [[]]) = Some y" by (simp add: Let_def)
    from prems(1)[OF this] a show False by simp
  qed
  done

lemma submitLoop_stuck:
  assumes ok: "\<forall>s. \<exists>s'. submit [] s = Inr s'" and i: "i < length cases"
  shows "submitLoop submit 0 cases i st done = None"
  using submitLoop_stuck_aux[of submit 0 cases i st "done"] ok i
  by (cases "submitLoop submit 0 cases i st done") auto

lemma submitLoop_zero_aux:
  assumes "submitLoop sb cpb cs j s d = Some y"
  shows "\<not> (cpb = 0 \<and> j < length cs \<and> (\<exists>st' bs. y = Inr (st', bs)))"
  apply (rule submitLoop.raw_induct[where P = "\<lambda>sb cpb cs j s d y. \<not> (cpb = 0 \<and> j < length cs \<and> (\<exists>st' bs. y = Inr (st', bs)))", OF _ assms])
  subgoal premises prems for f sb cpb cs j s d y
  proof
    assume a: "cpb = 0 \<and> j < length cs \<and> (\<exists>st' bs. y = Inr (st', bs))"
    then have e: "slice cs j (min (j + cpb) (length cs)) = []" by (simp add: slice_def)
    show False
    proof (cases "sb [] s")
      case (Inl e')
      with prems(2) a e have "y = Inl e'" by (simp add: Let_def)
      with a show False by auto
    next
      case (Inr s')
      with prems(2) a e have "f sb cpb cs (j + cpb) s' (d @ [[]]) = Some y" by (simp add: Let_def)
      from prems(1)[OF this] a show False by simp
    qed
  qed
  done

lemma submitLoop_zero_no_result:
  "i < length cases \<Longrightarrow> submitLoop submit 0 cases i st d \<noteq> Some (Inr (st', bs))"
  using submitLoop_zero_aux[of submit 0 cases i st d "Inr (st', bs)"] by auto

lemma submitLoop_zero_throws:
  "i < length cases \<Longrightarrow> submit [] st = Inl e \<Longrightarrow>
     submitLoop submit 0 cases i st d = Some (Inl e)"
  by (subst submitLoop.simps) (simp add: slice_def Let_def)

text \<open>
  Claim C1, as amended. \<^verbatim>\<open>casesPerBatch\<close> divides the limit by the stride of the
  parameters alone, so the bound it gives is on the input buffer. Whenever the computed
  \<^verbatim>\<open>casesPerBatch\<close> is at least 1, the submission loop returns; if it returns normally,
  the batches concatenated in submission order are the case list, every batch is
  non-empty and holds at most \<^verbatim>\<open>casesPerBatch\<close> cases (32 in const mode), and in the buffer
  modes the input bytes of every batch, \<open>length b * valueStrides parameterTypes\<close>, are at
  most the limit of the input source (\<open>min 2048 maxUniformBufferBindingSize\<close> for a
  uniform buffer, \<open>maxStorageBufferBindingSize\<close> for a storage buffer). It returns
  normally when no submission throws. Nothing is promised about the output bytes.
\<close>

theorem batches_fit_input_limit:
  assumes cpb: "casesPerBatch lim src parameterTypes = Inr cpb" and pos: "1 \<le> cpb"
  shows "\<exists>r. runBatches lim submit parameterTypes src cases st = Some r \<and>
           (\<forall>st' bs. r = Inr (st', bs) \<longrightarrow>
              concat bs = cases \<and>
              (\<forall>b \<in> set bs. b \<noteq> [] \<and> length b \<le> cpb \<and>
                 (src = Const \<longrightarrow> length b \<le> 32) \<and>
                 (src \<noteq> Const \<longrightarrow>
                    (\<exists>n. inputBytes parameterTypes (length b) = Inr n \<and>
                         n \<le> applicableLimit lim src)))) \<and>
           ((\<forall>b s. \<exists>s'. submit b s = Inr s') \<longrightarrow> (\<exists>st' bs. r = Inr (st', bs)))"
proof -
  from pos have p: "0 < cpb" by simp
  from submitLoop_returns[OF p, of submit cases 0 st "[]"] obtain r where
    r: "submitLoop submit cpb cases 0 st [] = Some r" by blast
  have run: "runBatches lim submit parameterTypes src cases st = Some r"
    using cpb r by (simp add: runBatches_def)
  have part: "concat bs = cases \<and>
              (\<forall>b \<in> set bs. b \<noteq> [] \<and> length b \<le> cpb \<and>
                 (src = Const \<longrightarrow> length b \<le> 32) \<and>
                 (src \<noteq> Const \<longrightarrow>
                    (\<exists>n. inputBytes parameterTypes (length b) = Inr n \<and>
                         n \<le> applicableLimit lim src)))" if "r = Inr (st', bs)" for st' bs
  proof -
    from submitLoop_result[OF p r[unfolded that]]
    have c: "concat bs = cases" and b: "\<forall>b \<in> set bs. b \<noteq> [] \<and> length b \<le> cpb" by auto
    have k: "src = Const \<Longrightarrow> cpb = 32" using cpb by (simp add: casesPerBatch_def)
    have lim: "\<exists>n. inputBytes parameterTypes m = Inr n \<and> n \<le> applicableLimit lim src"
      if "src \<noteq> Const" "m \<le> cpb" for m
    proof -
      from casesPerBatch_buffer_inv[OF that(1) cpb] obtain s where
        s: "valueStrides parameterTypes = Inr s" "cpb = applicableLimit lim src div s" by blast
      have "m * s \<le> (applicableLimit lim src div s) * s" using that(2) s(2) by simp
      also have "\<dots> \<le> applicableLimit lim src" by simp
      finally show ?thesis using s(1) by (simp add: inputBytes_def)
    qed
    show ?thesis using c b k lim by auto
  qed
  have ok: "\<exists>st' bs. r = Inr (st', bs)" if "\<forall>b s. \<exists>s'. submit b s = Inr s'"
    using submitLoop_ok[OF p that, of cases 0 st "[]"] r by simp
  show ?thesis using run part ok by blast
qed

theorem batches_fit_input_limit_witness:
  "casesPerBatch \<lparr>maxUniformBufferBindingSize = 48, maxStorageBufferBindingSize = 134217728\<rparr>
           Uniform [ScalarType F32] = Inr 3 \<and> (1::nat) \<le> 3 \<and>
   runBatches \<lparr>maxUniformBufferBindingSize = 48, maxStorageBufferBindingSize = 134217728\<rparr>
           acceptBatch [ScalarType F32] Uniform [1, 2, 3, 4, 5::nat] () = Some (Inr ((), [[1,2,3],[4,5]])) \<and>
   concat [[1,2,3],[4,5::nat]] = [1,2,3,4,5] \<and>
   inputBytes [ScalarType F32] (length [1,2,3::nat]) = Inr 48 \<and>
   (48::nat) \<le> applicableLimit \<lparr>maxUniformBufferBindingSize = 48, maxStorageBufferBindingSize = 134217728\<rparr> Uniform"
  using batches_fit_input_limit[of "\<lparr>maxUniformBufferBindingSize = 48, maxStorageBufferBindingSize = 134217728\<rparr>"
           Uniform "[ScalarType F32]" 3 acceptBatch "[1, 2, 3, 4, 5::nat]" "()"]
  by (simp add: runBatches_def casesPerBatch_def valueStrides_def submitLoop.simps slice_def acceptBatch_def
        inputBytes_def applicableLimit_def)

text \<open>
  Claim C1 as stated fails: with the default storage limit of 128 MiB, one f32 parameter
  and an f32 result, a list of 8388608 cases is submitted as one batch, whose input
  buffer alone fills the limit and whose input and output buffers together are twice
  the limit. The batch does not depend on the result type: were the result a 4x4
  matrix, the output buffer alone would be four times the limit.
\<close>

theorem batch_bytes_exceed_limit_counterexample:
  "runBatches \<lparr>maxUniformBufferBindingSize = 65536, maxStorageBufferBindingSize = 134217728\<rparr>
      acceptBatch [ScalarType F32] StorageR (replicate 8388608 ()) ()
     = Some (Inr ((), [replicate 8388608 ()])) \<and>
   inputBytes [ScalarType F32] (length (replicate 8388608 ())) = Inr 134217728 \<and>
   outputBytes (ScalarType F32) (length (replicate 8388608 ())) = Inr 134217728 \<and>
   \<not> (134217728 + 134217728
        \<le> applicableLimit \<lparr>maxUniformBufferBindingSize = 65536, maxStorageBufferBindingSize = 134217728\<rparr> StorageR) \<and>
   outputBytes (MatrixType 4 4 F32) (length (replicate 8388608 ())) = Inr 536870912 \<and>
   \<not> (536870912
        \<le> applicableLimit \<lparr>maxUniformBufferBindingSize = 65536, maxStorageBufferBindingSize = 134217728\<rparr> StorageR)"
proof -
  have "submitLoop acceptBatch 8388608 (replicate 8388608 ()) 0 () [] = Some (Inr ((), [replicate 8388608 ()]))"
    apply (subst submitLoop.simps)
    apply (simp add: slice_def acceptBatch_def)
    apply (subst submitLoop.simps)
    apply simp
    done
  then show ?thesis
    by (simp add: runBatches_def casesPerBatch_def valueStrides_def inputBytes_def outputBytes_def applicableLimit_def)
qed

text \<open>
  Claim C10, as amended. In a buffer mode, for a non-empty case list and a parameter
  list whose strides are defined: \<^verbatim>\<open>casesPerBatch\<close> is the applicable limit divided by
  \<open>valueStrides parameterTypes\<close>, and it is 0 exactly when the combined stride exceeds the
  limit. When it is at least 1, the loop returns, and when it returns normally it has
  made \<open>ceil (length cases / casesPerBatch)\<close> iterations, one batch each, and the batches
  are the case list. When the stride exceeds the limit, the index never advances and
  every batch is empty: the loop never returns normally; it ends, with the exception,
  if the submission of the first empty batch throws, and \<^verbatim>\<open>run\<close> never returns if
  submitting an empty batch does not throw. So, when submitting an empty batch does not
  throw, the loop returns if and only if \<^verbatim>\<open>casesPerBatch\<close> is at least 1.
\<close>

theorem run_terminates_iff_capacity:
  assumes ne: "cases \<noteq> []" and src: "src \<noteq> Const"
      and s: "valueStrides parameterTypes = Inr s"
  shows "casesPerBatch lim src parameterTypes = Inr (applicableLimit lim src div s) \<and>
         (applicableLimit lim src div s = 0 \<longleftrightarrow> applicableLimit lim src < s) \<and>
         (1 \<le> applicableLimit lim src div s \<longrightarrow>
            (\<exists>r. runBatches lim submit parameterTypes src cases st = Some r \<and>
               (\<forall>st' bs. r = Inr (st', bs) \<longrightarrow>
                  length bs = (length cases + applicableLimit lim src div s - 1)
                                div (applicableLimit lim src div s) \<and>
                  concat bs = cases))) \<and>
         (applicableLimit lim src < s \<longrightarrow>
            (\<forall>st' bs. runBatches lim submit parameterTypes src cases st \<noteq> Some (Inr (st', bs))) \<and>
            (\<forall>e. submit [] st = Inl e \<longrightarrow>
               runBatches lim submit parameterTypes src cases st = Some (Inl e)) \<and>
            ((\<forall>st. \<exists>st'. submit [] st = Inr st') \<longrightarrow>
               runBatches lim submit parameterTypes src cases st = None)) \<and>
         ((\<forall>st. \<exists>st'. submit [] st = Inr st') \<longrightarrow>
            ((\<exists>r. runBatches lim submit parameterTypes src cases st = Some r)
               \<longleftrightarrow> 1 \<le> applicableLimit lim src div s))"
proof -
  let ?cpb = "applicableLimit lim src div s"
  have cpb: "casesPerBatch lim src parameterTypes = Inr ?cpb"
    using src s by (rule casesPerBatch_buffer)
  have run: "runBatches lim submit parameterTypes src cases st = submitLoop submit ?cpb cases 0 st []"
    using cpb by (simp add: runBatches_def)
  have spos: "0 < s" using valueStrides_pos[OF s] by simp
  have z: "?cpb = 0 \<longleftrightarrow> applicableLimit lim src < s" using spos by (simp add: div_eq_0_iff)
  from ne have len: "0 < length cases" by simp
  have ret: "\<exists>r. runBatches lim submit parameterTypes src cases st = Some r \<and>
               (\<forall>st' bs. r = Inr (st', bs) \<longrightarrow>
                  length bs = (length cases + ?cpb - 1) div ?cpb \<and> concat bs = cases)"
    if "1 \<le> ?cpb"
  proof -
    from that have p: "0 < ?cpb" by simp
    from submitLoop_returns[OF p, of submit cases 0 st "[]"] obtain r where
      r: "submitLoop submit ?cpb cases 0 st [] = Some r" by blast
    have "length bs = (length cases + ?cpb - 1) div ?cpb \<and> concat bs = cases"
      if "r = Inr (st', bs)" for st' bs
      using submitLoop_result[OF p r[unfolded that]] by auto
    with r run show ?thesis by simp
  qed
  have stuck: "runBatches lim submit parameterTypes src cases st = None"
    if "?cpb = 0" and ok: "\<forall>st. \<exists>st'. submit [] st = Inr st'"
  proof -
    from ok len have "submitLoop submit 0 cases 0 st [] = None" by (rule submitLoop_stuck)
    with run that(1) show ?thesis by simp
  qed
  have nores: "runBatches lim submit parameterTypes src cases st \<noteq> Some (Inr (st', bs))"
    if "?cpb = 0" for st' bs
    using submitLoop_zero_no_result[where i = 0 and cases = cases and submit = submit and st = st
            and d = "[]" and st' = st' and bs = bs, OF len] run that by simp
  have thr: "runBatches lim submit parameterTypes src cases st = Some (Inl e)"
    if "?cpb = 0" "submit [] st = Inl e" for e
    using submitLoop_zero_throws[where i = 0 and cases = cases and submit = submit and st = st
            and e = e and d = "[]", OF len that(2)] run that(1) by simp
  have iff: "(\<exists>r. runBatches lim submit parameterTypes src cases st = Some r) \<longleftrightarrow> 1 \<le> ?cpb"
    if ok: "\<forall>st. \<exists>st'. submit [] st = Inr st'"
  proof
    assume "\<exists>r. runBatches lim submit parameterTypes src cases st = Some r"
    then show "1 \<le> ?cpb" using stuck[OF _ ok] by (cases "?cpb = 0") auto
  next
    assume "1 \<le> ?cpb"
    then show "\<exists>r. runBatches lim submit parameterTypes src cases st = Some r"
      using ret by blast
  qed
  have low: "(\<forall>st' bs. runBatches lim submit parameterTypes src cases st \<noteq> Some (Inr (st', bs))) \<and>
            (\<forall>e. submit [] st = Inl e \<longrightarrow>
               runBatches lim submit parameterTypes src cases st = Some (Inl e)) \<and>
            ((\<forall>st. \<exists>st'. submit [] st = Inr st') \<longrightarrow>
               runBatches lim submit parameterTypes src cases st = None)"
    if "applicableLimit lim src < s"
  proof -
    from that z have c0: "?cpb = 0" by simp
    show ?thesis using nores[OF c0] thr[OF c0] stuck[OF c0] by blast
  qed
  show ?thesis using cpb z ret low iff by blast
qed


section \<open>Properties of the case packer\<close>

lemma mapE_total:
  "(\<And>x. x \<in> set xs \<Longrightarrow> f x = Inr (g x)) \<Longrightarrow> mapE f xs = Inr (map g xs)"
  by (induction xs) auto

lemma mapE_Inr_length: "mapE f xs = Inr ys \<Longrightarrow> length ys = length xs"
  by (induction xs arbitrary: ys) (auto split: sum.splits)

lemma mapE_Inr_nth:
  "mapE f xs = Inr ys \<Longrightarrow> i < length xs \<Longrightarrow> f (xs ! i) = Inr (ys ! i)"
proof (induction xs arbitrary: ys i)
  case Nil
  then show ?case by simp
next
  case (Cons x xs)
  then show ?case by (cases i) (auto split: sum.splits)
qed

lemma inputArityOk_iff:
  "inputArityOk n inp \<longleftrightarrow> (\<forall>vs. inp = Many vs \<longrightarrow> n \<le> length vs)"
  by (cases inp) auto

lemma inputAt_ok:
  "inputArityOk n inp \<Longrightarrow> p < n \<Longrightarrow>
     inputAt inp p = Inr (case inp of Single v \<Rightarrow> v | Many vs \<Rightarrow> vs ! p)"
  by (cases inp) auto

lemma clamp_lt: "0 < len \<Longrightarrow> clampCaseIdx len idx < len"
  unfolding clampCaseIdx_def by arith

lemma inputElements_ok:
  assumes "cases \<noteq> []" "\<forall>c \<in> set cases. inputArityOk n (input c)" "p < n"
  shows "inputElements cases W caseIdx p =
           Inr (map (\<lambda>i. case input (cases ! min (caseIdx + i) (length cases - 1)) of
                            Single v \<Rightarrow> v
                          | Many vs \<Rightarrow> vs ! p) [0..<W])"
proof -
  have "inputAt (input (cases ! clampCaseIdx (length cases) (caseIdx + i))) p =
          Inr (case input (cases ! min (caseIdx + i) (length cases - 1)) of
                 Single v \<Rightarrow> v
               | Many vs \<Rightarrow> vs ! p)" for i
  proof -
    have "clampCaseIdx (length cases) (caseIdx + i) < length cases"
      using assms(1) by (simp add: clamp_lt)
    then have "cases ! clampCaseIdx (length cases) (caseIdx + i) \<in> set cases" by simp
    with assms(2) have "inputArityOk n (input (cases ! clampCaseIdx (length cases) (caseIdx + i)))"
      by blast
    from inputAt_ok[OF this assms(3)] show ?thesis by (simp add: clampCaseIdx_def)
  qed
  then show ?thesis unfolding inputElements_def by (intro mapE_total)
qed

lemma packedInputs_ok:
  assumes "cases \<noteq> []" "\<forall>c \<in> set cases. inputArityOk n (input c)"
  shows "packedInputs cases n W caseIdx =
           Inr (map (\<lambda>p. Vector (map (\<lambda>i. case input (cases ! min (caseIdx + i) (length cases - 1)) of
                                             Single v \<Rightarrow> v
                                           | Many vs \<Rightarrow> vs ! p) [0..<W])) [0..<n])"
  unfolding packedInputs_def
  by (rule mapE_total) (simp add: inputElements_ok[OF assms])

lemma packLoop_ok:
  assumes W: "0 < W" and ne: "cases \<noteq> []"
      and ar: "\<forall>c \<in> set cases. inputArityOk n (input c)"
  shows "\<exists>new. packLoop cf txt n cases W i acc = Some (Inr (acc @ new)) \<and>
           length new = (length cases - i + W - 1) div W \<and>
           (\<forall>j < length new. \<exists>vs. packedInputs cases n W (i + j * W) = Inr vs \<and>
              new ! j = \<lparr>input = Many vs,
                         expected = ExpComparator (comparators cf txt cases W (i + j * W))\<rparr>)"
proof (induction "length cases - i" arbitrary: i acc rule: less_induct)
  case less
  show ?case
  proof (cases "i < length cases")
    case False
    then have "packLoop cf txt n cases W i acc = Some (Inr acc)"
      by (subst packLoop.simps) simp
    moreover from False W have "(length cases - i + W - 1) div W = 0" by simp
    ultimately show ?thesis by simp
  next
    case True
    from packedInputs_ok[OF ne ar, of W i] obtain vs where
      vs: "packedInputs cases n W i = Inr vs" by blast
    let ?c = "\<lparr>input = Many vs, expected = ExpComparator (comparators cf txt cases W i)\<rparr>"
    from True W have "length cases - (i + W) < length cases - i" by arith
    from less.hyps[OF this, of "acc @ [?c]"] obtain new where
      r: "packLoop cf txt n cases W (i + W) (acc @ [?c]) = Some (Inr ((acc @ [?c]) @ new))" and
      l: "length new = (length cases - (i + W) + W - 1) div W" and
      n: "\<forall>j < length new. \<exists>vs. packedInputs cases n W (i + W + j * W) = Inr vs \<and>
              new ! j = \<lparr>input = Many vs,
                         expected = ExpComparator (comparators cf txt cases W (i + W + j * W))\<rparr>"
      by blast
    have 1: "packLoop cf txt n cases W i acc = Some (Inr (acc @ (?c # new)))"
      using True vs r by (subst packLoop.simps) simp
    have 2: "length (?c # new) = (length cases - i + W - 1) div W"
      using ceil_step[of W "length cases - i"] True W l by simp
    have 3: "\<exists>vs. packedInputs cases n W (i + j * W) = Inr vs \<and>
              (?c # new) ! j = \<lparr>input = Many vs,
                         expected = ExpComparator (comparators cf txt cases W (i + j * W))\<rparr>"
      if "j < length (?c # new)" for j
    proof (cases j)
      case 0
      then show ?thesis using vs by simp
    next
      case (Suc k)
      with that have "k < length new" by simp
      with n have "\<exists>vs. packedInputs cases n W (i + W + k * W) = Inr vs \<and>
              new ! k = \<lparr>input = Many vs,
                         expected = ExpComparator (comparators cf txt cases W (i + W + k * W))\<rparr>"
        by blast
      moreover have "i + W + k * W = i + j * W" using Suc by simp
      ultimately show ?thesis using Suc by simp
    qed
    show ?thesis using 1 2 3 by blast
  qed
qed

lemma validateParams_ok:
  "\<forall>ty \<in> set tys. isScalarType ty \<Longrightarrow> validateParams typeText i tys = None"
  by (induction tys arbitrary: i) auto

lemma validateParams_None:
  "validateParams typeText i tys = None \<Longrightarrow> \<forall>ty \<in> set tys. isScalarType ty"
  by (induction tys arbitrary: i) (auto split: if_splits)

lemma packScalarsToVector_unfold:
  assumes W: "0 < W" and ne: "cases \<noteq> []"
      and ar: "\<forall>c \<in> set cases. inputArityOk (length pts) (input c)"
      and sp: "\<forall>ty \<in> set pts. isScalarType ty" and sr: "isScalarType rt"
  shows "\<exists>pcs. packScalarsToVector cf typeText pts rt cases W =
            Some (Inr \<lparr>packedCases = pcs,
                       packedParameterTypes = map (\<lambda>p. VectorType W (Type.kind p)) pts,
                       packedResultType = VectorType W (Type.kind rt)\<rparr>) \<and>
           length pcs = (length cases + W - 1) div W \<and>
           (\<forall>j < length pcs. \<exists>vs. packedInputs cases (length pts) W (j * W) = Inr vs \<and>
              pcs ! j = \<lparr>input = Many vs,
                         expected = ExpComparator
                           (comparators cf (typeText (VectorType W (Type.kind rt))) cases W (j * W))\<rparr>)"
proof -
  from packLoop_ok[OF W ne ar, of cf "typeText (VectorType W (Type.kind rt))" 0 "[]"]
  obtain pcs where
    r: "packLoop cf (typeText (VectorType W (Type.kind rt))) (length pts) cases W 0 [] = Some (Inr pcs)" and
    l: "length pcs = (length cases + W - 1) div W" and
    n: "\<forall>j < length pcs. \<exists>vs. packedInputs cases (length pts) W (j * W) = Inr vs \<and>
              pcs ! j = \<lparr>input = Many vs,
                         expected = ExpComparator
                           (comparators cf (typeText (VectorType W (Type.kind rt))) cases W (j * W))\<rparr>"
    by auto
  have "packScalarsToVector cf typeText pts rt cases W =
            Some (Inr \<lparr>packedCases = pcs,
                       packedParameterTypes = map (\<lambda>p. VectorType W (Type.kind p)) pts,
                       packedResultType = VectorType W (Type.kind rt)\<rparr>)"
    using validateParams_ok[OF sp] sr r by (simp add: packScalarsToVector_def)
  with l n show ?thesis by blast
qed

lemma packLoop_result:
  assumes W: "0 < W"
  shows "packLoop cf txt n cases W i acc = Some (Inr r) \<Longrightarrow>
         \<exists>new. r = acc @ new \<and>
           (\<forall>j < length new. \<exists>vs. packedInputs cases n W (i + j * W) = Inr vs \<and>
              new ! j = \<lparr>input = Many vs,
                         expected = ExpComparator (comparators cf txt cases W (i + j * W))\<rparr>)"
proof (induction "length cases - i" arbitrary: i acc rule: less_induct)
  case less
  show ?case
  proof (cases "i < length cases")
    case False
    with less.prems have "r = acc" by (subst (asm) packLoop.simps) simp
    then show ?thesis by simp
  next
    case True
    from less.prems True obtain vs where
      vs: "packedInputs cases n W i = Inr vs" and
      rec: "packLoop cf txt n cases W (i + W)
              (acc @ [\<lparr>input = Many vs, expected = ExpComparator (comparators cf txt cases W i)\<rparr>])
            = Some (Inr r)"
      by (subst (asm) packLoop.simps) (auto split: sum.splits)
    let ?c = "\<lparr>input = Many vs, expected = ExpComparator (comparators cf txt cases W i)\<rparr>"
    from True W have "length cases - (i + W) < length cases - i" by arith
    from less.hyps[OF this rec] obtain new where
      r: "r = (acc @ [?c]) @ new" and
      n: "\<forall>j < length new. \<exists>vs. packedInputs cases n W (i + W + j * W) = Inr vs \<and>
              new ! j = \<lparr>input = Many vs,
                         expected = ExpComparator (comparators cf txt cases W (i + W + j * W))\<rparr>"
      by blast
    have 3: "\<exists>vs. packedInputs cases n W (i + j * W) = Inr vs \<and>
              (?c # new) ! j = \<lparr>input = Many vs,
                         expected = ExpComparator (comparators cf txt cases W (i + j * W))\<rparr>"
      if "j < length (?c # new)" for j
    proof (cases j)
      case 0
      then show ?thesis using vs by simp
    next
      case (Suc k)
      with that have "k < length new" by simp
      with n have "\<exists>vs. packedInputs cases n W (i + W + k * W) = Inr vs \<and>
              new ! k = \<lparr>input = Many vs,
                         expected = ExpComparator (comparators cf txt cases W (i + W + k * W))\<rparr>"
        by blast
      moreover have "i + W + k * W = i + j * W" using Suc by simp
      ultimately show ?thesis using Suc by simp
    qed
    from r have "r = acc @ (?c # new)" by simp
    with 3 show ?thesis by blast
  qed
qed

lemma foldl_conj_matched:
  "foldl (\<lambda>m d. m \<and> matched d) b ds = (b \<and> (\<forall>d \<in> set ds. matched d))"
  by (induction ds arbitrary: b) auto

lemma mapE_first_Inl:
  assumes "\<forall>x \<in> set xs. \<exists>d. f x = Inr d" and "f y = Inl e"
  shows "mapE f (xs @ y # ys) = Inl e"
  using assms by (induction xs) (auto split: sum.splits)

lemma first_throw:
  fixes r :: "nat \<Rightarrow> error + 'b"
  assumes "\<not> (\<forall>i < n. \<exists>d. r i = Inr d)"
  shows "\<exists>k e. k < n \<and> r k = Inl e \<and> (\<forall>i < k. \<exists>d. r i = Inr d)"
proof -
  let ?P = "\<lambda>i. i < n \<and> \<not> (\<exists>d. r i = Inr d)"
  from assms have "\<exists>i. ?P i" by blast
  then obtain k where k: "?P k" "\<forall>i < k. \<not> ?P i"
    using exists_least_iff[of ?P] by blast
  from k(1) obtain e where e: "r k = Inl e" by (cases "r k") auto
  have "\<exists>d. r i = Inr d" if "i < k" for i
  proof -
    from that k(1) have "i < n" by simp
    with k(2) that show ?thesis by blast
  qed
  with k(1) e show ?thesis by blast
qed

lemma mapE_upt_first_Inl:
  assumes k: "k < n" and e: "f k = Inl e" and b: "\<forall>i < k. \<exists>d. f i = Inr d"
  shows "mapE f [0..<n] = Inl e"
proof -
  from k have "[0..<n] = [0..<k] @ k # [Suc k..<n]"
    using upt_add_eq_append[of 0 k "n - k"] by (simp add: upt_conv_Cons)
  moreover have "mapE f ([0..<k] @ k # [Suc k..<n]) = Inl e"
    by (rule mapE_first_Inl) (use b e in auto)
  ultimately show ?thesis by simp
qed

lemma packedCompare_lanes:
  assumes lanes: "\<forall>i < W. (impls ! i) (if i < length es then es ! i else JSUndefined) = Inr (d i)"
  shows "packedCompare txt W impls (Vector es) =
           Inr \<lparr>matched = (\<forall>i < W. matched (d i)),
                gotText = txt @ ''('' @ join '', '' (map (\<lambda>i. gotText (d i)) [0..<W]) @ '')'',
                expectedText = txt @ ''('' @ join '', '' (map (\<lambda>i. expectedText (d i)) [0..<W]) @ '')''\<rparr>"
proof -
  have "mapE (\<lambda>i. case gotElement (Vector es) i of Inl e \<Rightarrow> Inl e | Inr v \<Rightarrow> (impls ! i) v)
          [0..<W] = Inr (map d [0..<W])"
    by (rule mapE_total) (use lanes in auto)
  moreover have "(\<forall>x \<in> set (map d [0..<W]). matched x) = (\<forall>i < W. matched (d i))" by auto
  ultimately show ?thesis
    by (simp add: packedCompare_def foldl_conj_matched comp_def)
qed

lemma packedCompare_throws:
  assumes k: "k < W"
      and e: "(impls ! k) (if k < length es then es ! k else JSUndefined) = Inl e"
      and b: "\<forall>i < k. \<exists>d. (impls ! i) (if i < length es then es ! i else JSUndefined) = Inr d"
  shows "packedCompare txt W impls (Vector es) = Inl e"
proof -
  have "mapE (\<lambda>i. case gotElement (Vector es) i of Inl e \<Rightarrow> Inl e | Inr v \<Rightarrow> (impls ! i) v)
          [0..<W] = Inl e"
    by (rule mapE_upt_first_Inl[OF k]) (use e b k in auto)
  then show ?thesis by (simp add: packedCompare_def)
qed

lemma cmp_impls_nth:
  "i < W \<Longrightarrow>
     (cmp_impls compareFn cases W caseIdx ! i) v =
       (let ex = expected (cases ! min (caseIdx + i) (length cases - 1)) in
        case ex of ExpComparator c \<Rightarrow> compare c v | _ \<Rightarrow> compareFn v ex)"
  by (simp add: cmp_impls_def clampCaseIdx_def toComparator_def Let_def
           split: Expectation.splits)


text \<open>
  Claim C4. Let \<^verbatim>\<open>packScalarsToVector\<close> return for a width in \<open>{2, 3, 4}\<close>, and let \<open>g\<close> be
  one of its packed cases. Its expectation is a comparator of kind \<open>packed\<close>. Let \<open>r i\<close>
  be what the unpacked case \<open>min (g * vectorWidth + i) (length cases - 1)\<close> computes for
  element \<open>i\<close> of a result vector (\<^verbatim>\<open>undefined\<close> if the vector is shorter): the comparator
  the case carries applied to the element, or, when the case carries no comparator, the
  function \<^verbatim>\<open>compare\<close> applied to the element and the expectation. This is the comparison
  that \<^verbatim>\<open>checkExpectation\<close> makes for the unpacked case. When every \<open>r i\<close> is a verdict, the
  composite comparator returns: it is matched exactly when all lanes are, and its two
  texts are the packed result type applied to the lanes' texts, joined by a comma in
  lane order. When some lane throws, the composite throws what the first such lane
  throws: the lanes are evaluated in order. So the composite reports a match if and
  only if every lane returns a match.
\<close>

theorem packed_comparator_lanes:
  assumes W: "vectorWidth \<in> {2, 3, 4}"
      and run: "packScalarsToVector compareFn typeText parameterTypes resultType cases vectorWidth
                  = Some (Inr p)"
      and g: "g < length (packedCases p)"
      and lanes: "\<forall>i < vectorWidth.
                    r i = (let ex = expected (cases ! min (g * vectorWidth + i) (length cases - 1));
                               el = (if i < length es then es ! i else JSUndefined) in
                           case ex of
                             ExpComparator c \<Rightarrow> compare c el
                           | _ \<Rightarrow> compareFn el ex)"
  shows "\<exists>cmp. expected (packedCases p ! g) = ExpComparator cmp \<and> kind cmp = ''packed'' \<and>
           packedResultType p = VectorType vectorWidth (Type.kind resultType) \<and>
           ((\<forall>i < vectorWidth. \<exists>d. r i = Inr d) \<longrightarrow>
              compare cmp (Vector es) =
                Inr \<lparr>matched = (\<forall>i < vectorWidth. matched (projr (r i))),
                     gotText = typeText (packedResultType p) @ ''('' @
                       join '', '' (map (\<lambda>i. gotText (projr (r i))) [0..<vectorWidth]) @ '')'',
                     expectedText = typeText (packedResultType p) @ ''('' @
                       join '', '' (map (\<lambda>i. expectedText (projr (r i))) [0..<vectorWidth]) @ '')''\<rparr>) \<and>
           (\<forall>k e. k < vectorWidth \<and> r k = Inl e \<and> (\<forall>i < k. \<exists>d. r i = Inr d) \<longrightarrow>
              compare cmp (Vector es) = Inl e) \<and>
           ((\<exists>res. compare cmp (Vector es) = Inr res \<and> matched res) \<longleftrightarrow>
              (\<forall>i < vectorWidth. \<exists>d. r i = Inr d \<and> matched d))"
proof -
  from W have Wp: "0 < vectorWidth" by auto
  let ?txt = "typeText (VectorType vectorWidth (Type.kind resultType))"
  from run obtain pcs where
    loop: "packLoop compareFn ?txt (length parameterTypes) cases vectorWidth 0 [] = Some (Inr pcs)"
    and p: "p = \<lparr>packedCases = pcs,
                 packedParameterTypes = map (\<lambda>p. VectorType vectorWidth (Type.kind p)) parameterTypes,
                 packedResultType = VectorType vectorWidth (Type.kind resultType)\<rparr>"
    by (auto simp: packScalarsToVector_def split: option.splits if_splits sum.splits)
  from packLoop_result[OF Wp loop] g p
  have e: "expected (pcs ! g) = ExpComparator (comparators compareFn ?txt cases vectorWidth (g * vectorWidth))"
    by auto
  let ?impls = "cmp_impls compareFn cases vectorWidth (g * vectorWidth)"
  let ?cmp = "comparators compareFn ?txt cases vectorWidth (g * vectorWidth)"
  have im: "(?impls ! i) (if i < length es then es ! i else JSUndefined) = r i"
    if "i < vectorWidth" for i
    using that lanes by (simp add: cmp_impls_nth Let_def)
  have ok: "compare ?cmp (Vector es) =
                Inr \<lparr>matched = (\<forall>i < vectorWidth. matched (projr (r i))),
                     gotText = ?txt @ ''('' @
                       join '', '' (map (\<lambda>i. gotText (projr (r i))) [0..<vectorWidth]) @ '')'',
                     expectedText = ?txt @ ''('' @
                       join '', '' (map (\<lambda>i. expectedText (projr (r i))) [0..<vectorWidth]) @ '')''\<rparr>"
    if all: "\<forall>i < vectorWidth. \<exists>d. r i = Inr d"
  proof -
    have "\<forall>i < vectorWidth.
            (?impls ! i) (if i < length es then es ! i else JSUndefined) = Inr (projr (r i))"
      using all im by auto
    from packedCompare_lanes[OF this, of ?txt] show ?thesis
      by (simp add: comparators_def)
  qed
  have throws: "compare ?cmp (Vector es) = Inl e"
    if "k < vectorWidth" "r k = Inl e" "\<forall>i < k. \<exists>d. r i = Inr d" for k e
  proof -
    have "(?impls ! k) (if k < length es then es ! k else JSUndefined) = Inl e"
      using that im by simp
    moreover have "\<forall>i < k. \<exists>d. (?impls ! i) (if i < length es then es ! i else JSUndefined) = Inr d"
      using that im by simp
    ultimately show ?thesis
      using packedCompare_throws[OF that(1), of ?impls es e ?txt] by (simp add: comparators_def)
  qed
  have k: "kind ?cmp = ''packed''" by (simp add: comparators_def)
  have 1: "expected (packedCases p ! g) = ExpComparator ?cmp" using e p by simp
  have 2: "packedResultType p = VectorType vectorWidth (Type.kind resultType)" using p by simp
  have 3: "(\<forall>i < vectorWidth. \<exists>d. r i = Inr d) \<longrightarrow>
              compare ?cmp (Vector es) =
                Inr \<lparr>matched = (\<forall>i < vectorWidth. matched (projr (r i))),
                     gotText = typeText (packedResultType p) @ ''('' @
                       join '', '' (map (\<lambda>i. gotText (projr (r i))) [0..<vectorWidth]) @ '')'',
                     expectedText = typeText (packedResultType p) @ ''('' @
                       join '', '' (map (\<lambda>i. expectedText (projr (r i))) [0..<vectorWidth]) @ '')''\<rparr>"
    using ok unfolding 2 by blast
  have 4: "\<forall>k e. k < vectorWidth \<and> r k = Inl e \<and> (\<forall>i < k. \<exists>d. r i = Inr d) \<longrightarrow>
              compare ?cmp (Vector es) = Inl e"
    using throws by blast
  have 5: "(\<exists>res. compare ?cmp (Vector es) = Inr res \<and> matched res) \<longleftrightarrow>
              (\<forall>i < vectorWidth. \<exists>d. r i = Inr d \<and> matched d)"
  proof
    assume "\<exists>res. compare ?cmp (Vector es) = Inr res \<and> matched res"
    then obtain res where res: "compare ?cmp (Vector es) = Inr res" "matched res" by blast
    have all: "\<forall>i < vectorWidth. \<exists>d. r i = Inr d"
    proof (rule ccontr)
      assume "\<not> (\<forall>i < vectorWidth. \<exists>d. r i = Inr d)"
      from first_throw[OF this] obtain j e where
        "j < vectorWidth" "r j = Inl e" "\<forall>i < j. \<exists>d. r i = Inr d" by blast
      from throws[OF this] res(1) show False by simp
    qed
    from ok[OF all] res have "\<forall>i < vectorWidth. matched (projr (r i))" by simp
    with all show "\<forall>i < vectorWidth. \<exists>d. r i = Inr d \<and> matched d" by fastforce
  next
    assume a: "\<forall>i < vectorWidth. \<exists>d. r i = Inr d \<and> matched d"
    then have all: "\<forall>i < vectorWidth. \<exists>d. r i = Inr d" by blast
    from a have "\<forall>i < vectorWidth. matched (projr (r i))" by fastforce
    with ok[OF all] show "\<exists>res. compare ?cmp (Vector es) = Inr res \<and> matched res" by simp
  qed
  show ?thesis
    apply (rule exI[of _ ?cmp])
    apply (intro conjI)
         apply (rule 1)
        apply (rule k)
       apply (rule 2)
      apply (rule 3)
     apply (rule 4)
    apply (rule 5)
    done
qed

theorem packed_comparator_lanes_witness:
  "(case packScalarsToVector exactMatch typeName [ScalarType F32] (ScalarType F32)
          [\<lparr>input = Single (Scalar F32 (1::nat)), expected = ExpValue (Scalar F32 10) :: (nat, unit) Expectation\<rparr>,
           \<lparr>input = Single (Scalar F32 2), expected = ExpComparator (notAbove 20)\<rparr>,
           \<lparr>input = Single (Scalar F32 3), expected = ExpValue (Scalar F32 30)\<rparr>] 2 of
      Some (Inr p) \<Rightarrow>
        (case expected (packedCases p ! 0) of
           ExpComparator cmp \<Rightarrow>
             kind cmp = ''packed'' \<and>
             compare cmp (Vector [Scalar F32 10, Scalar F32 7]) =
               Inr \<lparr>matched = True, gotText = ''vec2<f32>(got, value)'',
                    expectedText = ''vec2<f32>(want, bound)''\<rparr> \<and>
             compare cmp (Vector [Scalar F32 10, Scalar F32 30]) =
               Inr \<lparr>matched = False, gotText = ''vec2<f32>(got, value)'',
                    expectedText = ''vec2<f32>(want, bound)''\<rparr> \<and>
             compare cmp (Vector [Scalar F32 30, Scalar F32 7]) =
               Inr \<lparr>matched = False, gotText = ''vec2<f32>(got, value)'',
                    expectedText = ''vec2<f32>(want, bound)''\<rparr> \<and>
             compare cmp (Vector [Scalar F32 10]) = Inl TypeError
         | _ \<Rightarrow> False) \<and>
        (case expected (packedCases p ! 1) of
           ExpComparator cmp \<Rightarrow>
             compare cmp (Vector [Scalar F32 30, Scalar F32 30]) =
               Inr \<lparr>matched = True, gotText = ''vec2<f32>(got, got)'',
                    expectedText = ''vec2<f32>(want, want)''\<rparr> \<and>
             compare cmp (Vector [Scalar F32 30]) =
               Inr \<lparr>matched = False, gotText = ''vec2<f32>(got, got)'',
                    expectedText = ''vec2<f32>(want, want)''\<rparr>
         | _ \<Rightarrow> False)
    | _ \<Rightarrow> False)"
proof -
  let ?cs = "[\<lparr>input = Single (Scalar F32 (1::nat)), expected = ExpValue (Scalar F32 10) :: (nat, unit) Expectation\<rparr>,
           \<lparr>input = Single (Scalar F32 2), expected = ExpComparator (notAbove 20)\<rparr>,
           \<lparr>input = Single (Scalar F32 3), expected = ExpValue (Scalar F32 30)\<rparr>]"
  let ?r = "\<lambda>g es i. (let ex = expected (?cs ! min (g * 2 + i) (length ?cs - 1));
                               el = (if i < length es then es ! i else JSUndefined) in
                           case ex of
                             ExpComparator c \<Rightarrow> compare c el
                           | _ \<Rightarrow> exactMatch el ex)"
  have h1: "?cs \<noteq> []" by simp
  have h2: "\<forall>ty \<in> set [ScalarType F32]. isScalarType ty" by simp
  have h3: "isScalarType (ScalarType F32)" by simp
  have h4: "(2::nat) \<in> {2, 3, 4}" by simp
  have h5: "\<forall>c \<in> set ?cs. inputArityOk (length [ScalarType F32]) (input c)" by simp
  from packScalarsToVector_unfold[of 2 ?cs "[ScalarType F32]" "ScalarType F32" exactMatch typeName] h1 h2 h3 h5
  obtain p where
    run: "packScalarsToVector exactMatch typeName [ScalarType F32] (ScalarType F32) ?cs 2 = Some (Inr p)"
    and l: "length (packedCases p) = 2"
    by auto
  have g0: "0 < length (packedCases p)" and g1: "1 < length (packedCases p)" using l by simp_all
  have tn: "typeName (VectorType 2 F32) = ''vec2<f32>''"
    by (simp add: showNat.simps digit_def)
  have u: "[0..<2] = [0, Suc 0]" by (simp add: upt_rec numeral_2_eq_2)
  have all2: "(\<forall>i < 2. P i) \<longleftrightarrow> P 0 \<and> P (Suc 0)" for P :: "nat \<Rightarrow> bool"
    by (auto simp: less_Suc_eq numeral_2_eq_2)
  note ev = all2 u exactMatch_def notAbove_def Let_def
  have T: "\<exists>cmp. expected (packedCases p ! g) = ExpComparator cmp \<and> kind cmp = ''packed'' \<and>
           packedResultType p = VectorType 2 (Type.kind (ScalarType F32)) \<and>
           ((\<forall>i < 2. \<exists>d. ?r g es i = Inr d) \<longrightarrow>
              compare cmp (Vector es) =
                Inr \<lparr>matched = (\<forall>i < 2. matched (projr (?r g es i))),
                     gotText = typeName (packedResultType p) @ ''('' @
                       join '', '' (map (\<lambda>i. gotText (projr (?r g es i))) [0..<2]) @ '')'',
                     expectedText = typeName (packedResultType p) @ ''('' @
                       join '', '' (map (\<lambda>i. expectedText (projr (?r g es i))) [0..<2]) @ '')''\<rparr>) \<and>
           (\<forall>k e. k < 2 \<and> ?r g es k = Inl e \<and> (\<forall>i < k. \<exists>d. ?r g es i = Inr d) \<longrightarrow>
              compare cmp (Vector es) = Inl e)"
    if "g < length (packedCases p)" for g es
  proof -
    have la: "\<forall>i < 2. ?r g es i =
                (let ex = expected (?cs ! min (g * 2 + i) (length ?cs - 1));
                     el = (if i < length es then es ! i else JSUndefined) in
                 case ex of
                   ExpComparator c \<Rightarrow> compare c el
                 | _ \<Rightarrow> exactMatch el ex)"
      by (intro allI impI refl)
    from packed_comparator_lanes[where r = "?r g es" and es = es, OF h4 run that la]
    show ?thesis by blast
  qed
  from T[OF g0, of "[Scalar F32 10, Scalar F32 7]"]
  obtain cmp where
    c: "expected (packedCases p ! 0) = ExpComparator cmp" "kind cmp = ''packed''" and
    rt: "packedResultType p = VectorType 2 F32"
    by auto
  from T[OF g1, of "[Scalar F32 30, Scalar F32 30]"]
  obtain cmp' where
    c': "expected (packedCases p ! 1) = ExpComparator cmp'"
    by auto
  have R: "compare cm (Vector es) =
                Inr \<lparr>matched = (\<forall>i < 2. matched (projr (?r g es i))),
                     gotText = ''vec2<f32>('' @
                       join '', '' (map (\<lambda>i. gotText (projr (?r g es i))) [0..<2]) @ '')'',
                     expectedText = ''vec2<f32>('' @
                       join '', '' (map (\<lambda>i. expectedText (projr (?r g es i))) [0..<2]) @ '')''\<rparr>"
    if "g < length (packedCases p)" "expected (packedCases p ! g) = ExpComparator cm"
       "\<forall>i < 2. \<exists>d. ?r g es i = Inr d" for g cm es
  proof -
    from T[OF that(1), of es] that(2) have
      "(\<forall>i < 2. \<exists>d. ?r g es i = Inr d) \<longrightarrow>
              compare cm (Vector es) =
                Inr \<lparr>matched = (\<forall>i < 2. matched (projr (?r g es i))),
                     gotText = typeName (packedResultType p) @ ''('' @
                       join '', '' (map (\<lambda>i. gotText (projr (?r g es i))) [0..<2]) @ '')'',
                     expectedText = typeName (packedResultType p) @ ''('' @
                       join '', '' (map (\<lambda>i. expectedText (projr (?r g es i))) [0..<2]) @ '')''\<rparr>"
      by auto
    with that(3) show ?thesis unfolding rt tn by simp
  qed
  have a1: "compare cmp (Vector [Scalar F32 10, Scalar F32 7]) =
               Inr \<lparr>matched = True, gotText = ''vec2<f32>(got, value)'',
                    expectedText = ''vec2<f32>(want, bound)''\<rparr>"
    by (subst R[OF g0 c(1)]) (simp_all add: ev)
  have a2: "compare cmp (Vector [Scalar F32 10, Scalar F32 30]) =
               Inr \<lparr>matched = False, gotText = ''vec2<f32>(got, value)'',
                    expectedText = ''vec2<f32>(want, bound)''\<rparr>"
    by (subst R[OF g0 c(1)]) (simp_all add: ev)
  have a3: "compare cmp (Vector [Scalar F32 30, Scalar F32 7]) =
               Inr \<lparr>matched = False, gotText = ''vec2<f32>(got, value)'',
                    expectedText = ''vec2<f32>(want, bound)''\<rparr>"
    by (subst R[OF g0 c(1)]) (simp_all add: ev)
  from T[OF g0, of "[Scalar F32 10]"] c(1)
  have "\<forall>k e. k < 2 \<and> ?r 0 [Scalar F32 10] k = Inl e \<and>
           (\<forall>i < k. \<exists>d. ?r 0 [Scalar F32 10] i = Inr d) \<longrightarrow>
           compare cmp (Vector [Scalar F32 10]) = Inl e"
    by auto
  from this[rule_format, of 1 TypeError]
  have a4: "compare cmp (Vector [Scalar F32 10]) = Inl TypeError"
    by (simp add: ev)
  have b1: "compare cmp' (Vector [Scalar F32 30, Scalar F32 30]) =
               Inr \<lparr>matched = True, gotText = ''vec2<f32>(got, got)'',
                    expectedText = ''vec2<f32>(want, want)''\<rparr>"
    by (subst R[OF g1 c']) (simp_all add: ev)
  have b2: "compare cmp' (Vector [Scalar F32 30]) =
               Inr \<lparr>matched = False, gotText = ''vec2<f32>(got, got)'',
                    expectedText = ''vec2<f32>(want, want)''\<rparr>"
    by (subst R[OF g1 c']) (simp_all add: ev)
  show ?thesis using run c a1 a2 a3 a4 c' b1 b2 by simp
qed

text \<open>
  Claim C5. For a non-empty case list whose parameter types and result type are all
  scalar, whose array inputs have a value for every parameter, and a width in
  \<open>{2, 3, 4}\<close>, \<^verbatim>\<open>packScalarsToVector\<close> returns \<open>ceil (length cases / vectorWidth)\<close> packed
  cases; the parameter types and the result type are the vectors of that width over the
  original scalar kinds; the input of packed case \<open>g\<close> is one vector for each parameter,
  and lane \<open>i\<close> of the vector of parameter \<open>paramIdx\<close> is the value that the original case
  \<open>min (g * vectorWidth + i) (length cases - 1)\<close> has for that parameter (element
  \<open>paramIdx\<close> of an array input, the input itself otherwise); so the lanes of the last
  packed case that lie past the end of the list repeat the values of the last case.
\<close>

theorem packScalarsToVector_shape:
  assumes ne: "cases \<noteq> []"
      and sp: "\<forall>ty \<in> set parameterTypes. isScalarType ty" and sr: "isScalarType resultType"
      and W: "vectorWidth \<in> {2, 3, 4}"
      and ar: "\<forall>c \<in> set cases. \<forall>vs. input c = Many vs \<longrightarrow> length parameterTypes \<le> length vs"
  shows "\<exists>p. packScalarsToVector compareFn typeText parameterTypes resultType cases vectorWidth
                = Some (Inr p) \<and>
           length (packedCases p) = (length cases + vectorWidth - 1) div vectorWidth \<and>
           packedParameterTypes p
             = map (\<lambda>ty. VectorType vectorWidth (Type.kind ty)) parameterTypes \<and>
           packedResultType p = VectorType vectorWidth (Type.kind resultType) \<and>
           (\<forall>g < length (packedCases p).
              input (packedCases p ! g) =
                Many (map (\<lambda>paramIdx.
                        Vector (map (\<lambda>i. case input (cases ! min (g * vectorWidth + i)
                                                               (length cases - 1)) of
                                           Single v \<Rightarrow> v
                                         | Many vs \<Rightarrow> vs ! paramIdx)
                                  [0..<vectorWidth]))
                        [0..<length parameterTypes])) \<and>
           (\<forall>paramIdx < length parameterTypes. \<forall>i < vectorWidth.
              length cases \<le> (length (packedCases p) - 1) * vectorWidth + i \<longrightarrow>
              lane (input (last (packedCases p))) paramIdx i =
                Some (case input (last cases) of Single v \<Rightarrow> v | Many vs \<Rightarrow> vs ! paramIdx))"
proof -
  from W have Wp: "0 < vectorWidth" by auto
  from ar have ar': "\<forall>c \<in> set cases. inputArityOk (length parameterTypes) (input c)"
    by (simp add: inputArityOk_iff)
  from packScalarsToVector_unfold[OF Wp ne ar' sp sr, of compareFn typeText]
  obtain pcs where
    run: "packScalarsToVector compareFn typeText parameterTypes resultType cases vectorWidth =
            Some (Inr \<lparr>packedCases = pcs,
                       packedParameterTypes = map (\<lambda>p. VectorType vectorWidth (Type.kind p)) parameterTypes,
                       packedResultType = VectorType vectorWidth (Type.kind resultType)\<rparr>)" and
    l: "length pcs = (length cases + vectorWidth - 1) div vectorWidth" and
    n: "\<forall>j < length pcs. \<exists>vs. packedInputs cases (length parameterTypes) vectorWidth (j * vectorWidth) = Inr vs \<and>
              pcs ! j = \<lparr>input = Many vs,
                         expected = ExpComparator
                           (comparators compareFn (typeText (VectorType vectorWidth (Type.kind resultType)))
                              cases vectorWidth (j * vectorWidth))\<rparr>"
    by blast
  have inp: "input (pcs ! g) =
                Many (map (\<lambda>paramIdx.
                        Vector (map (\<lambda>i. case input (cases ! min (g * vectorWidth + i)
                                                               (length cases - 1)) of
                                           Single v \<Rightarrow> v
                                         | Many vs \<Rightarrow> vs ! paramIdx)
                                  [0..<vectorWidth]))
                        [0..<length parameterTypes])"
    if "g < length pcs" for g
  proof -
    from n that obtain vs where
      vs: "packedInputs cases (length parameterTypes) vectorWidth (g * vectorWidth) = Inr vs"
      and c: "input (pcs ! g) = Many vs" by auto
    from vs packedInputs_ok[OF ne ar', of vectorWidth "g * vectorWidth"] c show ?thesis by simp
  qed
  have pos: "0 < length pcs"
  proof -
    from ne have "vectorWidth \<le> length cases + vectorWidth - 1" by (cases cases) auto
    then have "1 \<le> (length cases + vectorWidth - 1) div vectorWidth"
      using Wp by (simp add: Suc_le_eq div_greater_zero_iff)
    with l show ?thesis by simp
  qed
  have lastl: "lane (input (last pcs)) paramIdx i =
                 Some (case input (last cases) of Single v \<Rightarrow> v | Many vs \<Rightarrow> vs ! paramIdx)"
    if "paramIdx < length parameterTypes" "i < vectorWidth"
       "length cases \<le> (length pcs - 1) * vectorWidth + i" for paramIdx i
  proof -
    from pos have g: "length pcs - 1 < length pcs" by simp
    from pos have lp: "last pcs = pcs ! (length pcs - 1)" by (simp add: last_conv_nth)
    from ne have lc: "last cases = cases ! (length cases - 1)" by (simp add: last_conv_nth)
    from that(3) have "length cases - 1 \<le> (length pcs - 1) * vectorWidth + i" by simp
    then have m: "min ((length pcs - 1) * vectorWidth + i) (length cases - 1) = length cases - 1"
      by (rule min_absorb2)
    show ?thesis unfolding lp inp[OF g] using that(1,2) m lc by (simp split: Input.splits)
  qed
  show ?thesis
    apply (rule exI[of _ "\<lparr>packedCases = pcs,
                       packedParameterTypes = map (\<lambda>p. VectorType vectorWidth (Type.kind p)) parameterTypes,
                       packedResultType = VectorType vectorWidth (Type.kind resultType)\<rparr>"])
    using run l inp lastl by simp
qed

theorem packScalarsToVector_shape_witness:
  "(case packScalarsToVector exactMatch typeName [ScalarType F32, ScalarType I32] (ScalarType F32)
          [\<lparr>input = Many [Scalar F32 (1::nat), Scalar I32 11], expected = ExpValue (Scalar F32 10) :: (nat, unit) Expectation\<rparr>,
           \<lparr>input = Many [Scalar F32 2, Scalar I32 12], expected = ExpValue (Scalar F32 20)\<rparr>,
           \<lparr>input = Many [Scalar F32 3, Scalar I32 13], expected = ExpValue (Scalar F32 30)\<rparr>,
           \<lparr>input = Many [Scalar F32 4, Scalar I32 14], expected = ExpValue (Scalar F32 40)\<rparr>,
           \<lparr>input = Many [Scalar F32 5, Scalar I32 15], expected = ExpValue (Scalar F32 50)\<rparr>] 4 of
      Some (Inr p) \<Rightarrow>
        length (packedCases p) = 2 \<and>
        packedParameterTypes p = [VectorType 4 F32, VectorType 4 I32] \<and>
        packedResultType p = VectorType 4 F32 \<and>
        input (packedCases p ! 0) =
          Many [Vector [Scalar F32 1, Scalar F32 2, Scalar F32 3, Scalar F32 4],
                Vector [Scalar I32 11, Scalar I32 12, Scalar I32 13, Scalar I32 14]] \<and>
        input (packedCases p ! 1) =
          Many [Vector [Scalar F32 5, Scalar F32 5, Scalar F32 5, Scalar F32 5],
                Vector [Scalar I32 15, Scalar I32 15, Scalar I32 15, Scalar I32 15]] \<and>
        lane (input (last (packedCases p))) 0 1 = Some (Scalar F32 5) \<and>
        lane (input (last (packedCases p))) 1 3 = Some (Scalar I32 15)
    | _ \<Rightarrow> False)"
proof -
  let ?cs = "[\<lparr>input = Many [Scalar F32 (1::nat), Scalar I32 11], expected = ExpValue (Scalar F32 10) :: (nat, unit) Expectation\<rparr>,
           \<lparr>input = Many [Scalar F32 2, Scalar I32 12], expected = ExpValue (Scalar F32 20)\<rparr>,
           \<lparr>input = Many [Scalar F32 3, Scalar I32 13], expected = ExpValue (Scalar F32 30)\<rparr>,
           \<lparr>input = Many [Scalar F32 4, Scalar I32 14], expected = ExpValue (Scalar F32 40)\<rparr>,
           \<lparr>input = Many [Scalar F32 5, Scalar I32 15], expected = ExpValue (Scalar F32 50)\<rparr>]"
  let ?pts = "[ScalarType F32, ScalarType I32]"
  have h1: "?cs \<noteq> []" by simp
  have h2: "\<forall>ty \<in> set ?pts. isScalarType ty" by simp
  have h3: "isScalarType (ScalarType F32)" by simp
  have h4: "(4::nat) \<in> {2, 3, 4}" by simp
  have h5: "\<forall>c \<in> set ?cs. \<forall>vs. input c = Many vs \<longrightarrow> length ?pts \<le> length vs" by auto
  from packScalarsToVector_shape[OF h1 h2 h3 h4 h5, of exactMatch typeName]
  obtain p where
    run: "packScalarsToVector exactMatch typeName ?pts (ScalarType F32) ?cs 4 = Some (Inr p)"
    and l: "length (packedCases p) = (length ?cs + 4 - 1) div 4"
    and pt: "packedParameterTypes p = map (\<lambda>ty. VectorType 4 (Type.kind ty)) ?pts"
    and rt: "packedResultType p = VectorType 4 (Type.kind (ScalarType F32))"
    and lanes: "\<forall>g < length (packedCases p).
              input (packedCases p ! g) =
                Many (map (\<lambda>paramIdx.
                        Vector (map (\<lambda>i. case input (?cs ! min (g * 4 + i) (length ?cs - 1)) of
                                           Single v \<Rightarrow> v
                                         | Many vs \<Rightarrow> vs ! paramIdx)
                                  [0..<4]))
                        [0..<length ?pts])"
    and lastl: "\<forall>paramIdx < length ?pts. \<forall>i < 4.
              length ?cs \<le> (length (packedCases p) - 1) * 4 + i \<longrightarrow>
              lane (input (last (packedCases p))) paramIdx i =
                Some (case input (last ?cs) of Single v \<Rightarrow> v | Many vs \<Rightarrow> vs ! paramIdx)"
    by blast
  from l have l2: "length (packedCases p) = 2" by simp
  have u4: "[0..<4] = [0, 1, 2, 3]" and u2: "[0..<2] = [0, 1]" by (simp_all add: upt_rec)
  from lanes[rule_format, of 0] l2
  have a: "input (packedCases p ! 0) =
          Many [Vector [Scalar F32 1, Scalar F32 2, Scalar F32 3, Scalar F32 4],
                Vector [Scalar I32 11, Scalar I32 12, Scalar I32 13, Scalar I32 14]]"
    by (simp add: u4 u2)
  from lanes[rule_format, of 1] l2
  have b: "input (packedCases p ! 1) =
          Many [Vector [Scalar F32 5, Scalar F32 5, Scalar F32 5, Scalar F32 5],
                Vector [Scalar I32 15, Scalar I32 15, Scalar I32 15, Scalar I32 15]]"
    by (simp add: u4 u2)
  from lastl[rule_format, of 0 1] l2
  have c: "lane (input (last (packedCases p))) 0 1 = Some (Scalar F32 5)" by simp
  from lastl[rule_format, of 1 3] l2
  have d: "lane (input (last (packedCases p))) 1 3 = Some (Scalar I32 15)" by simp
  show ?thesis using run l2 pt rt a b c d by simp
qed

section \<open>Properties of flight control\<close>

lemma flightInv_init: "flightInv flightInit"
  by (simp add: flightInv_def flightInit_def maxBatchesInFlight_def)

lemma flightInv_submitter: "flightInv st \<Longrightarrow> flightInv (submitterStep cpb len throws st)"
  by (cases "ctl st")
     (auto simp: flightInv_def submitterStep_def admit_def maxBatchesInFlight_def)

lemma flightInv_callback:
  "flightInv st \<Longrightarrow> flightInv (batchFinishedCallback (st\<lparr>pending := n\<rparr>))"
  by (auto simp: flightInv_def batchFinishedCallback_def Let_def maxBatchesInFlight_def)

lemma flightInv_step: "flightInv st \<Longrightarrow> flightInv (flightStep cpb len ev st)"
  by (cases ev) (simp_all add: flightStep_def flightInv_submitter flightInv_callback)

lemma flightRun_snoc: "flightRun cpb len (evs @ [ev]) = flightStep cpb len ev (flightRun cpb len evs)"
  by (simp add: flightRun_def)

lemma flightInv_run: "flightInv (flightRun cpb len evs)"
proof (induction evs rule: rev_induct)
  case Nil
  show ?case by (simp add: flightRun_def flightInv_init)
next
  case (snoc ev evs)
  then show ?case by (simp add: flightRun_snoc flightInv_step)
qed

lemma admitted_only_below:
  assumes "flightInv st" "batchesInFlight (flightStep cpb len ev st) > batchesInFlight st"
  shows "batchesInFlight st \<le> maxBatchesInFlight \<and> ev \<noteq> WorkDone \<and>
         batchesInFlight (flightStep cpb len ev st) = batchesInFlight st + 1"
  using assms
  by (cases ev; cases "ctl st")
     (auto simp: flightInv_def flightStep_def submitterStep_def admit_def
        batchFinishedCallback_def Let_def maxBatchesInFlight_def split: if_splits)


text \<open>
  Claim C3. After any sequence of events of a run, \<^verbatim>\<open>batchesInFlight\<close> is at most
  \<open>maxBatchesInFlight + 1 = 6\<close> and the single-waiter assertion has not failed. An event
  raises the counter only from a value that is at most the ceiling. At the head of
  the loop with the counter above the ceiling, the submitter suspends and the counter
  stays; a suspended submitter stays suspended, with the counter unchanged, until a
  completion callback runs, which lowers the counter by one and resumes it.
\<close>

theorem batchesInFlight_bounded:
  "batchesInFlight (flightRun cpb len evs) \<le> maxBatchesInFlight + 1 \<and>
   maxBatchesInFlight + 1 = 6 \<and>
   ctl (flightRun cpb len evs) \<noteq> AssertFailed \<and>
   (batchesInFlight (flightStep cpb len ev (flightRun cpb len evs))
      > batchesInFlight (flightRun cpb len evs) \<longrightarrow>
    batchesInFlight (flightRun cpb len evs) \<le> maxBatchesInFlight) \<and>
   (batchesInFlight (flightRun cpb len evs) > maxBatchesInFlight \<and>
    ctl (flightRun cpb len evs) = AtLoopHead \<and> loopIdx (flightRun cpb len evs) < len \<longrightarrow>
      ctl (flightStep cpb len Proceed (flightRun cpb len evs)) = Awaiting \<and>
      batchesInFlight (flightStep cpb len Proceed (flightRun cpb len evs))
        = batchesInFlight (flightRun cpb len evs)) \<and>
   (ctl (flightRun cpb len evs) = Awaiting \<longrightarrow>
      (ctl (flightStep cpb len ev (flightRun cpb len evs)) = Awaiting \<and>
       batchesInFlight (flightStep cpb len ev (flightRun cpb len evs))
         = batchesInFlight (flightRun cpb len evs)) \<or>
      (ev = WorkDone \<and> ctl (flightStep cpb len ev (flightRun cpb len evs)) = Resumed \<and>
       batchesInFlight (flightStep cpb len ev (flightRun cpb len evs))
         = batchesInFlight (flightRun cpb len evs) - 1))"
proof -
  let ?s = "flightRun cpb len evs"
  have inv: "flightInv ?s" by (rule flightInv_run)
  have 1: "batchesInFlight ?s \<le> maxBatchesInFlight + 1" "ctl ?s \<noteq> AssertFailed"
    using inv by (simp_all add: flightInv_def)
  have 2: "batchesInFlight (flightStep cpb len ev ?s) > batchesInFlight ?s \<longrightarrow>
           batchesInFlight ?s \<le> maxBatchesInFlight"
    using admitted_only_below[OF inv] by blast
  have 3: "batchesInFlight ?s > maxBatchesInFlight \<and> ctl ?s = AtLoopHead \<and> loopIdx ?s < len \<longrightarrow>
      ctl (flightStep cpb len Proceed ?s) = Awaiting \<and>
      batchesInFlight (flightStep cpb len Proceed ?s) = batchesInFlight ?s"
    using inv by (auto simp: flightInv_def flightStep_def submitterStep_def)
  have 4: "ctl ?s = Awaiting \<longrightarrow>
      (ctl (flightStep cpb len ev ?s) = Awaiting \<and>
       batchesInFlight (flightStep cpb len ev ?s) = batchesInFlight ?s) \<or>
      (ev = WorkDone \<and> ctl (flightStep cpb len ev ?s) = Resumed \<and>
       batchesInFlight (flightStep cpb len ev ?s) = batchesInFlight ?s - 1)"
    using inv
    by (cases ev) (auto simp: flightInv_def flightStep_def submitterStep_def
          batchFinishedCallback_def Let_def)
  show ?thesis using 1 2 3 4 by (simp add: maxBatchesInFlight_def)
qed

theorem batchesInFlight_bounded_witness:
  "batchesInFlight (flightRun 1 10 [Proceed, Proceed, Proceed, Proceed, Proceed, Proceed]) = 6 \<and>
   ctl (flightRun 1 10 [Proceed, Proceed, Proceed, Proceed, Proceed, Proceed]) = AtLoopHead \<and>
   loopIdx (flightRun 1 10 [Proceed, Proceed, Proceed, Proceed, Proceed, Proceed]) < 10 \<and>
   ctl (flightStep 1 10 Proceed
          (flightRun 1 10 [Proceed, Proceed, Proceed, Proceed, Proceed, Proceed])) = Awaiting \<and>
   batchesInFlight (flightStep 1 10 Proceed
          (flightRun 1 10 [Proceed, Proceed, Proceed, Proceed, Proceed, Proceed])) = 6 \<and>
   batchesInFlight (flightRun 1 10
          [Proceed, Proceed, Proceed, Proceed, Proceed, Proceed, Proceed, WorkDone, Proceed]) = 6"
  using batchesInFlight_bounded[of 1 10 "[Proceed, Proceed, Proceed, Proceed, Proceed, Proceed]" Proceed]
  by (simp add: flightRun_def flightStep_def submitterStep_def admit_def flightInit_def
        maxBatchesInFlight_def batchFinishedCallback_def Let_def)

section \<open>Properties of the result verifier\<close>

lemma readOutputs_ok:
  "valueStride resultType = Inr s \<Longrightarrow>
     readOutputs readValue resultType outputData n
       = Inr (map (\<lambda>i. readValue resultType outputData (i * s)) [0..<n])"
  unfolding readOutputs_def by (rule mapE_total) simp

lemma toComparator_compare:
  "compare (toComparator compareFn ex) g =
     (case ex of ExpComparator c \<Rightarrow> compare c g | _ \<Rightarrow> compareFn g ex)"
  by (simp add: toComparator_def split: Expectation.splits)

lemma checkCases_all:
  assumes d: "\<forall>i < length cases.
                compare (toComparator compareFn (expected (cases ! i))) (outputs ! i) = Inr (d i)"
  shows "checkCases compareFn valueText cases outputs caseIdx errs
           = Inr (errs @ map (\<lambda>i. failureRecord valueText (cases ! i) (d i))
                           (filter (\<lambda>i. \<not> matched (d i)) [caseIdx..<length cases]))"
proof (induction "length cases - caseIdx" arbitrary: caseIdx errs rule: less_induct)
  case less
  show ?case
  proof (cases "caseIdx < length cases")
    case False
    then show ?thesis by (subst checkCases.simps) simp
  next
    case True
    then have "length cases - Suc caseIdx < length cases - caseIdx" by arith
    note ih = less.hyps[OF this]
    from d True have c: "compare (toComparator compareFn (expected (cases ! caseIdx))) (outputs ! caseIdx)
                           = Inr (d caseIdx)" by blast
    have u: "[caseIdx..<length cases] = caseIdx # [Suc caseIdx..<length cases]"
      using True by (simp add: upt_conv_Cons)
    show ?thesis
      by (subst checkCases.simps) (simp add: True c ih u Let_def)
  qed
qed

lemma checkCases_throws:
  assumes k: "k < length cases"
      and e: "compare (toComparator compareFn (expected (cases ! k))) (outputs ! k) = Inl e"
      and b: "\<forall>i < k. \<exists>d. compare (toComparator compareFn (expected (cases ! i))) (outputs ! i)
                             = Inr d"
  shows "caseIdx \<le> k \<Longrightarrow> checkCases compareFn valueText cases outputs caseIdx errs = Inl e"
proof (induction "k - caseIdx" arbitrary: caseIdx errs rule: less_induct)
  case less
  show ?case
  proof (cases "caseIdx = k")
    case True
    then show ?thesis using k e by (subst checkCases.simps) (simp add: Let_def)
  next
    case False
    with less.prems have lt: "caseIdx < k" by simp
    with b obtain d where
      d: "compare (toComparator compareFn (expected (cases ! caseIdx))) (outputs ! caseIdx) = Inr d"
      by blast
    from lt have "k - Suc caseIdx < k - caseIdx" by arith
    note ih = less.hyps[OF this]
    from lt k have c: "caseIdx < length cases" by simp
    show ?thesis using lt c d ih by (subst checkCases.simps) (simp add: Let_def)
  qed
qed


text \<open>
  Claim C9, as amended. For a batch whose result type has a stride \<open>s\<close>,
  \<^verbatim>\<open>checkExpectation\<close> decodes \<open>length cases\<close> values, the value of case \<open>i\<close> at offset
  \<open>i * s\<close>. Let \<open>r i\<close> be the comparison of case \<open>i\<close>: the comparator the case carries
  applied to the decoded value, or, when the case carries no comparator, the function
  \<^verbatim>\<open>compare\<close> applied to the decoded value and the expectation (\<^verbatim>\<open>toComparator\<close> returns
  a comparator as it is and wraps anything else in a comparator of kind \<open>value\<close>). When
  every comparison returns, the result is an error if and only if some case did not
  match, and the message is the failure records of all the cases that did not match,
  in case order, joined by an empty line: no mismatch stops the loop. When a
  comparison throws, \<^verbatim>\<open>checkExpectation\<close> throws what the first such comparison throws,
  and returns nothing. So it returns an error if and only if every comparison returns
  and some case did not match, and it returns no error if and only if every comparison
  returns a match.
\<close>

theorem checkExpectation_reports_all:
  assumes s: "valueStride resultType = Inr s"
      and r: "\<forall>i < length cases.
                r i = (let ex = expected (cases ! i);
                           g = readValue resultType outputData (i * s) in
                       case ex of
                         ExpComparator c \<Rightarrow> compare c g
                       | _ \<Rightarrow> compareFn g ex)"
  shows "readOutputs readValue resultType outputData (length cases)
           = Inr (map (\<lambda>i. readValue resultType outputData (i * s)) [0..<length cases]) \<and>
         ((\<forall>i < length cases. \<exists>d. r i = Inr d) \<longrightarrow>
            checkExpectation compareFn valueText readValue resultType cases outputData
              = Inr (if \<exists>i < length cases. \<not> matched (projr (r i)) then
                       Some (Error (join (newline @ newline)
                               (map (\<lambda>i. failureRecord valueText (cases ! i) (projr (r i)))
                                  (filter (\<lambda>i. \<not> matched (projr (r i))) [0..<length cases]))))
                     else None)) \<and>
         (\<forall>k e. k < length cases \<and> r k = Inl e \<and> (\<forall>i < k. \<exists>d. r i = Inr d) \<longrightarrow>
            checkExpectation compareFn valueText readValue resultType cases outputData = Inl e) \<and>
         ((\<exists>err. checkExpectation compareFn valueText readValue resultType cases outputData
                   = Inr (Some err)) \<longleftrightarrow>
            (\<forall>i < length cases. \<exists>d. r i = Inr d) \<and>
            (\<exists>i < length cases. \<not> matched (projr (r i)))) \<and>
         (checkExpectation compareFn valueText readValue resultType cases outputData = Inr None
            \<longleftrightarrow> (\<forall>i < length cases. \<exists>d. r i = Inr d \<and> matched d)) \<and>
         (\<forall>c. toComparator compareFn (ExpComparator c) = c) \<and>
         (\<forall>ex. (\<forall>c. ex \<noteq> ExpComparator c) \<longrightarrow>
            toComparator compareFn ex = \<lparr>compare = (\<lambda>g. compareFn g ex), kind = ''value''\<rparr>)"
proof -
  let ?outs = "map (\<lambda>i. readValue resultType outputData (i * s)) [0..<length cases]"
  have ro: "readOutputs readValue resultType outputData (length cases) = Inr ?outs"
    using s by (rule readOutputs_ok)
  have cmp: "compare (toComparator compareFn (expected (cases ! i))) (?outs ! i) = r i"
    if "i < length cases" for i
    using that r by (simp add: toComparator_compare Let_def)
  have all: "checkExpectation compareFn valueText readValue resultType cases outputData
              = Inr (if \<exists>i < length cases. \<not> matched (projr (r i)) then
                       Some (Error (join (newline @ newline)
                               (map (\<lambda>i. failureRecord valueText (cases ! i) (projr (r i)))
                                  (filter (\<lambda>i. \<not> matched (projr (r i))) [0..<length cases]))))
                     else None)"
    if ok: "\<forall>i < length cases. \<exists>d. r i = Inr d"
  proof -
    have "\<forall>i < length cases.
            compare (toComparator compareFn (expected (cases ! i))) (?outs ! i) = Inr (projr (r i))"
      using ok cmp by auto
    from checkCases_all[OF this, of valueText 0 "[]"]
    have c: "checkCases compareFn valueText cases ?outs 0 []
               = Inr (map (\<lambda>i. failureRecord valueText (cases ! i) (projr (r i)))
                        (filter (\<lambda>i. \<not> matched (projr (r i))) [0..<length cases]))"
      by simp
    have e: "(filter (\<lambda>i. \<not> matched (projr (r i))) [0..<length cases] \<noteq> []) \<longleftrightarrow>
             (\<exists>i < length cases. \<not> matched (projr (r i)))"
      by (auto simp: filter_empty_conv)
    show ?thesis using ro c e by (simp add: checkExpectation_def)
  qed
  have thr: "checkExpectation compareFn valueText readValue resultType cases outputData = Inl e"
    if "k < length cases" "r k = Inl e" "\<forall>i < k. \<exists>d. r i = Inr d" for k e
  proof -
    have 1: "compare (toComparator compareFn (expected (cases ! k))) (?outs ! k) = Inl e"
      using that cmp by simp
    have 2: "\<forall>i < k. \<exists>d. compare (toComparator compareFn (expected (cases ! i))) (?outs ! i) = Inr d"
      using that cmp by simp
    from checkCases_throws[OF that(1) 1 2, of 0 valueText "[]"]
    show ?thesis using ro by (simp add: checkExpectation_def)
  qed
  have t1: "\<forall>c. toComparator compareFn (ExpComparator c) = c"
    by (simp add: toComparator_def)
  have t2: "\<forall>ex. (\<forall>c. ex \<noteq> ExpComparator c) \<longrightarrow>
            toComparator compareFn ex = \<lparr>compare = (\<lambda>g. compareFn g ex), kind = ''value''\<rparr>"
    by (auto simp: toComparator_def split: Expectation.splits)
  have a: "(\<forall>i < length cases. \<exists>d. r i = Inr d) \<longrightarrow>
            checkExpectation compareFn valueText readValue resultType cases outputData
              = Inr (if \<exists>i < length cases. \<not> matched (projr (r i)) then
                       Some (Error (join (newline @ newline)
                               (map (\<lambda>i. failureRecord valueText (cases ! i) (projr (r i)))
                                  (filter (\<lambda>i. \<not> matched (projr (r i))) [0..<length cases]))))
                     else None)"
    using all by blast
  have b: "\<forall>k e. k < length cases \<and> r k = Inl e \<and> (\<forall>i < k. \<exists>d. r i = Inr d) \<longrightarrow>
            checkExpectation compareFn valueText readValue resultType cases outputData = Inl e"
    using thr by blast
  let ?ce = "checkExpectation compareFn valueText readValue resultType cases outputData"
  have ret: "\<forall>i < length cases. \<exists>d. r i = Inr d" if "?ce = Inr x" for x
  proof (rule ccontr)
    assume "\<not> (\<forall>i < length cases. \<exists>d. r i = Inr d)"
    from first_throw[OF this] obtain j e where
      "j < length cases" "r j = Inl e" "\<forall>i < j. \<exists>d. r i = Inr d" by blast
    from thr[OF this] that show False by simp
  qed
  have c1: "(\<exists>err. ?ce = Inr (Some err)) \<longleftrightarrow>
            (\<forall>i < length cases. \<exists>d. r i = Inr d) \<and>
            (\<exists>i < length cases. \<not> matched (projr (r i)))"
  proof
    assume "\<exists>err. ?ce = Inr (Some err)"
    then obtain err where err: "?ce = Inr (Some err)" by blast
    from ret[OF err] have ok: "\<forall>i < length cases. \<exists>d. r i = Inr d" .
    from all[OF ok] err have "\<exists>i < length cases. \<not> matched (projr (r i))"
      by (auto split: if_splits)
    with ok show "(\<forall>i < length cases. \<exists>d. r i = Inr d) \<and>
            (\<exists>i < length cases. \<not> matched (projr (r i)))" by blast
  next
    assume "(\<forall>i < length cases. \<exists>d. r i = Inr d) \<and>
            (\<exists>i < length cases. \<not> matched (projr (r i)))"
    then show "\<exists>err. ?ce = Inr (Some err)" using all by auto
  qed
  have c2: "?ce = Inr None \<longleftrightarrow> (\<forall>i < length cases. \<exists>d. r i = Inr d \<and> matched d)"
  proof
    assume n: "?ce = Inr None"
    from ret[OF n] have ok: "\<forall>i < length cases. \<exists>d. r i = Inr d" .
    from all[OF ok] n have "\<forall>i < length cases. matched (projr (r i))"
      by (auto split: if_splits)
    with ok show "\<forall>i < length cases. \<exists>d. r i = Inr d \<and> matched d" by fastforce
  next
    assume m: "\<forall>i < length cases. \<exists>d. r i = Inr d \<and> matched d"
    then have ok: "\<forall>i < length cases. \<exists>d. r i = Inr d" by blast
    from m have "\<not> (\<exists>i < length cases. \<not> matched (projr (r i)))" by fastforce
    with all[OF ok] show "?ce = Inr None" by simp
  qed
  show ?thesis
    apply (intro conjI)
          apply (rule ro)
         apply (rule a)
        apply (rule b)
       apply (rule c1)
      apply (rule c2)
     apply (rule t1)
    apply (rule t2)
    done
qed

theorem checkExpectation_reports_all_witness:
  "valueStride (ScalarType I32) = Inr 16 \<and>
   checkExpectation exactMatch valueName readSlot (ScalarType I32)
     [\<lparr>input = Many [Scalar I32 2, Scalar I32 3], expected = ExpValue (Scalar I32 6) :: (nat, unit) Expectation\<rparr>,
      \<lparr>input = Many [Scalar I32 4, Scalar I32 1], expected = ExpValue (Scalar I32 5)\<rparr>,
      \<lparr>input = Many [Scalar I32 7, Scalar I32 9], expected = ExpComparator (notAbove 20)\<rparr>,
      \<lparr>input = Many [Scalar I32 1, Scalar I32 1], expected = ExpComparator (notAbove 20)\<rparr>]
     [Scalar I32 5, Scalar I32 5, Scalar I32 25, Scalar I32 3]
   = Inr (Some (Error (''(2, 3)'' @ newline @ ''    returned: got'' @ newline @ ''    expected: want''
                       @ newline @ newline @
                       ''(7, 9)'' @ newline @ ''    returned: value'' @ newline @ ''    expected: bound''))) \<and>
   checkExpectation exactMatch valueName readSlot (ScalarType I32)
     [\<lparr>input = Many [Scalar I32 2, Scalar I32 3], expected = ExpValue (Scalar I32 6) :: (nat, unit) Expectation\<rparr>,
      \<lparr>input = Many [Scalar I32 4, Scalar I32 1], expected = ExpValue (Scalar I32 5)\<rparr>,
      \<lparr>input = Many [Scalar I32 7, Scalar I32 9], expected = ExpComparator (notAbove 20)\<rparr>,
      \<lparr>input = Many [Scalar I32 1, Scalar I32 1], expected = ExpComparator (notAbove 20)\<rparr>]
     [Scalar I32 6, Scalar I32 5, Scalar I32 16, Scalar I32 3]
   = Inr None \<and>
   valueStride (VectorType 2 I32) = Inr 16 \<and>
   checkExpectation exactMatch valueName readSlot (VectorType 2 I32)
     [\<lparr>input = Single (Vector [Scalar I32 0, Scalar I32 0]),
       expected = ExpValue (Vector [Scalar I32 1, Scalar I32 2]) :: (nat, unit) Expectation\<rparr>,
      \<lparr>input = Single (Vector [Scalar I32 0, Scalar I32 0]),
       expected = ExpComparator (notAbove 20)\<rparr>]
     [Vector [Scalar I32 1, Scalar I32 2], Vector [Scalar I32 3, Scalar I32 4]]
   = Inl TypeError"
proof -
  let ?cs = "[\<lparr>input = Many [Scalar I32 2, Scalar I32 3], expected = ExpValue (Scalar I32 6) :: (nat, unit) Expectation\<rparr>,
      \<lparr>input = Many [Scalar I32 4, Scalar I32 1], expected = ExpValue (Scalar I32 5)\<rparr>,
      \<lparr>input = Many [Scalar I32 7, Scalar I32 9], expected = ExpComparator (notAbove 20)\<rparr>,
      \<lparr>input = Many [Scalar I32 1, Scalar I32 1], expected = ExpComparator (notAbove 20)\<rparr>]"
  let ?r = "\<lambda>out i. (let ex = expected (?cs ! i);
                           g = readSlot (ScalarType I32) out (i * 16) in
                       case ex of
                         ExpComparator c \<Rightarrow> compare c g
                       | _ \<Rightarrow> exactMatch g ex)"
  have s: "valueStride (ScalarType I32) = Inr 16" by simp
  have u: "[0..<4] = [0, 1, 2, 3]" by (simp add: upt_rec)
  have all4: "(\<forall>i < 4. P i) \<longleftrightarrow> P 0 \<and> P 1 \<and> P 2 \<and> P 3" for P :: "nat \<Rightarrow> bool"
  proof -
    have "i < 4 \<longleftrightarrow> i = 0 \<or> i = 1 \<or> i = 2 \<or> i = 3" for i :: nat by auto
    then show ?thesis by auto
  qed
  have ex4: "(\<exists>i < 4. P i) \<longleftrightarrow> P 0 \<or> P 1 \<or> P 2 \<or> P 3" for P :: "nat \<Rightarrow> bool"
  proof -
    have "i < 4 \<longleftrightarrow> i = 0 \<or> i = 1 \<or> i = 2 \<or> i = 3" for i :: nat by auto
    then show ?thesis by auto
  qed
  have all2: "(\<forall>i < 2. P i) \<longleftrightarrow> P 0 \<and> P 1" for P :: "nat \<Rightarrow> bool"
  proof -
    have "i < 2 \<longleftrightarrow> i = 0 \<or> i = 1" for i :: nat by auto
    then show ?thesis by auto
  qed
  note ev = exactMatch_def notAbove_def readSlot_def Let_def
  have T: "((\<forall>i < length ?cs. \<exists>d. ?r out i = Inr d) \<longrightarrow>
            checkExpectation exactMatch valueName readSlot (ScalarType I32) ?cs out
              = Inr (if \<exists>i < length ?cs. \<not> matched (projr (?r out i)) then
                       Some (Error (join (newline @ newline)
                               (map (\<lambda>i. failureRecord valueName (?cs ! i) (projr (?r out i)))
                                  (filter (\<lambda>i. \<not> matched (projr (?r out i))) [0..<length ?cs]))))
                     else None)) \<and>
         (\<forall>k e. k < length ?cs \<and> ?r out k = Inl e \<and> (\<forall>i < k. \<exists>d. ?r out i = Inr d) \<longrightarrow>
            checkExpectation exactMatch valueName readSlot (ScalarType I32) ?cs out = Inl e)"
    for out
  proof -
    have r: "\<forall>i < length ?cs.
                ?r out i = (let ex = expected (?cs ! i);
                           g = readSlot (ScalarType I32) out (i * 16) in
                       case ex of
                         ExpComparator c \<Rightarrow> compare c g
                       | _ \<Rightarrow> exactMatch g ex)"
      by (intro allI impI refl)
    from checkExpectation_reports_all[where r = "?r out" and cases = ?cs and readValue = readSlot
           and compareFn = exactMatch and outputData = out and valueText = valueName, OF s r]
    show ?thesis by blast
  qed
  let ?o1 = "[Scalar I32 5, Scalar I32 5, Scalar I32 25, Scalar I32 (3::nat)]"
  let ?o2 = "[Scalar I32 6, Scalar I32 5, Scalar I32 16, Scalar I32 (3::nat)]"
  let ?vs = "[\<lparr>input = Single (Vector [Scalar I32 0, Scalar I32 0]),
       expected = ExpValue (Vector [Scalar I32 1, Scalar I32 2]) :: (nat, unit) Expectation\<rparr>,
      \<lparr>input = Single (Vector [Scalar I32 0, Scalar I32 0]),
       expected = ExpComparator (notAbove 20)\<rparr>]"
  let ?o3 = "[Vector [Scalar I32 1, Scalar I32 (2::nat)], Vector [Scalar I32 3, Scalar I32 4]]"
  let ?q = "\<lambda>i. (let ex = expected (?vs ! i);
                           g = readSlot (VectorType 2 I32) ?o3 (i * 16) in
                       case ex of
                         ExpComparator c \<Rightarrow> compare c g
                       | _ \<Rightarrow> exactMatch g ex)"
  have len: "length ?cs = 4" by simp
  have p1: "\<forall>i < length ?cs. \<exists>d. ?r ?o1 i = Inr d" unfolding len by (simp add: all4 ev)
  from T[of ?o1] p1 have
    "checkExpectation exactMatch valueName readSlot (ScalarType I32) ?cs ?o1
       = Inr (if \<exists>i < length ?cs. \<not> matched (projr (?r ?o1 i)) then
                Some (Error (join (newline @ newline)
                        (map (\<lambda>i. failureRecord valueName (?cs ! i) (projr (?r ?o1 i)))
                           (filter (\<lambda>i. \<not> matched (projr (?r ?o1 i))) [0..<length ?cs]))))
              else None)"
    by blast
  then have a: "checkExpectation exactMatch valueName readSlot (ScalarType I32) ?cs ?o1
     = Inr (Some (Error (''(2, 3)'' @ newline @ ''    returned: got'' @ newline @ ''    expected: want''
                       @ newline @ newline @
                       ''(7, 9)'' @ newline @ ''    returned: value'' @ newline @ ''    expected: bound'')))"
    unfolding len by (simp add: ex4 u ev failureRecord_def showNat.simps digit_def)
  have p2: "\<forall>i < length ?cs. \<exists>d. ?r ?o2 i = Inr d" unfolding len by (simp add: all4 ev)
  from T[of ?o2] p2 have
    "checkExpectation exactMatch valueName readSlot (ScalarType I32) ?cs ?o2
       = Inr (if \<exists>i < length ?cs. \<not> matched (projr (?r ?o2 i)) then
                Some (Error (join (newline @ newline)
                        (map (\<lambda>i. failureRecord valueName (?cs ! i) (projr (?r ?o2 i)))
                           (filter (\<lambda>i. \<not> matched (projr (?r ?o2 i))) [0..<length ?cs]))))
              else None)"
    by blast
  then have b: "checkExpectation exactMatch valueName readSlot (ScalarType I32) ?cs ?o2 = Inr None"
    unfolding len by (simp add: ex4 u ev)
  have sv: "valueStride (VectorType 2 I32) = Inr 16" by simp
  have q: "\<forall>i < length ?vs.
                ?q i = (let ex = expected (?vs ! i);
                           g = readSlot (VectorType 2 I32) ?o3 (i * 16) in
                       case ex of
                         ExpComparator c \<Rightarrow> compare c g
                       | _ \<Rightarrow> exactMatch g ex)"
    by (intro allI impI refl)
  from checkExpectation_reports_all[where r = ?q and cases = ?vs and readValue = readSlot
         and compareFn = exactMatch and outputData = ?o3 and valueText = valueName, OF sv q]
  have "1 < length ?vs \<and> ?q 1 = Inl TypeError \<and> (\<forall>i < 1. \<exists>d. ?q i = Inr d) \<longrightarrow>
       checkExpectation exactMatch valueName readSlot (VectorType 2 I32) ?vs ?o3 = Inl TypeError"
    by blast
  then have c: "checkExpectation exactMatch valueName readSlot (VectorType 2 I32) ?vs ?o3 = Inl TypeError"
    by (simp add: ev)
  show ?thesis using s a b sv c by simp
qed

text \<open>
  Claim C9 as stated fails when a comparator throws. The batch has a vector result;
  its first case expects a value that the decoded value is not, so it does not match;
  its second case carries a comparator for scalars, which throws on the decoded
  vector. \<^verbatim>\<open>checkExpectation\<close> ends with that exception: no error is returned although
  a case mismatched.
\<close>

theorem comparator_throws_counterexample:
  "exactMatch (Vector [Scalar I32 (1::nat), Scalar I32 2])
     (ExpValue (Vector [Scalar I32 9, Scalar I32 9]) :: (nat, unit) Expectation)
     = Inr \<lparr>matched = False, gotText = ''got'', expectedText = ''want''\<rparr> \<and>
   compare (notAbove 20) (Vector [Scalar I32 3, Scalar I32 4]) = Inl TypeError \<and>
   checkExpectation exactMatch valueName readSlot (VectorType 2 I32)
     [\<lparr>input = Single (Vector [Scalar I32 0, Scalar I32 0]),
       expected = ExpValue (Vector [Scalar I32 9, Scalar I32 9]) :: (nat, unit) Expectation\<rparr>,
      \<lparr>input = Single (Vector [Scalar I32 0, Scalar I32 0]),
       expected = ExpComparator (notAbove 20)\<rparr>]
     [Vector [Scalar I32 1, Scalar I32 2], Vector [Scalar I32 3, Scalar I32 4]]
   = Inl TypeError"
  by (simp add: checkExpectation_def readOutputs_def checkCases.simps toComparator_def
        exactMatch_def notAbove_def readSlot_def Let_def upt_rec)

section \<open>Properties of the program synthesizer\<close>

lemma showNat_digit: "n < 10 \<Longrightarrow> showNat n = [digit n]"
  by (subst showNat.simps) simp

lemma showNat_0: "showNat 0 = ''0''"
  by (simp add: showNat_digit digit_def)

lemma showNat_1: "showNat (Suc 0) = ''1''"
  by (simp add: showNat_digit digit_def)

lemma map_select_bools:
  "map (\<lambda>(c, f, t). if c then t else f) (zip bs (zip (replicate (length bs) (0::nat)) (replicate (length bs) 1)))
     = map (\<lambda>b. if b then 1 else 0) bs"
  by (induction bs) auto

lemma map_ne_zero:
  "map (\<lambda>(a, b). a \<noteq> b) (zip (map (\<lambda>b. if b then 1 else 0) bs) (replicate (length bs) (0::nat))) = bs"
  by (induction bs) auto

lemma roundtrip_value:
  "isBoolType ty \<Longrightarrow> fitsType ty (env e) \<Longrightarrow>
     evalW env (loadedExpr ty (storedExpr ty (Opaque e))) = env e"
proof (cases ty)
  case (ScalarType k)
  assume "fitsType ty (env e)"
  with ScalarType obtain b where "env e = BoolV b" by (cases "env e") auto
  with ScalarType show ?thesis by simp
next
  case (VectorType w k)
  assume "fitsType ty (env e)"
  with VectorType obtain bs where b: "env e = BoolVec bs" "length bs = w" by (cases "env e") auto
  with VectorType show ?thesis using map_select_bools[of bs] map_ne_zero[of bs] by simp
next
  case (MatrixType c r k)
  assume "isBoolType ty"
  with MatrixType show ?thesis by simp
qed

lemma store_text:
  "isBoolType ty \<Longrightarrow> toStorage ty e = Inr (render (storedExpr ty (Opaque e)))"
  by (cases ty) (simp_all add: showNat_0 showNat_1)

lemma load_text:
  "isBoolType ty \<Longrightarrow> fromStorage ty e = Inr (render (loadedExpr ty (Opaque e)))"
  by (cases ty) (simp_all add: showNat_0 showNat_1)

lemma passthrough:
  "scalarTypeOf ty \<noteq> Bool \<Longrightarrow> scalarTypeOf ty \<noteq> AbstractFloat \<Longrightarrow>
     toStorage ty e = Inr e \<and> fromStorage ty e = Inr e"
  by (cases ty) simp_all


text \<open>
  Claim C6. For a boolean scalar or vector type, \<^verbatim>\<open>toStorage\<close> emits the text of
  \<open>select(0u, 1u, e)\<close> (with splat vectors \<open>vecN<u32>(0u)\<close>, \<open>vecN<u32>(1u)\<close> for a vector)
  and \<^verbatim>\<open>fromStorage\<close> the text of \<open>e != 0u\<close> (\<open>e != vecN<u32>(0u)\<close>); loading what was
  stored is the text of the composed fragment, and its value is the value of \<open>e\<close>,
  for every boolean and every boolean vector of the type's width. For a type whose
  scalar kind is neither bool nor abstract-float, both conversions return the
  expression unchanged.
\<close>

theorem storage_roundtrip:
  "(isBoolType ty \<longrightarrow>
      toStorage ty e = Inr (render (storedExpr ty (Opaque e))) \<and>
      fromStorage ty e = Inr (render (loadedExpr ty (Opaque e))) \<and>
      bindE (toStorage ty e) (fromStorage ty)
        = Inr (render (loadedExpr ty (storedExpr ty (Opaque e)))) \<and>
      (fitsType ty (env e) \<longrightarrow>
         evalW env (loadedExpr ty (storedExpr ty (Opaque e))) = env e)) \<and>
   (scalarTypeOf ty \<noteq> Bool \<and> scalarTypeOf ty \<noteq> AbstractFloat \<longrightarrow>
      toStorage ty e = Inr e \<and> fromStorage ty e = Inr e)"
proof -
  have c: "bindE (toStorage ty e) (fromStorage ty)
        = Inr (render (loadedExpr ty (storedExpr ty (Opaque e))))" if "isBoolType ty"
    using that by (cases ty) (simp_all add: bindE_def showNat_0 showNat_1)
  show ?thesis using store_text load_text c roundtrip_value passthrough by blast
qed

theorem storage_roundtrip_witness:
  "isBoolType (VectorType 3 Bool) \<and>
   toStorage (VectorType 3 Bool) ''b'' = Inr ''select(vec3<u32>(0u), vec3<u32>(1u), b)'' \<and>
   fromStorage (VectorType 3 Bool) ''u'' = Inr ''u != vec3<u32>(0u)'' \<and>
   bindE (toStorage (VectorType 3 Bool) ''b'') (fromStorage (VectorType 3 Bool))
     = Inr ''select(vec3<u32>(0u), vec3<u32>(1u), b) != vec3<u32>(0u)'' \<and>
   fitsType (VectorType 3 Bool) ((\<lambda>x. BoolVec [True, False, True]) ''b'') \<and>
   evalW (\<lambda>x. BoolVec [True, False, True])
     (loadedExpr (VectorType 3 Bool) (storedExpr (VectorType 3 Bool) (Opaque ''b'')))
     = BoolVec [True, False, True] \<and>
   scalarTypeOf (ScalarType F32) \<noteq> Bool \<and> scalarTypeOf (ScalarType F32) \<noteq> AbstractFloat \<and>
   toStorage (ScalarType F32) ''x'' = Inr ''x'' \<and> fromStorage (ScalarType F32) ''x'' = Inr ''x''"
  using storage_roundtrip[of "VectorType 3 Bool" "''b''" "\<lambda>x. BoolVec [True, False, True]"]
        storage_roundtrip[of "VectorType 3 Bool" "''u''" "\<lambda>x. BoolVec [True, False, True]"]
        storage_roundtrip[of "ScalarType F32" "''x''" "\<lambda>x. BoolVec [True, False, True]"]
  by (simp add: showNat_digit digit_def showNat_0 showNat_1)

lemma bindE_Inr [simp]: "bindE (Inr x) f = f x"
  by (simp add: bindE_def)

lemma bindE_Inl [simp]: "bindE (Inl e) f = Inl e"
  by (simp add: bindE_def)

lemma map_enumerate_index:
  "map (\<lambda>(i, c). f i c) (enumerate 0 cs) = map (\<lambda>i. f i (cs ! i)) [0..<length cs]"
  by (rule nth_equalityI) (simp_all add: nth_enumerate_eq)

lemma directBody_index:
  "directBody wgsl expressionBuilder cases =
     join (newline @ ''  '')
       (map (\<lambda>i. ''  outputs['' @ showNat i @ ''].value = ''
                   @ expressionBuilder (mapInput (input (cases ! i)) wgsl) @ '';'')
          [0..<length cases])"
  unfolding directBody_def by (simp only: map_enumerate_index)


text \<open>
  Claim C2, as amended. In const mode, whenever some parameter type is built from the
  abstract-float kind (and the result type has a stride), the shader of the
  direct-expression builder has no values table and its body is one statement for each
  case \<open>i\<close>, which assigns the expression built from the inputs of case \<open>i\<close> to
  \<open>outputs[i].value\<close> without a storage conversion, whatever the unroll flag says.
\<close>

theorem const_abstract_float_direct:
  assumes af: "\<exists>ty \<in> set parameterTypes. scalarTypeOf ty = AbstractFloat"
      and s: "valueStride resultType = Inr s"
  shows "\<exists>outputs.
           wgslOutputs typeText resultType (length cases) = Inr outputs \<and>
           wgslValuesArray wgsl parameterTypes resultType cases expressionBuilder = [] \<and>
           basicExpressionBuilder typeText wgsl unrollConstEvalLoops expressionBuilder
               parameterTypes resultType cases Const
             = Inr (newline @ wgslHeader parameterTypes resultType @ newline @ newline @
                    outputs @ newline @ newline @ newline @ newline @
                    ''@compute @workgroup_size(1)'' @ newline @
                    ''fn main() {'' @ newline @
                    join (newline @ ''  '')
                      (map (\<lambda>i. ''  outputs['' @ showNat i @ ''].value = ''
                                  @ expressionBuilder (mapInput (input (cases ! i)) wgsl) @ '';'')
                         [0..<length cases]) @
                    newline @ ''}'')"
proof -
  from s obtain outputs where o: "wgslOutputs typeText resultType (length cases) = Inr outputs"
    by (simp add: wgslOutputs_def)
  have v: "wgslValuesArray wgsl parameterTypes resultType cases expressionBuilder = []"
    using af by (simp add: wgslValuesArray_def)
  show ?thesis
    using af o v by (simp add: basicExpressionBuilder_def directBody_index)
qed


theorem const_abstract_float_direct_witness:
  "(\<exists>ty \<in> set [ScalarType AbstractFloat]. scalarTypeOf ty = AbstractFloat) \<and>
   valueStride (ScalarType F32) = Inr 16 \<and>
   basicExpressionBuilder typeName valueName False negation
       [ScalarType AbstractFloat] (ScalarType F32)
       [\<lparr>input = Single (Scalar AbstractFloat 1), expected = ExpValue (Scalar F32 1) :: (nat, unit) Expectation\<rparr>,
        \<lparr>input = Single (Scalar AbstractFloat 2), expected = ExpValue (Scalar F32 2)\<rparr>] Const
     = Inr (newline @ newline @ newline @ newline @
            ''struct Output {'' @ newline @
            ''  @size(16) value : f32'' @ newline @
            ''};'' @ newline @
            ''@group(0) @binding(0) var<storage, read_write> outputs : array<Output, 2>;'' @
            newline @ newline @ newline @ newline @
            ''@compute @workgroup_size(1)'' @ newline @
            ''fn main() {'' @ newline @
            ''  outputs[0].value = -(1);'' @ newline @
            ''    outputs[1].value = -(2);'' @ newline @ ''}'')"
proof -
  have af: "\<exists>ty \<in> set [ScalarType AbstractFloat]. scalarTypeOf ty = AbstractFloat" by simp
  have s: "valueStride (ScalarType F32) = Inr 16" by simp
  have u: "[0..<2] = [0, 1]" by (simp add: upt_rec)
  from const_abstract_float_direct[OF af s, of typeName
         "[\<lparr>input = Single (Scalar AbstractFloat 1), expected = ExpValue (Scalar F32 1) :: (nat, unit) Expectation\<rparr>,
        \<lparr>input = Single (Scalar AbstractFloat 2), expected = ExpValue (Scalar F32 2)\<rparr>]"
         valueName negation False]
  show ?thesis
    by (simp add: wgslOutputs_def wgslHeader_def u negation_def textAt_def
          showNat_digit digit_def showNat.simps[of 16])
qed


text \<open>
  Claim C2 as stated fails for a result type of abstract-float kind with no such
  parameter: the builder tests the parameter types only, takes the table path, and
  \<^verbatim>\<open>toStorage\<close> fails its assertion that abstract-float has no storage type.
\<close>

theorem result_abstract_float_counterexample:
  "scalarTypeOf (ScalarType AbstractFloat) = AbstractFloat \<and>
   basicExpressionBuilder typeName valueName False negation
       [ScalarType F32] (ScalarType AbstractFloat)
       [\<lparr>input = Single (Scalar F32 (1::nat)), expected = ExpValue (Scalar AbstractFloat 1) :: (nat, unit) Expectation\<rparr>] Const
     = Inl AssertionFailed \<and>
   basicExpressionBuilder typeName valueName True negation
       [ScalarType F32] (ScalarType AbstractFloat)
       [\<lparr>input = Single (Scalar F32 (1::nat)), expected = ExpValue (Scalar AbstractFloat 1) :: (nat, unit) Expectation\<rparr>] Const
     = Inl AssertionFailed"
  by (simp add: basicExpressionBuilder_def loopBody_def unrolledBody_def enumerate_eq_zip)












section \<open>Properties of the batch executor\<close>

lemma pipelinesUsed_append:
  "pipelinesUsed (xs @ ys) = pipelinesUsed xs @ pipelinesUsed ys"
  by (induction xs rule: pipelinesUsed.induct) simp_all

lemma pipelinesCreated_append:
  "pipelinesCreated (xs @ ys) = pipelinesCreated xs @ pipelinesCreated ys"
  by (induction xs rule: pipelinesCreated.induct) simp_all

lemma dispatches_append: "dispatches (xs @ ys) = dispatches xs + dispatches ys"
  by (induction xs rule: dispatches.induct) simp_all

lemma createPipeline_effect:
  "createPipeline source w = (p, w') \<Longrightarrow>
     p = nextId w + 1 \<and> pipelineCache w' = pipelineCache w \<and>
     ops w' = ops w @ [CreateShaderModule (nextId w) source, CreateComputePipeline p (nextId w)]"
  by (auto simp: createPipeline_def alloc_def)

lemma buildPipeline_buffer:
  assumes src: "src \<noteq> Const"
      and b: "buildPipeline typeText typeOf shaderBuilder pts rt cases src outputBuffer w
                = (Inr (p, g), w')"
  shows "\<exists>source. shaderBuilder pts rt cases src = Inr source \<and>
           pipelinesUsed (ops w') = pipelinesUsed (ops w) \<and>
           dispatches (ops w') = dispatches (ops w) \<and>
           ((pipelineCache w source = Some p \<and> pipelineCache w' = pipelineCache w \<and>
             pipelinesCreated (ops w') = pipelinesCreated (ops w)) \<or>
            (pipelineCache w source = None \<and> pipelineCache w' = (pipelineCache w)(source \<mapsto> p) \<and>
             pipelinesCreated (ops w') = pipelinesCreated (ops w) @ [p]))"
proof -
  from b src obtain source caseStride inputData where
    s: "shaderBuilder pts rt cases src = Inr source" and
    r: "(case getOrCreate (pipelineCache w) source (createPipeline source) w of
           (pipeline, cache, w1) \<Rightarrow>
             (case alloc (\<lambda>h. MakeBufferWithContents h inputData (length cases * caseStride)
                                 (src = Uniform))
                     (w1\<lparr>pipelineCache := cache\<rparr>) of
                (inputBuffer, w2) \<Rightarrow>
                  (case alloc (\<lambda>h. CreateBindGroup h pipeline [outputBuffer, inputBuffer]) w2 of
                     (bindGroup, w3) \<Rightarrow> (Inr (pipeline, bindGroup), w3))))
         = ((Inr (p, g), w') :: (error + nat \<times> nat) \<times> 'a world)"
    by (auto simp: buildPipeline_def split: option.splits sum.splits)
  show ?thesis
  proof (cases "pipelineCache w source")
    case (Some q)
    with r show ?thesis using s
      by (auto simp: getOrCreate_def alloc_def pipelinesUsed_append pipelinesCreated_append
            dispatches_append)
  next
    case None
    obtain q w1 where c: "createPipeline source w = (q, w1)" by (cases "createPipeline source w")
    from createPipeline_effect[OF c] None r c show ?thesis using s
      by (auto simp: getOrCreate_def alloc_def pipelinesUsed_append pipelinesCreated_append
            dispatches_append)
  qed
qed

lemma foldl_emit_ops: "ops (foldl (\<lambda>st opn. emit opn st) w xs) = ops w @ xs"
  by (induction xs arbitrary: w) (simp_all add: emit_def)

lemma foldl_emit_cache:
  "pipelineCache (foldl (\<lambda>st opn. emit opn st) w xs) = pipelineCache w"
  by (induction xs arbitrary: w) (simp_all add: emit_def)

lemma runStep_buffer:
  assumes src: "src \<noteq> Const"
      and b: "runStep typeText typeOf shaderBuilder pts rt src cases w = Inr w'"
  shows "\<exists>source p. shaderBuilder pts rt cases src = Inr source \<and>
           pipelinesUsed (ops w') = pipelinesUsed (ops w) @ [p] \<and>
           dispatches (ops w') = dispatches (ops w) + 1 \<and>
           ((pipelineCache w source = Some p \<and> pipelineCache w' = pipelineCache w \<and>
             pipelinesCreated (ops w') = pipelinesCreated (ops w)) \<or>
            (pipelineCache w source = None \<and> pipelineCache w' = (pipelineCache w)(source \<mapsto> p) \<and>
             pipelinesCreated (ops w') = pipelinesCreated (ops w) @ [p]))"
proof -
  from b obtain s where vs: "valueStride rt = Inr s"
    by (auto simp: runStep_def submitBatch_def split: sum.splits)
  define buf where "buf = nextId w"
  define w1 where "w1 = w\<lparr>nextId := nextId w + 1,
                          ops := ops w @ [CreateBuffer (nextId w) (length cases * s)]\<rparr>"
  have w1: "pipelineCache w1 = pipelineCache w"
           "ops w1 = ops w @ [CreateBuffer buf (length cases * s)]"
    by (simp_all add: w1_def buf_def)
  obtain r w2 where bp0: "buildPipeline typeText typeOf shaderBuilder pts rt cases src buf w1 = (r, w2)"
    by (cases "buildPipeline typeText typeOf shaderBuilder pts rt cases src buf w1")
  from b vs bp0 obtain p g where r: "r = Inr (p, g)"
    by (cases r) (auto simp: runStep_def submitBatch_def Let_def alloc_def w1_def buf_def)
  note bp = bp0[unfolded r]
  from b vs bp
  have o: "ops w' = ops w2 @ [CreateCommandEncoder, BeginComputePass, SetPipeline p,
                        SetBindGroup 0 g, DispatchWorkgroups 1, EndPass, Heartbeat,
                        Finish, QueueSubmit, Heartbeat,
                        ExpectGPUBufferValuesPassCheck buf (length cases * s), OnSubmittedWorkDone]"
    and c: "pipelineCache w' = pipelineCache w2"
    by (auto simp: runStep_def submitBatch_def Let_def alloc_def w1_def buf_def emit_def
          checkBatch_def)
  from buildPipeline_buffer[OF src bp] obtain source where
    s: "shaderBuilder pts rt cases src = Inr source"
       "pipelinesUsed (ops w2) = pipelinesUsed (ops w1)"
       "dispatches (ops w2) = dispatches (ops w1)"
       "(pipelineCache w1 source = Some p \<and> pipelineCache w2 = pipelineCache w1 \<and>
             pipelinesCreated (ops w2) = pipelinesCreated (ops w1)) \<or>
            (pipelineCache w1 source = None \<and> pipelineCache w2 = (pipelineCache w1)(source \<mapsto> p) \<and>
             pipelinesCreated (ops w2) = pipelinesCreated (ops w1) @ [p])"
    by blast
  have u: "pipelinesUsed (ops w') = pipelinesUsed (ops w) @ [p]"
    unfolding o by (simp add: pipelinesUsed_append s(2) w1(2))
  have d: "dispatches (ops w') = dispatches (ops w) + 1"
    unfolding o by (simp add: dispatches_append s(3) w1(2))
  have k: "pipelinesCreated (ops w') = pipelinesCreated (ops w2)"
          "pipelinesCreated (ops w1) = pipelinesCreated (ops w)"
    unfolding o by (simp_all add: pipelinesCreated_append w1(2))
  show ?thesis using s(1,4) u d k c w1(1) by auto
qed

lemma submitLoop_invariant:
  assumes step: "\<And>b st st' d. Inv st d \<Longrightarrow> submit b st = Inr st' \<Longrightarrow> Inv st' (d @ [b])"
      and res: "submitLoop submit cpb cases i st done = Some (Inr (st', bs))"
      and inv: "Inv st done"
  shows "Inv st' bs"
proof -
  have "(sb = submit \<longrightarrow> Inv s d \<longrightarrow> (\<forall>st' bs. y = Inr (st', bs) \<longrightarrow> Inv st' bs))"
    if "submitLoop sb c cs j s d = Some y" for sb c cs j s d y
    apply (rule submitLoop.raw_induct[where P = "\<lambda>sb c cs j s d y.
             sb = submit \<longrightarrow> Inv s d \<longrightarrow> (\<forall>st' bs. y = Inr (st', bs) \<longrightarrow> Inv st' bs)", OF _ that])
    subgoal premises prems for f sb c cs j s d y
    proof (intro impI allI)
      fix st' bs
      assume a: "sb = submit" "Inv s d" "y = Inr (st', bs)"
      show "Inv st' bs"
      proof (cases "j < length cs")
        case False
        with prems(2) a show ?thesis by simp
      next
        case True
        let ?b = "slice cs j (min (j + c) (length cs))"
        from prems(2) True a obtain s1 where
          s1: "sb ?b s = Inr s1" and
          rec: "f sb c cs (j + c) s1 (d @ [?b]) = Some y"
          by (auto simp: Let_def split: sum.splits)
        from step[OF a(2)] s1 a(1) have "Inv s1 (d @ [?b])" by simp
        with prems(1)[OF rec] a show ?thesis by simp
      qed
    qed
    done
  from this[OF res] inv show ?thesis by simp
qed

lemma submitLoop_two_batches:
  assumes n: "0 < n"
      and s1: "submit (replicate n c) w0 = Inr w1"
      and s2: "submit (replicate n c) w1 = Inr w2"
  shows "submitLoop submit n (replicate (2 * n) c) 0 w0 []
           = Some (Inr (w2, [replicate n c, replicate n c]))"
proof -
  let ?cs = "replicate (2 * n) c"
  have 3: "submitLoop submit n ?cs (n + n) w2 d = Some (Inr (w2, d))" for d
    by (subst submitLoop.simps) simp
  have 2: "submitLoop submit n ?cs n w1 d = Some (Inr (w2, d @ [replicate n c]))" for d
    by (subst submitLoop.simps) (simp add: slice_def s2 3 n Let_def)
  show ?thesis
    by (subst submitLoop.simps) (simp add: slice_def s1 2 n Let_def)
qed

lemma runStep_const:
  assumes b: "runStep typeText typeOf shaderBuilder pts rt Const cases w = Inr w'"
  shows "\<exists>source. shaderBuilder pts rt cases Const = Inr source \<and>
           pipelineCache w' = pipelineCache w \<and> nextId w' = nextId w + 4 \<and>
           pipelinesUsed (ops w') = pipelinesUsed (ops w) @ [nextId w + 2] \<and>
           pipelinesCreated (ops w') = pipelinesCreated (ops w) @ [nextId w + 2] \<and>
           dispatches (ops w') = dispatches (ops w) + 1"
  using b
  by (auto simp: runStep_def submitBatch_def buildPipeline_def createPipeline_def alloc_def
        emit_def checkBatch_def Let_def pipelinesUsed_append pipelinesCreated_append
        dispatches_append
      split: sum.splits option.splits)

lemma runStep_const_eq:
  assumes "checkInputTypes typeText typeOf pts cases = None"
      and "shaderBuilder pts rt cases Const = Inr source"
      and "valueStride rt = Inr s"
  shows "runStep typeText typeOf shaderBuilder pts rt Const cases w =
           Inr (w\<lparr>nextId := nextId w + 4,
                  ops := ops w @
                    [CreateBuffer (nextId w) (length cases * s),
                     CreateShaderModule (nextId w + 1) source,
                     CreateComputePipeline (nextId w + 2) (nextId w + 1),
                     CreateBindGroup (nextId w + 3) (nextId w + 2) [nextId w],
                     CreateCommandEncoder, BeginComputePass, SetPipeline (nextId w + 2),
                     SetBindGroup 0 (nextId w + 3), DispatchWorkgroups 1, EndPass, Heartbeat,
                     Finish, QueueSubmit, Heartbeat,
                     ExpectGPUBufferValuesPassCheck (nextId w) (length cases * s),
                     OnSubmittedWorkDone]\<rparr>)"
  using assms
  by (simp add: runStep_def submitBatch_def buildPipeline_def createPipeline_def alloc_def
        emit_def checkBatch_def Let_def)

text \<open>
  Claim C7, as amended. In the buffer modes (uniform, storage_r, storage_rw) every
  batch resolves its pipeline through the pipeline cache of the run, keyed by the
  shader source: a hit binds the stored pipeline and creates nothing, a miss creates
  one pipeline and stores it under the source. So after the batches of a run, the
  pipeline a batch dispatched with is the one the cache holds for its source, and two
  batches whose sources are equal dispatched with the same pipeline. In const mode the
  cache is neither read nor written: every batch creates the pipeline it dispatches
  with, so the pipelines of the batches of a run are pairwise different and the cache
  is after the run what it was before.
\<close>

theorem pipeline_cache_shared:
  assumes res: "runBatches lim (runStep typeText typeOf shaderBuilder parameterTypes resultType src)
                  parameterTypes src cases w = Some (Inr (w', bs))"
  shows "(src \<noteq> Const \<longrightarrow>
            (\<exists>us. pipelinesUsed (ops w') = pipelinesUsed (ops w) @ us \<and> length us = length bs \<and>
               (\<forall>i < length bs. \<exists>source.
                  shaderBuilder parameterTypes resultType (bs ! i) src = Inr source \<and>
                  pipelineCache w' source = Some (us ! i)) \<and>
               (\<forall>i < length bs. \<forall>j < length bs.
                  shaderBuilder parameterTypes resultType (bs ! i) src
                    = shaderBuilder parameterTypes resultType (bs ! j) src \<longrightarrow>
                  us ! i = us ! j)) \<and>
            (\<forall>b v v'. runStep typeText typeOf shaderBuilder parameterTypes resultType src b v = Inr v' \<longrightarrow>
               (\<exists>source p. shaderBuilder parameterTypes resultType b src = Inr source \<and>
                  pipelinesUsed (ops v') = pipelinesUsed (ops v) @ [p] \<and>
                  ((pipelineCache v source = Some p \<and> pipelineCache v' = pipelineCache v \<and>
                    pipelinesCreated (ops v') = pipelinesCreated (ops v)) \<or>
                   (pipelineCache v source = None \<and>
                    pipelineCache v' = (pipelineCache v)(source \<mapsto> p) \<and>
                    pipelinesCreated (ops v') = pipelinesCreated (ops v) @ [p]))))) \<and>
         (src = Const \<longrightarrow>
            pipelineCache w' = pipelineCache w \<and>
            (\<exists>us. pipelinesUsed (ops w') = pipelinesUsed (ops w) @ us \<and>
                  pipelinesCreated (ops w') = pipelinesCreated (ops w) @ us \<and>
                  length us = length bs \<and> distinct us)) \<and>
         (\<forall>b v v'. runStep typeText typeOf shaderBuilder parameterTypes resultType Const b v = Inr v' \<longrightarrow>
            pipelineCache v' = pipelineCache v \<and>
            (\<exists>p. pipelinesUsed (ops v') = pipelinesUsed (ops v) @ [p] \<and>
                 pipelinesCreated (ops v') = pipelinesCreated (ops v) @ [p]))"
proof -
  let ?step = "runStep typeText typeOf shaderBuilder parameterTypes resultType src"
  let ?sb = "\<lambda>b. shaderBuilder parameterTypes resultType b src"
  from res obtain cpb where
    loop: "submitLoop ?step cpb cases 0 w [] = Some (Inr (w', bs))"
    by (auto simp: runBatches_def split: sum.splits)
  have buffer: "\<exists>us. pipelinesUsed (ops w') = pipelinesUsed (ops w) @ us \<and> length us = length bs \<and>
            (\<forall>i < length bs. \<exists>source. ?sb (bs ! i) = Inr source \<and>
               pipelineCache w' source = Some (us ! i)) \<and>
            (\<forall>i < length bs. \<forall>j < length bs. ?sb (bs ! i) = ?sb (bs ! j) \<longrightarrow> us ! i = us ! j)"
    if src: "src \<noteq> Const"
  proof -
    define Inv where "Inv v d \<longleftrightarrow>
       (\<exists>us. pipelinesUsed (ops v) = pipelinesUsed (ops w) @ us \<and> length us = length d \<and>
          (\<forall>i < length d. \<exists>source. ?sb (d ! i) = Inr source \<and> pipelineCache v source = Some (us ! i)))"
      for v :: "'a world" and d :: "('a, 'b) Case list list"
    have step: "Inv v' (d @ [b])" if i: "Inv v d" and s: "?step b v = Inr v'" for b v v' d
    proof -
      from i obtain us where us: "pipelinesUsed (ops v) = pipelinesUsed (ops w) @ us"
        "length us = length d"
        "\<forall>i < length d. \<exists>source. ?sb (d ! i) = Inr source \<and> pipelineCache v source = Some (us ! i)"
        unfolding Inv_def by blast
      from runStep_buffer[OF src s] obtain source p where
        sp: "?sb b = Inr source" "pipelinesUsed (ops v') = pipelinesUsed (ops v) @ [p]"
          "(pipelineCache v source = Some p \<and> pipelineCache v' = pipelineCache v) \<or>
           (pipelineCache v source = None \<and> pipelineCache v' = (pipelineCache v)(source \<mapsto> p))"
        by blast
      have keep: "pipelineCache v' k = Some q" if "pipelineCache v k = Some q" for k q
        using sp(3) that by (cases "k = source") auto
      have new: "pipelineCache v' source = Some p" using sp(3) by auto
      have "\<exists>source. ?sb ((d @ [b]) ! i) = Inr source \<and>
              pipelineCache v' source = Some ((us @ [p]) ! i)" if "i < length (d @ [b])" for i
      proof (cases "i < length d")
        case True
        with us(2,3) keep show ?thesis by (auto simp: nth_append)
      next
        case False
        with that have "i = length d" by simp
        with us(2) sp(1) new show ?thesis by (simp add: nth_append)
      qed
      then show ?thesis
        unfolding Inv_def
        by (intro exI[of _ "us @ [p]"]) (simp add: sp(2) us(1,2))
    qed
    have init: "Inv w []" by (simp add: Inv_def)
    have "Inv w' bs"
      by (rule submitLoop_invariant[where Inv = Inv, OF step loop init])
    then obtain us where us: "pipelinesUsed (ops w') = pipelinesUsed (ops w) @ us"
        "length us = length bs"
        "\<forall>i < length bs. \<exists>source. ?sb (bs ! i) = Inr source \<and> pipelineCache w' source = Some (us ! i)"
      unfolding Inv_def by blast
    have share: "us ! i = us ! j" if "i < length bs" "j < length bs" "?sb (bs ! i) = ?sb (bs ! j)" for i j
    proof -
      from us(3) that(1) obtain s1 where 1: "?sb (bs ! i) = Inr s1" "pipelineCache w' s1 = Some (us ! i)" by blast
      from us(3) that(2) obtain s2 where 2: "?sb (bs ! j) = Inr s2" "pipelineCache w' s2 = Some (us ! j)" by blast
      from 1 2 that(3) show ?thesis by simp
    qed
    show ?thesis using us share by blast
  qed
  have per: "\<exists>source p. ?sb b = Inr source \<and>
               pipelinesUsed (ops v') = pipelinesUsed (ops v) @ [p] \<and>
               ((pipelineCache v source = Some p \<and> pipelineCache v' = pipelineCache v \<and>
                 pipelinesCreated (ops v') = pipelinesCreated (ops v)) \<or>
                (pipelineCache v source = None \<and>
                 pipelineCache v' = (pipelineCache v)(source \<mapsto> p) \<and>
                 pipelinesCreated (ops v') = pipelinesCreated (ops v) @ [p]))"
    if "src \<noteq> Const" "?step b v = Inr v'" for b v v'
    using runStep_buffer[OF that] by blast
  have const: "pipelineCache w' = pipelineCache w \<and>
            (\<exists>us. pipelinesUsed (ops w') = pipelinesUsed (ops w) @ us \<and>
                  pipelinesCreated (ops w') = pipelinesCreated (ops w) @ us \<and>
                  length us = length bs \<and> distinct us)"
    if src: "src = Const"
  proof -
    define Inv where "Inv v d \<longleftrightarrow>
       pipelineCache v = pipelineCache w \<and>
       (\<exists>us. pipelinesUsed (ops v) = pipelinesUsed (ops w) @ us \<and>
             pipelinesCreated (ops v) = pipelinesCreated (ops w) @ us \<and>
             length us = length d \<and> distinct us \<and> (\<forall>u \<in> set us. u < nextId v))"
      for v :: "'a world" and d :: "('a, 'b) Case list list"
    have step: "Inv v' (d @ [b])" if i: "Inv v d" and s: "?step b v = Inr v'" for b v v' d
    proof -
      from i obtain us where c: "pipelineCache v = pipelineCache w" and
        us: "pipelinesUsed (ops v) = pipelinesUsed (ops w) @ us"
            "pipelinesCreated (ops v) = pipelinesCreated (ops w) @ us"
            "length us = length d" "distinct us" "\<forall>u \<in> set us. u < nextId v"
        unfolding Inv_def by blast
      from runStep_const[OF s[unfolded src]] have
        n: "pipelineCache v' = pipelineCache v" "nextId v' = nextId v + 4"
           "pipelinesUsed (ops v') = pipelinesUsed (ops v) @ [nextId v + 2]"
           "pipelinesCreated (ops v') = pipelinesCreated (ops v) @ [nextId v + 2]"
        by auto
      have d: "distinct (us @ [nextId v + 2])" using us(4,5) by auto
      have l: "\<forall>u \<in> set (us @ [nextId v + 2]). u < nextId v'" using us(5) n(2) by auto
      show ?thesis
        unfolding Inv_def
        apply (intro conjI exI[of _ "us @ [nextId v + 2]"])
        using c n us(1,2,3) d l by simp_all
    qed
    have init: "Inv w []" by (simp add: Inv_def)
    have "Inv w' bs"
      by (rule submitLoop_invariant[where Inv = Inv, OF step loop init])
    then show ?thesis unfolding Inv_def by blast
  qed
  have perc: "pipelineCache v' = pipelineCache v \<and>
            (\<exists>p. pipelinesUsed (ops v') = pipelinesUsed (ops v) @ [p] \<and>
                 pipelinesCreated (ops v') = pipelinesCreated (ops v) @ [p])"
    if "runStep typeText typeOf shaderBuilder parameterTypes resultType Const b v = Inr v'"
    for b v v'
    using runStep_const[OF that] by blast
  show ?thesis using buffer per const perc by blast
qed

lemmas run_eval =
  runBatches_def casesPerBatch_def valueStrides_def submitLoop.simps slice_def
  runStep_def submitBatch_def buildPipeline_def Let_def basicExpressionBuilder_def
  wgslOutputs_def wgslInputVar_def wgslHeader_def wgslValuesArray_def loopBody_def
  getOrCreate_def createPipeline_def
  alloc_def emit_def checkBatch_def freshWorld_def packInputData_def enumerate_eq_zip
  negation_def textAt_def showNat_digit digit_def showNat.simps[of 16] showNat.simps[of 32] upt_rec


theorem pipeline_cache_shared_witness:
  "(case runBatches \<lparr>maxUniformBufferBindingSize = 65536, maxStorageBufferBindingSize = 32\<rparr>
      (runStep typeName valueType (basicExpressionBuilder typeName valueName False negation)
         [ScalarType F32] (ScalarType F32) StorageR)
      [ScalarType F32] StorageR
      [\<lparr>input = Single (Scalar F32 1), expected = ExpValue (Scalar F32 1) :: (nat, unit) Expectation\<rparr>,
       \<lparr>input = Single (Scalar F32 2), expected = ExpValue (Scalar F32 2)\<rparr>,
       \<lparr>input = Single (Scalar F32 3), expected = ExpValue (Scalar F32 3)\<rparr>,
       \<lparr>input = Single (Scalar F32 4), expected = ExpValue (Scalar F32 4)\<rparr>]
      freshWorld of
      Some (Inr (w', bs)) \<Rightarrow>
        length bs = 2 \<and> pipelinesUsed (ops w') = [2, 2] \<and> pipelinesCreated (ops w') = [2] \<and>
        dispatches (ops w') = 2
    | _ \<Rightarrow> False) \<and>
   (case runBatches \<lparr>maxUniformBufferBindingSize = 65536, maxStorageBufferBindingSize = 32\<rparr>
      (runStep typeName valueType (basicExpressionBuilder typeName valueName False negation)
         [ScalarType F32] (ScalarType F32) Const)
      [ScalarType F32] Const
      [\<lparr>input = Single (Scalar F32 1), expected = ExpValue (Scalar F32 1) :: (nat, unit) Expectation\<rparr>,
       \<lparr>input = Single (Scalar F32 2), expected = ExpValue (Scalar F32 2)\<rparr>]
      freshWorld of
      Some (Inr (w', bs)) \<Rightarrow>
        length bs = 1 \<and> pipelinesUsed (ops w') = [2] \<and> pipelinesCreated (ops w') = [2] \<and>
        dispatches (ops w') = 1 \<and> pipelineCache w' = Map.empty
    | _ \<Rightarrow> False)"
proof -
  let ?run = "runBatches \<lparr>maxUniformBufferBindingSize = 65536, maxStorageBufferBindingSize = 32\<rparr>
      (runStep typeName valueType (basicExpressionBuilder typeName valueName False negation)
         [ScalarType F32] (ScalarType F32) StorageR)
      [ScalarType F32] StorageR
      [\<lparr>input = Single (Scalar F32 1), expected = ExpValue (Scalar F32 1) :: (nat, unit) Expectation\<rparr>,
       \<lparr>input = Single (Scalar F32 2), expected = ExpValue (Scalar F32 2)\<rparr>,
       \<lparr>input = Single (Scalar F32 3), expected = ExpValue (Scalar F32 3)\<rparr>,
       \<lparr>input = Single (Scalar F32 4), expected = ExpValue (Scalar F32 4)\<rparr>]
      freshWorld"
  let ?crun = "runBatches \<lparr>maxUniformBufferBindingSize = 65536, maxStorageBufferBindingSize = 32\<rparr>
      (runStep typeName valueType (basicExpressionBuilder typeName valueName False negation)
         [ScalarType F32] (ScalarType F32) Const)
      [ScalarType F32] Const
      [\<lparr>input = Single (Scalar F32 1), expected = ExpValue (Scalar F32 1) :: (nat, unit) Expectation\<rparr>,
       \<lparr>input = Single (Scalar F32 2), expected = ExpValue (Scalar F32 2)\<rparr>]
      freshWorld"
  have ev: "(case ?run of
      Some (Inr (w', bs)) \<Rightarrow>
        length bs = 2 \<and> pipelinesUsed (ops w') = [2, 2] \<and> pipelinesCreated (ops w') = [2] \<and>
        dispatches (ops w') = 2
    | _ \<Rightarrow> False)"
    by (simp add: run_eval)
  then obtain w' bs where r: "?run = Some (Inr (w', bs))"
    by (auto split: option.splits sum.splits)
  have cev: "(case ?crun of
      Some (Inr (w', bs)) \<Rightarrow>
        length bs = 1 \<and> pipelinesUsed (ops w') = [2] \<and> pipelinesCreated (ops w') = [2] \<and>
        dispatches (ops w') = 1 \<and> pipelineCache w' = Map.empty
    | _ \<Rightarrow> False)"
    by (simp add: run_eval)
  then obtain cw' cbs where cr: "?crun = Some (Inr (cw', cbs))"
    by (auto split: option.splits sum.splits)
  from pipeline_cache_shared[OF r] pipeline_cache_shared[OF cr] ev cev show ?thesis by simp
qed


text \<open>
  Claim C7 as stated fails in const mode. A run of 64 equal cases cuts two batches of
  32 cases; they are the same list, so the builder gives them the same source. The two
  batches dispatch with two different pipelines (handles 2 and 6), both created by the
  run, and the cache holds nothing for the source afterwards.
\<close>

theorem const_pipeline_not_cached_counterexample:
  "\<not> isl (basicExpressionBuilder typeName valueName False negation [ScalarType F32] (ScalarType F32)
            (replicate 32 \<lparr>input = Single (Scalar F32 (1::nat)),
                            expected = ExpValue (Scalar F32 1) :: (nat, unit) Expectation\<rparr>) Const) \<and>
   run \<lparr>maxUniformBufferBindingSize = 65536, maxStorageBufferBindingSize = 134217728\<rparr>
     exactMatch typeName valueType (basicExpressionBuilder typeName valueName False negation)
     [ScalarType F32] (ScalarType F32) \<lparr>inputSource = Const, vectorize = None\<rparr>
     (replicate 64 \<lparr>input = Single (Scalar F32 (1::nat)),
                     expected = ExpValue (Scalar F32 1) :: (nat, unit) Expectation\<rparr>)
     freshWorld \<noteq> None \<and>
   \<not> isl (the (run \<lparr>maxUniformBufferBindingSize = 65536, maxStorageBufferBindingSize = 134217728\<rparr>
     exactMatch typeName valueType (basicExpressionBuilder typeName valueName False negation)
     [ScalarType F32] (ScalarType F32) \<lparr>inputSource = Const, vectorize = None\<rparr>
     (replicate 64 \<lparr>input = Single (Scalar F32 (1::nat)),
                     expected = ExpValue (Scalar F32 1) :: (nat, unit) Expectation\<rparr>)
     freshWorld)) \<and>
   snd (projr (the (run \<lparr>maxUniformBufferBindingSize = 65536, maxStorageBufferBindingSize = 134217728\<rparr>
     exactMatch typeName valueType (basicExpressionBuilder typeName valueName False negation)
     [ScalarType F32] (ScalarType F32) \<lparr>inputSource = Const, vectorize = None\<rparr>
     (replicate 64 \<lparr>input = Single (Scalar F32 (1::nat)),
                     expected = ExpValue (Scalar F32 1) :: (nat, unit) Expectation\<rparr>)
     freshWorld)))
     = [replicate 32 \<lparr>input = Single (Scalar F32 (1::nat)),
                       expected = ExpValue (Scalar F32 1) :: (nat, unit) Expectation\<rparr>,
        replicate 32 \<lparr>input = Single (Scalar F32 (1::nat)),
                       expected = ExpValue (Scalar F32 1) :: (nat, unit) Expectation\<rparr>] \<and>
   pipelinesUsed (ops (fst (projr (the
     (run \<lparr>maxUniformBufferBindingSize = 65536, maxStorageBufferBindingSize = 134217728\<rparr>
     exactMatch typeName valueType (basicExpressionBuilder typeName valueName False negation)
     [ScalarType F32] (ScalarType F32) \<lparr>inputSource = Const, vectorize = None\<rparr>
     (replicate 64 \<lparr>input = Single (Scalar F32 (1::nat)),
                     expected = ExpValue (Scalar F32 1) :: (nat, unit) Expectation\<rparr>)
     freshWorld))))) = [2, 6] \<and>
   pipelinesCreated (ops (fst (projr (the
     (run \<lparr>maxUniformBufferBindingSize = 65536, maxStorageBufferBindingSize = 134217728\<rparr>
     exactMatch typeName valueType (basicExpressionBuilder typeName valueName False negation)
     [ScalarType F32] (ScalarType F32) \<lparr>inputSource = Const, vectorize = None\<rparr>
     (replicate 64 \<lparr>input = Single (Scalar F32 (1::nat)),
                     expected = ExpValue (Scalar F32 1) :: (nat, unit) Expectation\<rparr>)
     freshWorld))))) = [2, 6] \<and>
   pipelineCache (fst (projr (the
     (run \<lparr>maxUniformBufferBindingSize = 65536, maxStorageBufferBindingSize = 134217728\<rparr>
     exactMatch typeName valueType (basicExpressionBuilder typeName valueName False negation)
     [ScalarType F32] (ScalarType F32) \<lparr>inputSource = Const, vectorize = None\<rparr>
     (replicate 64 \<lparr>input = Single (Scalar F32 (1::nat)),
                     expected = ExpValue (Scalar F32 1) :: (nat, unit) Expectation\<rparr>)
     freshWorld))))
     (projr (basicExpressionBuilder typeName valueName False negation [ScalarType F32] (ScalarType F32)
            (replicate 32 \<lparr>input = Single (Scalar F32 (1::nat)),
                            expected = ExpValue (Scalar F32 1) :: (nat, unit) Expectation\<rparr>) Const))
     = None"
proof -
  let ?c = "\<lparr>input = Single (Scalar F32 (1::nat)),
             expected = ExpValue (Scalar F32 1) :: (nat, unit) Expectation\<rparr>"
  let ?B = "basicExpressionBuilder typeName valueName False negation"
  let ?step = "runStep typeName valueType ?B [ScalarType F32] (ScalarType F32) Const"
  let ?lim = "\<lparr>maxUniformBufferBindingSize = 65536, maxStorageBufferBindingSize = 134217728\<rparr>"
  have ci: "checkInputTypes typeName valueType [ScalarType F32] (replicate n ?c) = None" for n
    by (induction n) (simp_all add: Let_def)
  have nb: "\<not> isl (?B [ScalarType F32] (ScalarType F32) (replicate 32 ?c) Const)"
    by (simp add: basicExpressionBuilder_def loopBody_def wgslOutputs_def)
  define source where "source = projr (?B [ScalarType F32] (ScalarType F32) (replicate 32 ?c) Const)"
  from nb have B: "?B [ScalarType F32] (ScalarType F32) (replicate 32 ?c) Const = Inr source"
    unfolding source_def by (cases "?B [ScalarType F32] (ScalarType F32) (replicate 32 ?c) Const") simp_all
  have vs: "valueStride (ScalarType F32) = Inr 16" by simp
  note st = runStep_const_eq[where typeText = typeName and typeOf = valueType and shaderBuilder = ?B
                and pts = "[ScalarType F32]" and rt = "ScalarType F32"
                and cases = "replicate 32 ?c" and source = source and s = 16,
              OF ci[of 32] B vs]
  define w0 :: "nat world" where "w0 = freshWorld\<lparr>pipelineCache := Map.empty\<rparr>"
  define w1 where "w1 = w0\<lparr>nextId := nextId w0 + 4,
                  ops := ops w0 @
                    [CreateBuffer (nextId w0) (length (replicate 32 ?c) * 16),
                     CreateShaderModule (nextId w0 + 1) source,
                     CreateComputePipeline (nextId w0 + 2) (nextId w0 + 1),
                     CreateBindGroup (nextId w0 + 3) (nextId w0 + 2) [nextId w0],
                     CreateCommandEncoder, BeginComputePass, SetPipeline (nextId w0 + 2),
                     SetBindGroup 0 (nextId w0 + 3), DispatchWorkgroups 1, EndPass, Heartbeat,
                     Finish, QueueSubmit, Heartbeat,
                     ExpectGPUBufferValuesPassCheck (nextId w0) (length (replicate 32 ?c) * 16),
                     OnSubmittedWorkDone]\<rparr>"
  define w2 where "w2 = w1\<lparr>nextId := nextId w1 + 4,
                  ops := ops w1 @
                    [CreateBuffer (nextId w1) (length (replicate 32 ?c) * 16),
                     CreateShaderModule (nextId w1 + 1) source,
                     CreateComputePipeline (nextId w1 + 2) (nextId w1 + 1),
                     CreateBindGroup (nextId w1 + 3) (nextId w1 + 2) [nextId w1],
                     CreateCommandEncoder, BeginComputePass, SetPipeline (nextId w1 + 2),
                     SetBindGroup 0 (nextId w1 + 3), DispatchWorkgroups 1, EndPass, Heartbeat,
                     Finish, QueueSubmit, Heartbeat,
                     ExpectGPUBufferValuesPassCheck (nextId w1) (length (replicate 32 ?c) * 16),
                     OnSubmittedWorkDone]\<rparr>"
  have s1: "?step (replicate 32 ?c) w0 = Inr w1" unfolding w1_def by (rule st)
  have s2: "?step (replicate 32 ?c) w1 = Inr w2" unfolding w2_def by (rule st)
  have "(0::nat) < 32" by simp
  from submitLoop_two_batches[where submit = ?step and n = 32 and c = ?c, OF this s1 s2]
  have loop: "submitLoop ?step 32 (replicate 64 ?c) 0 w0 []
                = Some (Inr (w2, [replicate 32 ?c, replicate 32 ?c]))"
    by simp
  have run: "run ?lim exactMatch typeName valueType ?B [ScalarType F32] (ScalarType F32)
               \<lparr>inputSource = Const, vectorize = None\<rparr> (replicate 64 ?c) freshWorld
             = Some (Inr (w2, [replicate 32 ?c, replicate 32 ?c]))"
    using loop by (simp add: run_def runBatches_def casesPerBatch_def w0_def)
  have u: "pipelinesUsed (ops w2) = [2, 6]" "pipelinesCreated (ops w2) = [2, 6]"
          "pipelineCache w2 source = None"
    by (simp_all add: w2_def w1_def w0_def freshWorld_def)
  show ?thesis unfolding run source_def[symmetric] using nb u by simp
qed

section \<open>Runs with a stride above the limit\<close>

text \<open>
  With the direct-expression builder, one f32 parameter and a storage limit of 8
  bytes, \<^verbatim>\<open>casesPerBatch\<close> is 0, submitting the empty batch succeeds in every state, and
  \<^verbatim>\<open>run\<close> has no result; with a limit of 32 bytes a run of four cases returns after two
  batches. With the compound-assignment builder and a result type that is not the
  left type, the submission of the first empty batch throws and the run ends.
\<close>

lemma runStep_empty_batch:
  "\<exists>w'. runStep typeName valueType (basicExpressionBuilder typeName valueName False negation)
           [ScalarType F32] (ScalarType F32) StorageR [] w = Inr w'"
  by (simp add: run_eval split: option.splits)

theorem run_terminates_iff_capacity_witness:
  "casesPerBatch \<lparr>maxUniformBufferBindingSize = 65536, maxStorageBufferBindingSize = 8\<rparr> StorageR
     [ScalarType F32] = Inr 0 \<and>
   run \<lparr>maxUniformBufferBindingSize = 65536, maxStorageBufferBindingSize = 8\<rparr>
     exactMatch typeName valueType (basicExpressionBuilder typeName valueName False negation)
     [ScalarType F32] (ScalarType F32) \<lparr>inputSource = StorageR, vectorize = None\<rparr>
     [\<lparr>input = Single (Scalar F32 (1::nat)), expected = ExpValue (Scalar F32 1) :: (nat, unit) Expectation\<rparr>]
     freshWorld = None \<and>
   casesPerBatch \<lparr>maxUniformBufferBindingSize = 65536, maxStorageBufferBindingSize = 32\<rparr> StorageR
     [ScalarType F32] = Inr 2 \<and>
   (case run \<lparr>maxUniformBufferBindingSize = 65536, maxStorageBufferBindingSize = 32\<rparr>
      exactMatch typeName valueType (basicExpressionBuilder typeName valueName False negation)
      [ScalarType F32] (ScalarType F32) \<lparr>inputSource = StorageR, vectorize = None\<rparr>
      [\<lparr>input = Single (Scalar F32 (1::nat)), expected = ExpValue (Scalar F32 1) :: (nat, unit) Expectation\<rparr>,
       \<lparr>input = Single (Scalar F32 2), expected = ExpValue (Scalar F32 2)\<rparr>,
       \<lparr>input = Single (Scalar F32 3), expected = ExpValue (Scalar F32 3)\<rparr>,
       \<lparr>input = Single (Scalar F32 4), expected = ExpValue (Scalar F32 4)\<rparr>]
      freshWorld of
      Some (Inr (w', bs)) \<Rightarrow>
        bs = [[\<lparr>input = Single (Scalar F32 1), expected = ExpValue (Scalar F32 1)\<rparr>,
               \<lparr>input = Single (Scalar F32 2), expected = ExpValue (Scalar F32 2)\<rparr>],
              [\<lparr>input = Single (Scalar F32 3), expected = ExpValue (Scalar F32 3)\<rparr>,
               \<lparr>input = Single (Scalar F32 4), expected = ExpValue (Scalar F32 4)\<rparr>]] \<and>
        dispatches (ops w') = 2
    | _ \<Rightarrow> False) \<and>
   casesPerBatch \<lparr>maxUniformBufferBindingSize = 65536, maxStorageBufferBindingSize = 8\<rparr> StorageR
     [ScalarType I32, ScalarType I32] = Inr 0 \<and>
   run \<lparr>maxUniformBufferBindingSize = 65536, maxStorageBufferBindingSize = 8\<rparr>
     exactMatch typeName valueType (compoundAssignmentBuilder typeName valueName False ''+='')
     [ScalarType I32, ScalarType I32] (ScalarType U32) \<lparr>inputSource = StorageR, vectorize = None\<rparr>
     [\<lparr>input = Many [Scalar I32 (2::nat), Scalar I32 3], expected = ExpValue (Scalar U32 5) :: (nat, unit) Expectation\<rparr>]
     freshWorld
     = Some (Inl (Error ''compoundBinaryOp() requires result type (u32) to be equal to the LHS type (i32)''))"
proof -
  let ?c = "\<lparr>input = Single (Scalar F32 (1::nat)), expected = ExpValue (Scalar F32 1) :: (nat, unit) Expectation\<rparr>"
  let ?cs = "[\<lparr>input = Single (Scalar F32 (1::nat)), expected = ExpValue (Scalar F32 1) :: (nat, unit) Expectation\<rparr>,
       \<lparr>input = Single (Scalar F32 2), expected = ExpValue (Scalar F32 2)\<rparr>,
       \<lparr>input = Single (Scalar F32 3), expected = ExpValue (Scalar F32 3)\<rparr>,
       \<lparr>input = Single (Scalar F32 4), expected = ExpValue (Scalar F32 4)\<rparr>]"
  let ?d = "\<lparr>input = Many [Scalar I32 (2::nat), Scalar I32 3], expected = ExpValue (Scalar U32 5) :: (nat, unit) Expectation\<rparr>"
  let ?step = "runStep typeName valueType (basicExpressionBuilder typeName valueName False negation)
           [ScalarType F32] (ScalarType F32) StorageR"
  let ?cstep = "runStep typeName valueType (compoundAssignmentBuilder typeName valueName False ''+='')
           [ScalarType I32, ScalarType I32] (ScalarType U32) StorageR"
  let ?l8 = "\<lparr>maxUniformBufferBindingSize = 65536, maxStorageBufferBindingSize = 8\<rparr>"
  let ?l32 = "\<lparr>maxUniformBufferBindingSize = 65536, maxStorageBufferBindingSize = 32\<rparr>"
  let ?w0 = "freshWorld\<lparr>pipelineCache := Map.empty\<rparr> :: nat world"
  have ne1: "[?c] \<noteq> []" and ne4: "?cs \<noteq> []" and ned: "[?d] \<noteq> []" by simp_all
  have src: "StorageR \<noteq> Const" by simp
  have s: "valueStrides [ScalarType F32] = Inr 16" by (simp add: valueStrides_def)
  have s2: "valueStrides [ScalarType I32, ScalarType I32] = Inr 32" by (simp add: valueStrides_def)
  have ok: "\<forall>w. \<exists>w'. ?step [] w = Inr w'" using runStep_empty_batch by blast
  have lt: "applicableLimit ?l8 StorageR < 16" by (simp add: applicableLimit_def)
  have lt2: "applicableLimit ?l8 StorageR < 32" by (simp add: applicableLimit_def)
  have ge: "1 \<le> applicableLimit ?l32 StorageR div 16" by (simp add: applicableLimit_def)
  note t8 = run_terminates_iff_capacity[OF ne1 src s, of ?l8 ?step ?w0]
  note t32 = run_terminates_iff_capacity[OF ne4 src s, of ?l32 ?step ?w0]
  note c8 = run_terminates_iff_capacity[OF ned src s2, of ?l8 ?cstep ?w0]
  from t8 ok lt
  have a: "runBatches ?l8 ?step [ScalarType F32] StorageR [?c] ?w0 = None"
    by blast
  from t8 have c0: "casesPerBatch ?l8 StorageR [ScalarType F32] = Inr 0"
    by (simp add: applicableLimit_def)
  from t32 have c2: "casesPerBatch ?l32 StorageR [ScalarType F32] = Inr 2"
    by (simp add: applicableLimit_def)
  from t32 ge obtain r where
    r: "runBatches ?l32 ?step [ScalarType F32] StorageR ?cs ?w0 = Some r" and
    rl: "\<forall>st' bs. r = Inr (st', bs) \<longrightarrow>
           length bs = (length ?cs + applicableLimit ?l32 StorageR div 16 - 1)
                         div (applicableLimit ?l32 StorageR div 16) \<and> concat bs = ?cs"
    by blast
  have b: "(case runBatches ?l32 ?step [ScalarType F32] StorageR ?cs ?w0 of
      Some (Inr (w', bs)) \<Rightarrow>
        bs = [[\<lparr>input = Single (Scalar F32 1), expected = ExpValue (Scalar F32 1)\<rparr>,
               \<lparr>input = Single (Scalar F32 2), expected = ExpValue (Scalar F32 2)\<rparr>],
              [\<lparr>input = Single (Scalar F32 3), expected = ExpValue (Scalar F32 3)\<rparr>,
               \<lparr>input = Single (Scalar F32 4), expected = ExpValue (Scalar F32 4)\<rparr>]] \<and>
        dispatches (ops w') = 2
    | _ \<Rightarrow> False)"
    by (simp add: run_eval)
  from c8 have d0: "casesPerBatch ?l8 StorageR [ScalarType I32, ScalarType I32] = Inr 0"
    by (simp add: applicableLimit_def)
  have e: "?cstep [] ?w0
             = Inl (Error ''compoundBinaryOp() requires result type (u32) to be equal to the LHS type (i32)'')"
    by (simp add: runStep_def submitBatch_def buildPipeline_def alloc_def
          compoundAssignmentBuilder_def Let_def)
  from c8 lt2 e
  have d: "runBatches ?l8 ?cstep [ScalarType I32, ScalarType I32] StorageR [?d] ?w0
             = Some (Inl (Error ''compoundBinaryOp() requires result type (u32) to be equal to the LHS type (i32)''))"
    by blast
  show ?thesis using a b c0 c2 d0 d by (simp add: run_def)
qed

text \<open>
  Claim C10 as stated fails: with a parameter of abstract-float kind in a storage mode
  and a limit of 8 bytes, \<^verbatim>\<open>casesPerBatch\<close> is 0, yet the run ends: the builder throws
  when the first, empty, batch is submitted (\<^verbatim>\<open>fromStorage\<close> asserts that the type is not
  abstract-float).
\<close>

theorem empty_batch_throws_counterexample:
  "valueStrides [ScalarType AbstractFloat] = Inr 16 \<and>
   applicableLimit \<lparr>maxUniformBufferBindingSize = 65536, maxStorageBufferBindingSize = 8\<rparr> StorageR < 16 \<and>
   casesPerBatch \<lparr>maxUniformBufferBindingSize = 65536, maxStorageBufferBindingSize = 8\<rparr> StorageR
     [ScalarType AbstractFloat] = Inr 0 \<and>
   run \<lparr>maxUniformBufferBindingSize = 65536, maxStorageBufferBindingSize = 8\<rparr>
     exactMatch typeName valueType (basicExpressionBuilder typeName valueName False negation)
     [ScalarType AbstractFloat] (ScalarType F32) \<lparr>inputSource = StorageR, vectorize = None\<rparr>
     [\<lparr>input = Single (Scalar AbstractFloat (1::nat)), expected = ExpValue (Scalar F32 1) :: (nat, unit) Expectation\<rparr>]
     freshWorld = Some (Inl AssertionFailed)"
proof -
  let ?step = "runStep typeName valueType (basicExpressionBuilder typeName valueName False negation)
           [ScalarType AbstractFloat] (ScalarType F32) StorageR"
  let ?c = "\<lparr>input = Single (Scalar AbstractFloat (1::nat)), expected = ExpValue (Scalar F32 1) :: (nat, unit) Expectation\<rparr>"
  have e: "?step [] w = Inl AssertionFailed" for w :: "nat world"
    by (simp add: runStep_def submitBatch_def buildPipeline_def alloc_def
          basicExpressionBuilder_def enumerate_eq_zip Let_def)
  have "submitLoop ?step 0 [?c] 0 (freshWorld\<lparr>pipelineCache := Map.empty\<rparr>) [] = Some (Inl AssertionFailed)"
    by (rule submitLoop_zero_throws) (simp_all add: e)
  then show ?thesis
    by (simp add: run_def runBatches_def casesPerBatch_def valueStrides_def applicableLimit_def)
qed

end
